(* ===== verification/Prelude.thy ===== *)
theory Prelude
  imports Main "HOL-Library.Word"
begin

text \<open>
  Shared vocabulary of the development: the errors a call of the program can end in, the
  state-and-error monad the stateful components are written in together with its weakest
  precondition calculus, characters and strings, and the generic list lemmas the components share.

  Strings. A \<open>Glib::ustring\<close> is a sequence of Unicode code points and a \<open>char\<close> buffer of the
  HTTP code is a sequence of bytes; both are lists of natural numbers here (\<open>ustring\<close>).  A
  \<open>std::string\<close> that the code only concatenates and searches is a HOL \<open>string\<close>.
  \<open>u ''abc''\<close> is the literal \<open>"abc"\<close> as a \<open>ustring\<close>.
\<close>

section \<open>Errors and the state-and-error monad\<close>

text \<open>
  How a call can end other than by returning: an exception of the standard library (with its
  message), an operation the C++ standard leaves undefined (a read past the end of a buffer, the top of
  an empty stack, a null pointer), or, in a definition that carries fuel, no fuel left.
\<close>

datatype flash_error =
    Logic_error string
  | Domain_error string
  | Invalid_argument string
  | Out_of_range string
  | Runtime_error string
  | Undefined_behaviour string
  | Out_of_fuel

type_synonym ('s, 'a) exec = "'s \<Rightarrow> flash_error + ('a \<times> 's)"

definition ret :: "'a \<Rightarrow> ('s, 'a) exec" where
  "ret x s = Inr (x, s)"

definition throw :: "flash_error \<Rightarrow> ('s, 'a) exec" where
  "throw e s = Inl e"

definition bind :: "('s, 'a) exec \<Rightarrow> ('a \<Rightarrow> ('s, 'b) exec) \<Rightarrow> ('s, 'b) exec" where
  "bind m f s = (case m s of Inl e \<Rightarrow> Inl e | Inr (x, s') \<Rightarrow> f x s')"

definition gets :: "('s \<Rightarrow> 'a) \<Rightarrow> ('s, 'a) exec" where
  "gets f s = Inr (f s, s)"

definition modify :: "('s \<Rightarrow> 's) \<Rightarrow> ('s, unit) exec" where
  "modify f s = Inr ((), f s)"

named_theorems exec_simps \<open>evaluation of the state-and-error monad\<close>

lemma exec_basic [exec_simps]:
  "ret x s = Inr (x, s)"
  "throw e s = Inl e"
  "gets f s = Inr (f s, s)"
  "modify g s = Inr ((), g s)"
  by (simp_all add: ret_def throw_def gets_def modify_def)

lemma bind_Inr [exec_simps]: "m s = Inr (x, s') \<Longrightarrow> bind m f s = f x s'"
  by (simp add: bind_def)

lemma bind_Inl [exec_simps]: "m s = Inl e \<Longrightarrow> bind m f s = Inl e"
  by (simp add: bind_def)

lemma bind_ret [exec_simps]: "bind (ret x) f s = f x s"
  by (simp add: bind_def ret_def)

lemma bind_throw [exec_simps]: "bind (throw e) f s = Inl e"
  by (simp add: bind_def throw_def)

lemma bind_gets [exec_simps]: "bind (gets g) f s = f (g s) s"
  by (simp add: bind_def gets_def)

lemma bind_modify [exec_simps]: "bind (modify g) f s = f () (g s)"
  by (simp add: bind_def modify_def)

lemma bind_assoc: "bind (bind m f) g = bind m (\<lambda>x. bind (f x) g)"
  by (auto simp: fun_eq_iff bind_def split: sum.split)

lemma bind_InrE:
  assumes "bind m f s = Inr (y, t)"
  obtains x s' where "m s = Inr (x, s')" "f x s' = Inr (y, t)"
  using assms by (auto simp: bind_def split: sum.splits)

lemma bind_InlE:
  assumes "bind m f s = Inl e"
  obtains "m s = Inl e" | x s' where "m s = Inr (x, s')" "f x s' = Inl e"
  using assms by (auto simp: bind_def split: sum.splits)

text \<open>
  The weakest precondition of a call: the postcondition \<open>Q\<close> where it returns, the
  exceptional postcondition \<open>E\<close> where it does not.  \<open>wp\<close> distributes over \<open>bind\<close>, so a
  component's invariant is pushed through a sequence of calls by rewriting.
\<close>

definition wp :: "('s, 'a) exec \<Rightarrow> ('a \<Rightarrow> 's \<Rightarrow> bool) \<Rightarrow> (flash_error \<Rightarrow> bool) \<Rightarrow> 's \<Rightarrow> bool" where
  "wp m Q E s = (case m s of Inl e \<Rightarrow> E e | Inr (x, s') \<Rightarrow> Q x s')"

named_theorems wp_simps \<open>weakest preconditions of the monad's primitives\<close>

lemma wp_ret [wp_simps]: "wp (ret x) Q E = Q x"
  by (simp add: fun_eq_iff wp_def exec_simps)

lemma wp_throw [wp_simps]: "wp (throw e) Q E = (\<lambda>s. E e)"
  by (simp add: fun_eq_iff wp_def exec_simps)

lemma wp_gets [wp_simps]: "wp (gets f) Q E = (\<lambda>s. Q (f s) s)"
  by (simp add: fun_eq_iff wp_def exec_simps)

lemma wp_modify [wp_simps]: "wp (modify g) Q E = (\<lambda>s. Q () (g s))"
  by (simp add: fun_eq_iff wp_def exec_simps)

lemma wp_bind [wp_simps]: "wp (bind m f) Q E s = wp m (\<lambda>x. wp (f x) Q E) E s"
  by (auto simp: wp_def bind_def split: sum.splits)

lemma wp_if [wp_simps]: "wp (if b then m else n) Q E s = (if b then wp m Q E s else wp n Q E s)"
  by simp

text \<open>The same judgement on a result, for definitions written with explicit results.\<close>

definition post :: "('a \<Rightarrow> 's \<Rightarrow> bool) \<Rightarrow> (flash_error \<Rightarrow> bool) \<Rightarrow> flash_error + ('a \<times> 's) \<Rightarrow> bool" where
  "post Q E r = (case r of Inl e \<Rightarrow> E e | Inr (x, s) \<Rightarrow> Q x s)"

lemma wp_post: "wp m Q E s = post Q E (m s)"
  by (simp add: wp_def post_def)

lemma post_simps:
  "post Q E (Inl e) = E e"
  "post Q E (Inr (x, s)) = Q x s"
  "post Q E (if b then r else r') = (if b then post Q E r else post Q E r')"
  "post Q E (case p of (y, z) \<Rightarrow> f y z) = (case p of (y, z) \<Rightarrow> post Q E (f y z))"
  "post Q E (case m of None \<Rightarrow> r | Some y \<Rightarrow> g y) =
     (case m of None \<Rightarrow> post Q E r | Some y \<Rightarrow> post Q E (g y))"
  "post Q E (case r0 of Inl e \<Rightarrow> Inl e | Inr (a, t) \<Rightarrow> h a t) = post (\<lambda>a t. post Q E (h a t)) E r0"
  by (simp_all add: post_def split: prod.split option.split sum.split)

lemma wp_mono:
  assumes "wp m P F s" and "\<And>x t. P x t \<Longrightarrow> Q x t" and "\<And>e. F e \<Longrightarrow> E e"
  shows "wp m Q E s"
  using assms by (auto simp: wp_def split: sum.splits)

lemma wp_InrD: "wp m Q E s \<Longrightarrow> m s = Inr (x, t) \<Longrightarrow> Q x t"
  by (simp add: wp_def)

lemma wp_InlD: "wp m Q E s \<Longrightarrow> m s = Inl e \<Longrightarrow> E e"
  by (simp add: wp_def)

section \<open>Characters and strings\<close>

type_synonym char32 = nat
type_synonym ustring = "nat list"

definition u :: "string \<Rightarrow> ustring" where
  "u s = map of_char s"

lemma u_simps [simp]: "u [] = []" "u (c # cs) = of_char c # u cs"
  by (simp_all add: u_def)

lemma length_u [simp]: "length (u s) = length s"
  by (simp add: u_def)

lemma u_append [simp]: "u (s @ t) = u s @ u t"
  by (simp add: u_def)

lemma u_inject [simp]: "u s = u t \<longleftrightarrow> s = t"
  by (simp add: u_def inj_map_eq_map inj_on_def)

text \<open>A C string ends at its first null character.\<close>

definition cstr :: "ustring \<Rightarrow> ustring" where
  "cstr v = takeWhile (\<lambda>c. c \<noteq> 0) v"

lemma cstr_id [simp]: "0 \<notin> set v \<Longrightarrow> cstr v = v"
  by (metis (mono_tags, lifting) cstr_def takeWhile_eq_all_conv)

text \<open>The members of \<open>enum Character\<close> the scanners switch on.\<close>

abbreviation (input) "NullCharacter \<equiv> (0x00 :: nat)"
abbreviation (input) "Ampersand_char \<equiv> (0x26 :: nat)"
abbreviation (input) "Asterisk \<equiv> (0x2A :: nat)"
abbreviation (input) "At_char \<equiv> (0x40 :: nat)"
abbreviation (input) "Backslash \<equiv> (0x5C :: nat)"
abbreviation (input) "Pipe_char \<equiv> (0x7C :: nat)"
abbreviation (input) "CarriageReturn \<equiv> (0x0D :: nat)"
abbreviation (input) "CloseBrace_char \<equiv> (0x7D :: nat)"
abbreviation (input) "CloseBracket_char \<equiv> (0x5D :: nat)"
abbreviation (input) "CloseParen_char \<equiv> (0x29 :: nat)"
abbreviation (input) "Colon_char \<equiv> (0x3A :: nat)"
abbreviation (input) "Comma_char \<equiv> (0x2C :: nat)"
abbreviation (input) "Dot \<equiv> (0x2E :: nat)"
abbreviation (input) "DoubleQuote \<equiv> (0x22 :: nat)"
abbreviation (input) "Equal_char \<equiv> (0x3D :: nat)"
abbreviation (input) "Exclamation_char \<equiv> (0x21 :: nat)"
abbreviation (input) "Dollar_char \<equiv> (0x24 :: nat)"
abbreviation (input) "Hash_char \<equiv> (0x23 :: nat)"
abbreviation (input) "HorizontalTab \<equiv> (0x09 :: nat)"
abbreviation (input) "NewLine \<equiv> (0x0A :: nat)"
abbreviation (input) "Minus \<equiv> (0x2D :: nat)"
abbreviation (input) "OpenBrace_char \<equiv> (0x7B :: nat)"
abbreviation (input) "OpenBracket_char \<equiv> (0x5B :: nat)"
abbreviation (input) "OpenParen_char \<equiv> (0x28 :: nat)"
abbreviation (input) "Percent \<equiv> (0x25 :: nat)"
abbreviation (input) "Plus \<equiv> (0x2B :: nat)"
abbreviation (input) "Question \<equiv> (0x3F :: nat)"
abbreviation (input) "Semicolon \<equiv> (0x3B :: nat)"
abbreviation (input) "SingleQuote \<equiv> (0x27 :: nat)"
abbreviation (input) "Slash \<equiv> (0x2F :: nat)"
abbreviation (input) "Space \<equiv> (0x20 :: nat)"
abbreviation (input) "Tilde \<equiv> (0x7E :: nat)"
abbreviation (input) "Underscore \<equiv> (0x5F :: nat)"
abbreviation (input) "ByteOrderMark \<equiv> (0xFEFF :: nat)"
abbreviation (input) "End_char \<equiv> (0xFFFF :: nat)"
abbreviation (input) "Digit_0 \<equiv> (0x30 :: nat)"
abbreviation (input) "Digit_9 \<equiv> (0x39 :: nat)"
abbreviation (input) "Lower_a \<equiv> (0x61 :: nat)"
abbreviation (input) "Lower_f \<equiv> (0x66 :: nat)"
abbreviation (input) "Lower_z \<equiv> (0x7A :: nat)"
abbreviation (input) "Upper_A \<equiv> (0x41 :: nat)"
abbreviation (input) "Upper_F \<equiv> (0x46 :: nat)"
abbreviation (input) "Upper_Z \<equiv> (0x5A :: nat)"

section \<open>Unsigned subtraction\<close>

text \<open>Subtraction of two \<open>std::size_t\<close> values (both below \<open>2 ^ 64\<close>) wraps around below zero.\<close>

definition sub64 :: "nat \<Rightarrow> nat \<Rightarrow> nat" where
  "sub64 a b = (if b \<le> a then a - b else 2 ^ 64 + a - b)"

lemma sub64_le [simp]: "b \<le> a \<Longrightarrow> sub64 a b = a - b"
  by (simp add: sub64_def)

text \<open>A 32-bit word below \<open>2 ^ 31\<close> is the same number as an \<open>int\<close>.\<close>

lemma sint_small:
  fixes d :: "32 word"
  assumes "unat d < 2 ^ 31"
  shows "sint d = int (unat d)"
proof -
  have d: "int (unat d) = uint d" by simp
  have "uint d < 2 ^ 31" using assms by (metis of_nat_less_iff of_nat_numeral of_nat_power d)
  moreover have "- (2 ^ 31) \<le> uint d" by (rule order_trans [of _ 0]) simp_all
  ultimately show ?thesis unfolding d sint_uint by (intro signed_take_bit_int_eq_self) simp_all
qed

section \<open>Locations\<close>

record Location =
  loc_line :: nat
  loc_column :: nat
  loc_length :: nat
  loc_end_of_source :: bool

section \<open>Loops over lists\<close>

primrec for_each :: "('a \<Rightarrow> ('s, unit) exec) \<Rightarrow> 'a list \<Rightarrow> ('s, unit) exec" where
  "for_each f [] = ret ()"
| "for_each f (x # xs) = bind (f x) (\<lambda>_. for_each f xs)"

text \<open>A loop whose body says whether to go on.\<close>

primrec for_each_while :: "('a \<Rightarrow> ('s, bool) exec) \<Rightarrow> 'a list \<Rightarrow> ('s, unit) exec" where
  "for_each_while f [] = ret ()"
| "for_each_while f (x # xs) = bind (f x) (\<lambda>more. if more then for_each_while f xs else ret ())"

section \<open>Generic list lemmas\<close>

lemma drop_Cons_nth: "i < length xs \<Longrightarrow> drop i xs = xs ! i # drop (Suc i) xs"
  by (simp add: Cons_nth_drop_Suc)

lemma drop_Suc_Cons_eq: "drop n xs = y # ys \<Longrightarrow> drop (Suc n) xs = ys"
  by (metis drop0 drop_Suc drop_Suc_Cons tl_drop list.sel(3))

lemma take_drop_append: "i \<le> j \<Longrightarrow> take i xs @ take (j - i) (drop i xs) = take j xs"
  by (metis le_add_diff_inverse take_add)

section \<open>Saved cursors\<close>

text \<open>
  The contract of a save/revert pair over a stack of saved cursors, which both scanners and
  the text writer implement: \<open>save\<close> pushes the cursor and leaves it, \<open>revert\<close> pops the top
  of the stack back into the cursor.
\<close>

locale saved_cursor =
  fixes save :: "'s \<Rightarrow> 's" and revert :: "'s \<Rightarrow> 's"
    and cursor :: "'s \<Rightarrow> 'c" and saved :: "'s \<Rightarrow> 'c list"
  assumes cursor_save: "cursor (save s) = cursor s"
    and saved_save: "saved (save s) = cursor s # saved s"
    and cursor_revert: "saved s = c # cs \<Longrightarrow> cursor (revert s) = c"
    and saved_revert: "saved s = c # cs \<Longrightarrow> saved (revert s) = cs"
begin

lemma revert_save: "cursor (revert (save s)) = cursor s" "saved (revert (save s)) = saved s"
  using saved_save cursor_revert saved_revert by blast+

text \<open>Whatever runs between the two, as long as it leaves the stack as it found it.\<close>

lemma revert_after:
  assumes "saved t = saved (save s)"
  shows "cursor (revert t) = cursor s" and "saved (revert t) = saved s"
  using assms saved_save cursor_revert saved_revert by metis+

end

end
