(* ===== verification/MemoryPool.thy ===== *)
theory MemoryPool
  imports Prelude "HOL-Library.Multiset"
begin

text \<open>
  The block allocator of \<open>src/lib/memory_pool.cpp\<close>: a pool of equally sized blocks, a stack of
  the free ones, and tickets, each a bump pointer into the block it holds.  Addresses and sizes
  are natural numbers: every size the program passes is a \<open>sizeof\<close>, far below the range of
  \<open>std::size_t\<close>.  The stack \<open>free_blocks\<close> is a list with its top first; \<open>top\<close> and \<open>pop\<close> of an
  empty \<open>std::stack\<close> are undefined and end in an error.

  The second half runs the pool for many clients at once: the steps of the machine are the
  public operations, and the invariant gives that the memory handed to live tickets never
  overlaps.
\<close>

section \<open>The pool and its operations\<close>

record MemoryPoolTicket =
  t_offset :: nat
  t_block :: nat

record MemoryPool =
  block_size :: nat
  total_size :: nat
  start_address_of_pool :: nat
  free_blocks :: "nat list"

definition start_address_of_block :: "MemoryPool \<Rightarrow> nat \<Rightarrow> nat" where
  "start_address_of_block p x = x * block_size p"

definition sizeof_MemoryPoolTicket :: nat where
  "sizeof_MemoryPoolTicket = 16"

definition Reset :: "(MemoryPool, unit) exec" where
  "Reset p =
     (if block_size p = 0 then Inl (Undefined_behaviour ''division by zero'')
      else Inr ((), p\<lparr>free_blocks := rev [0..<total_size p div block_size p] @ free_blocks p\<rparr>))"

definition MemoryPool_new :: "nat \<Rightarrow> nat \<Rightarrow> nat \<Rightarrow> flash_error + MemoryPool" where
  "MemoryPool_new tot blk address =
     map_sum id snd (Reset \<lparr>block_size = blk, total_size = tot,
       start_address_of_pool = address, free_blocks = []\<rparr>)"

definition AllocateBlock :: "(MemoryPool, nat) exec" where
  "AllocateBlock p =
     (case free_blocks p of
        [] \<Rightarrow> Inl (Undefined_behaviour ''top of an empty stack'')
      | b # bs \<Rightarrow> Inr (b, p\<lparr>free_blocks := bs\<rparr>))"

definition TakeTicket :: "(MemoryPool, MemoryPoolTicket) exec" where
  "TakeTicket =
     bind AllocateBlock (\<lambda>b. ret \<lparr>t_offset = sizeof_MemoryPoolTicket, t_block = b\<rparr>)"

definition ReturnTicket :: "MemoryPoolTicket \<Rightarrow> MemoryPool \<Rightarrow> MemoryPool" where
  "ReturnTicket t p = p\<lparr>free_blocks := t_block t # free_blocks p\<rparr>"

definition current_address :: "MemoryPool \<Rightarrow> MemoryPoolTicket \<Rightarrow> nat" where
  "current_address p t =
     start_address_of_pool p + start_address_of_block p (t_block t) + t_offset t"

definition padding_of :: "nat \<Rightarrow> MemoryPool \<Rightarrow> MemoryPoolTicket \<Rightarrow> nat" where
  "padding_of alignment p t =
     (if alignment \<noteq> 0 \<and> t_offset t mod alignment \<noteq> 0
      then (let multiplier = current_address p t div alignment + 1;
                aligned_address = multiplier * alignment
            in aligned_address - current_address p t)
      else 0)"

function Allocate :: "nat \<Rightarrow> nat \<Rightarrow> (MemoryPool \<times> MemoryPoolTicket, nat) exec" where
  "Allocate sz alignment (p, t) =
     (let padding = padding_of alignment p t
      in if t_offset t + padding + sz > block_size p
         then (case AllocateBlock p of
                 Inl e \<Rightarrow> Inl e
               | Inr (b, p') \<Rightarrow>
                   if b = 2 ^ 64 - 1
                   then Inl (Logic_error ''Out of memory: trying to allocate a block of memory for a request.'')
                   else Allocate sz alignment (p', t\<lparr>t_block := b, t_offset := 0\<rparr>))
         else Inr (current_address p t, (p, t\<lparr>t_offset := t_offset t + (padding + sz)\<rparr>)))"
  by pat_completeness auto
termination
  by (relation "measure (\<lambda>(sz, al, (p, t)). length (free_blocks p))")
     (auto simp: AllocateBlock_def split: list.splits)

declare Allocate.simps [simp del]

section \<open>The free-block interface\<close>

text \<open>
  What the tickets rely on: acquiring gives a block that was free and is not any more, releasing
  gives it back.  A client that holds a set of blocks disjoint from the free ones keeps it so.
\<close>

locale block_store =
  fixes acquire :: "'p \<Rightarrow> flash_error + (nat \<times> 'p)" and release :: "nat \<Rightarrow> 'p \<Rightarrow> 'p"
    and free :: "'p \<Rightarrow> nat set" and invar :: "'p \<Rightarrow> bool"
  assumes acquire_free: "invar p \<Longrightarrow> acquire p = Inr (b, p') \<Longrightarrow>
      invar p' \<and> b \<in> free p \<and> free p' = free p - {b}"
    and release_free: "invar p \<Longrightarrow> b \<notin> free p \<Longrightarrow> invar (release b p) \<and> free (release b p) = insert b (free p)"
    and acquire_total: "invar p \<Longrightarrow> free p \<noteq> {} \<Longrightarrow> \<exists>b p'. acquire p = Inr (b, p')"
begin

lemma acquire_fresh:
  assumes "invar p" and "held \<inter> free p = {}" and "acquire p = Inr (b, p')"
  shows "b \<notin> held" and "insert b held \<inter> free p' = {}" and "invar p'"
  using acquire_free [OF assms(1,3)] assms(2) by auto

lemma release_held:
  assumes "invar p" and "held \<inter> free p = {}" and "b \<in> held"
  shows "(held - {b}) \<inter> free (release b p) = {}" and "invar (release b p)"
  using release_free [OF assms(1)] assms(2,3) by auto

lemma acquire_release:
  assumes "invar p" and "acquire p = Inr (b, p')"
  shows "free (release b p') = free p"
  using acquire_free [OF assms] release_free [of p' b] by auto

end

definition release_block :: "nat \<Rightarrow> MemoryPool \<Rightarrow> MemoryPool" where
  "release_block b p = p\<lparr>free_blocks := b # free_blocks p\<rparr>"

interpretation pool: block_store AllocateBlock release_block
  "\<lambda>p. set (free_blocks p)" "\<lambda>p. distinct (free_blocks p)"
  by unfold_locales
     (auto simp: AllocateBlock_def release_block_def split: list.splits)

lemma ReturnTicket_release: "ReturnTicket t p = release_block (t_block t) p"
  by (simp add: ReturnTicket_def release_block_def)

lemma AllocateBlock_frame:
  assumes "AllocateBlock p = Inr (b, p')"
  shows "block_size p' = block_size p" "total_size p' = total_size p"
    "start_address_of_pool p' = start_address_of_pool p" "free_blocks p = b # free_blocks p'"
  using assms by (auto simp: AllocateBlock_def split: list.splits)

section \<open>One allocation\<close>

text \<open>
  An allocation that returns either fits behind the ticket's offset, or moves the ticket to the
  start of one fresh block; more than one block is never taken.
\<close>

lemma Allocate_fits:
  "t_offset t + padding_of al p t + sz \<le> block_size p \<Longrightarrow>
   Allocate sz al (p, t) =
     Inr (current_address p t, (p, t\<lparr>t_offset := t_offset t + (padding_of al p t + sz)\<rparr>))"
  by (simp add: Allocate.simps Let_def)

lemma padding_of_0 [simp]: "t_offset t = 0 \<Longrightarrow> padding_of al p t = 0"
  by (simp add: padding_of_def)

lemma Allocate_too_big:
  assumes "block_size p < sz"
  shows "\<exists>e. Allocate sz al (p, t) = Inl e"
  using assms
proof (induction "length (free_blocks p)" arbitrary: p t)
  case 0
  then show ?case by (simp add: Allocate.simps [of sz al p t] AllocateBlock_def Let_def)
next
  case (Suc n)
  then obtain b bs where "free_blocks p = b # bs" by (cases "free_blocks p") auto
  with Suc show ?case
    by (auto simp: Allocate.simps [of sz al p t] AllocateBlock_def Let_def)
qed

lemma Allocate_moves:
  assumes "block_size p < t_offset t + padding_of al p t + sz" and "sz \<le> block_size p"
    and "free_blocks p = b # bs" and "b \<noteq> 2 ^ 64 - 1"
  shows "Allocate sz al (p, t) =
    Inr (start_address_of_pool p + start_address_of_block p b,
         (p\<lparr>free_blocks := bs\<rparr>, t\<lparr>t_block := b, t_offset := sz\<rparr>))"
proof -
  let ?p = "p\<lparr>free_blocks := bs\<rparr>" and ?t = "t\<lparr>t_block := b, t_offset := 0\<rparr>"
  have "Allocate sz al (p, t) = Allocate sz al (?p, ?t)"
    using assms by (simp add: Allocate.simps [of sz al p t] AllocateBlock_def Let_def)
  also have "\<dots> = Inr (current_address ?p ?t, (?p, ?t\<lparr>t_offset := sz\<rparr>))"
    using assms(2) by (subst Allocate_fits) simp_all
  finally show ?thesis by (simp add: current_address_def start_address_of_block_def)
qed

lemma Allocate_cases:
  assumes "Allocate sz al (p, t) = Inr (a, (p', t'))"
  obtains (here) "t_offset t + padding_of al p t + sz \<le> block_size p" "p' = p"
      "a = current_address p t" "t' = t\<lparr>t_offset := t_offset t + (padding_of al p t + sz)\<rparr>"
  | (fresh) b bs where "sz \<le> block_size p" "free_blocks p = b # bs"
      "p' = p\<lparr>free_blocks := bs\<rparr>"
      "a = start_address_of_pool p + start_address_of_block p b"
      "t' = t\<lparr>t_block := b, t_offset := sz\<rparr>"
proof (cases "t_offset t + padding_of al p t + sz \<le> block_size p")
  case True
  with assms show thesis by (intro here) (auto simp: Allocate_fits)
next
  case False
  from assms Allocate_too_big [of p sz al t] have le: "sz \<le> block_size p"
    by (metis Inl_Inr_False not_le)
  have "free_blocks p \<noteq> []"
    using assms False by (auto simp: Allocate.simps [of sz al p t] AllocateBlock_def Let_def)
  then obtain b bs where b: "free_blocks p = b # bs" by (cases "free_blocks p") auto
  have "b \<noteq> 2 ^ 64 - 1"
    using assms False b by (auto simp: Allocate.simps [of sz al p t] AllocateBlock_def Let_def)
  with False le b have "Allocate sz al (p, t) =
      Inr (start_address_of_pool p + start_address_of_block p b,
           (p\<lparr>free_blocks := bs\<rparr>, t\<lparr>t_block := b, t_offset := sz\<rparr>))"
    by (intro Allocate_moves) auto
  with assms b le show thesis by (intro fresh [of b bs]) auto
qed

section \<open>Many clients\<close>

text \<open>
  A lease is a live ticket with the blocks it has taken and the memory regions (address and size)
  it has handed out, the ticket's own header first.  A step is one public operation of the pool
  on behalf of some client.
\<close>

record lease =
  l_ticket :: MemoryPoolTicket
  l_blocks :: "nat list"
  l_regions :: "(nat \<times> nat) list"

type_synonym pool_state = "MemoryPool \<times> lease list"

definition block_base :: "MemoryPool \<Rightarrow> nat \<Rightarrow> nat" where
  "block_base p b = start_address_of_pool p + start_address_of_block p b"

definition lease_of_ticket :: "MemoryPool \<Rightarrow> MemoryPoolTicket \<Rightarrow> lease" where
  "lease_of_ticket p t = \<lparr>l_ticket = t, l_blocks = [t_block t],
     l_regions = [(block_base p (t_block t), sizeof_MemoryPoolTicket)]\<rparr>"

definition lease_allocated :: "lease \<Rightarrow> nat \<Rightarrow> nat \<Rightarrow> MemoryPoolTicket \<Rightarrow> lease" where
  "lease_allocated l a sz t = l\<lparr>l_ticket := t,
     l_blocks := (if t_block t = t_block (l_ticket l) then l_blocks l else t_block t # l_blocks l),
     l_regions := (a, sz) # l_regions l\<rparr>"

inductive pool_step :: "pool_state \<Rightarrow> pool_state \<Rightarrow> bool" where
  take_ticket: "TakeTicket p = Inr (t, p') \<Longrightarrow>
     pool_step (p, ls) (p', lease_of_ticket p t # ls)"
| allocate: "i < length ls \<Longrightarrow> Allocate sz al (p, l_ticket (ls ! i)) = Inr (a, (p', t')) \<Longrightarrow>
     pool_step (p, ls) (p', ls[i := lease_allocated (ls ! i) a sz t'])"
| return_ticket: "pool_step (p, ls @ l # ls') (ReturnTicket (l_ticket l) p, ls @ ls')"

inductive pool_reachable :: "nat \<Rightarrow> nat \<Rightarrow> nat \<Rightarrow> pool_state \<Rightarrow> bool" for tot blk address where
  start: "MemoryPool_new tot blk address = Inr p \<Longrightarrow> pool_reachable tot blk address (p, [])"
| step: "pool_reachable tot blk address st \<Longrightarrow> pool_step st st' \<Longrightarrow>
     pool_reachable tot blk address st'"

definition disjoint_regions :: "nat \<times> nat \<Rightarrow> nat \<times> nat \<Rightarrow> bool" where
  "disjoint_regions r r' \<longleftrightarrow> fst r + snd r \<le> fst r' \<or> fst r' + snd r' \<le> fst r"

definition in_block :: "MemoryPool \<Rightarrow> nat \<Rightarrow> nat \<Rightarrow> nat \<times> nat \<Rightarrow> bool" where
  "in_block p b limit r \<longleftrightarrow>
     block_base p b \<le> fst r \<and> fst r + snd r \<le> block_base p b + limit \<and> limit \<le> block_size p"

definition block_limit :: "MemoryPool \<Rightarrow> lease \<Rightarrow> nat \<Rightarrow> nat" where
  "block_limit p l b = (if b = t_block (l_ticket l) then t_offset (l_ticket l) else block_size p)"

definition lease_ok :: "MemoryPool \<Rightarrow> lease \<Rightarrow> bool" where
  "lease_ok p l \<longleftrightarrow>
     t_block (l_ticket l) \<in> set (l_blocks l) \<and> t_offset (l_ticket l) \<le> block_size p \<and>
     (\<forall>r \<in> set (l_regions l). \<exists>b \<in> set (l_blocks l). in_block p b (block_limit p l b) r) \<and>
     sorted_wrt disjoint_regions (l_regions l)"

definition pool_inv :: "nat \<Rightarrow> nat \<Rightarrow> nat \<Rightarrow> pool_state \<Rightarrow> bool" where
  "pool_inv tot blk address st \<longleftrightarrow>
     (case st of (p, ls) \<Rightarrow>
        total_size p = tot \<and> block_size p = blk \<and> start_address_of_pool p = address \<and>
        distinct (free_blocks p @ concat (map l_blocks ls)) \<and>
        (\<forall>b \<in> set (free_blocks p @ concat (map l_blocks ls)). b < tot div blk) \<and>
        (\<forall>l \<in> set ls. lease_ok p l))"

lemma disjoint_regions_sym: "disjoint_regions r r' = disjoint_regions r' r"
  by (auto simp: disjoint_regions_def)

lemma in_different_blocks_disjoint:
  assumes "in_block p b n r" and "in_block p c m r'" and "b \<noteq> c"
  shows "disjoint_regions r r'"
proof -
  have *: "disjoint_regions x y"
    if "b < c" "in_block p b n x" "in_block p c m y" for b c n m x y
  proof -
    from that(1) have "Suc b * block_size p \<le> c * block_size p" by (intro mult_le_mono) auto
    with that show ?thesis
      by (auto simp: in_block_def disjoint_regions_def block_base_def start_address_of_block_def)
  qed
  from assms * show ?thesis by (metis disjoint_regions_sym nat_neq_iff)
qed

lemma lease_ok_frame:
  "block_size p' = block_size p \<Longrightarrow> start_address_of_pool p' = start_address_of_pool p \<Longrightarrow>
   lease_ok p' l = lease_ok p l"
  by (simp add: lease_ok_def in_block_def block_limit_def block_base_def start_address_of_block_def)

lemma lease_ok_new:
  "sizeof_MemoryPoolTicket \<le> block_size p \<Longrightarrow> t_offset t = sizeof_MemoryPoolTicket \<Longrightarrow>
   lease_ok p (lease_of_ticket p t)"
  by (simp add: lease_ok_def lease_of_ticket_def in_block_def block_limit_def)

lemma in_block_mono: "in_block p b n r \<Longrightarrow> n \<le> m \<Longrightarrow> m \<le> block_size p \<Longrightarrow> in_block p b m r"
  by (auto simp: in_block_def)

lemma lease_ok_here:
  assumes ok: "lease_ok p l" and t: "t = l_ticket l"
    and fits: "t_offset t + padding_of al p t + sz \<le> block_size p"
  shows "lease_ok p (lease_allocated l (current_address p t) sz
           (t\<lparr>t_offset := t_offset t + (padding_of al p t + sz)\<rparr>))"
proof -
  let ?t = "t\<lparr>t_offset := t_offset t + (padding_of al p t + sz)\<rparr>"
  let ?l = "lease_allocated l (current_address p t) sz ?t"
  have new: "in_block p (t_block t) (block_limit p ?l (t_block t)) (current_address p t, sz)"
    using fits by (simp add: in_block_def block_limit_def lease_allocated_def current_address_def block_base_def)
  have old: "in_block p b (block_limit p ?l b) r" if "in_block p b (block_limit p l b) r" for b r
    using that fits t by (auto simp: block_limit_def lease_allocated_def split: if_splits intro: in_block_mono)
  have disj: "disjoint_regions (current_address p t, sz) r"
    if "in_block p b (block_limit p l b) r" for b r
  proof (cases "b = t_block t")
    case True
    with that t show ?thesis
      by (simp add: in_block_def block_limit_def disjoint_regions_def current_address_def block_base_def)
  next
    case False
    with in_different_blocks_disjoint [OF new that] show ?thesis by simp
  qed
  have "l_blocks ?l = l_blocks l" "l_ticket ?l = ?t"
       "l_regions ?l = (current_address p t, sz) # l_regions l"
    using t by (simp_all add: lease_allocated_def)
  then show ?thesis
    using ok t fits new old disj by (auto simp: lease_ok_def) blast+
qed

lemma lease_ok_fresh:
  assumes ok: "lease_ok p l" and sz: "sz \<le> block_size p" and b: "b \<notin> set (l_blocks l)"
  shows "lease_ok p (lease_allocated l (block_base p b) sz ((l_ticket l)\<lparr>t_block := b, t_offset := sz\<rparr>))"
proof -
  let ?t = "(l_ticket l)\<lparr>t_block := b, t_offset := sz\<rparr>"
  let ?l = "lease_allocated l (block_base p b) sz ?t"
  from ok b have neq: "t_block (l_ticket l) \<noteq> b" by (auto simp: lease_ok_def)
  then have l: "l_blocks ?l = b # l_blocks l" "l_ticket ?l = ?t"
      "l_regions ?l = (block_base p b, sz) # l_regions l"
    by (simp_all add: lease_allocated_def)
  have new: "in_block p b (block_limit p ?l b) (block_base p b, sz)"
    using sz l by (simp add: in_block_def block_limit_def)
  have old: "in_block p c (block_limit p ?l c) r"
    if "in_block p c (block_limit p l c) r" "c \<in> set (l_blocks l)" for c r
    using that b l ok by (auto simp: block_limit_def lease_ok_def split: if_splits intro: in_block_mono)
  have disj: "disjoint_regions (block_base p b, sz) r"
    if "in_block p c (block_limit p l c) r" "c \<in> set (l_blocks l)" for c r
    using in_different_blocks_disjoint [OF new that(1)] that(2) b by blast
  from ok sz new old disj show ?thesis
    by (auto simp: lease_ok_def l) blast+
qed

text \<open>Every step keeps the invariant, one lemma per kind of step.\<close>

lemma pool_inv_take:
  assumes inv: "pool_inv tot blk address (p, ls)" and blk: "sizeof_MemoryPoolTicket \<le> blk"
    and take: "TakeTicket p = Inr (t, p')"
  shows "pool_inv tot blk address (p', lease_of_ticket p t # ls)"
proof -
  from take obtain b where b: "AllocateBlock p = Inr (b, p')"
      and t: "t = \<lparr>t_offset = sizeof_MemoryPoolTicket, t_block = b\<rparr>"
    by (auto simp: TakeTicket_def exec_simps elim!: bind_InrE)
  note f = AllocateBlock_frame [OF b]
  from inv blk t have "lease_ok p (lease_of_ticket p t)"
    by (intro lease_ok_new) (auto simp: pool_inv_def)
  then have "lease_ok p' l" if "l \<in> set (lease_of_ticket p t # ls)" for l
    using inv that f by (auto simp: pool_inv_def lease_ok_frame [of p' p])
  moreover have "l_blocks (lease_of_ticket p t) = [b]" by (simp add: lease_of_ticket_def t)
  moreover have "distinct (free_blocks p)"
    and "set (concat (map l_blocks ls)) \<inter> set (free_blocks p) = {}"
    using inv by (auto simp: pool_inv_def)
  note pool.acquire_fresh [OF this b]
  ultimately show ?thesis
    using inv f by (auto simp: pool_inv_def)
qed

lemma concat_map_update:
  assumes "i < length xs"
  shows "concat (map f (xs[i := x])) =
    concat (map f (take i xs)) @ f x @ concat (map f (drop (Suc i) xs))"
  using assms by (simp add: upd_conv_take_nth_drop)

text \<open>Replacing one lease keeps the invariant when the blocks are only moved around.\<close>

lemma pool_inv_update:
  assumes inv: "pool_inv tot blk address (p, ls)" and i: "i < length ls" and ok: "lease_ok p l"
    and frame: "block_size p' = block_size p" "total_size p' = total_size p"
      "start_address_of_pool p' = start_address_of_pool p"
    and blocks: "mset (free_blocks p') + mset (l_blocks l) =
      mset (free_blocks p) + mset (l_blocks (ls ! i))"
  shows "pool_inv tot blk address (p', ls[i := l])"
proof -
  let ?held = "\<lambda>ls. concat (map l_blocks ls)"
  have "mset (?held (ls[i := l])) =
      mset (?held (take i ls)) + mset (l_blocks l) + mset (?held (drop (Suc i) ls))"
    using i by (simp add: concat_map_update)
  moreover have "mset (?held ls) =
      mset (?held (take i ls)) + mset (l_blocks (ls ! i)) + mset (?held (drop (Suc i) ls))"
    using concat_map_update [OF i, of l_blocks "ls ! i"] by simp
  ultimately have "mset (free_blocks p' @ ?held (ls[i := l])) = mset (free_blocks p @ ?held ls)"
    using blocks by (simp add: ac_simps)
  then have "distinct (free_blocks p' @ ?held (ls[i := l])) = distinct (free_blocks p @ ?held ls)"
    and "set (free_blocks p' @ ?held (ls[i := l])) = set (free_blocks p @ ?held ls)"
    by (rule mset_eq_imp_distinct_iff, rule mset_eq_setD)
  moreover have "\<forall>k \<in> set (ls[i := l]). lease_ok p' k"
    using inv ok frame set_update_subset_insert [of ls i l]
    by (auto simp: pool_inv_def lease_ok_frame [of p' p])
  ultimately show ?thesis
    using inv frame unfolding pool_inv_def prod.case by metis
qed

lemma pool_inv_allocate:
  assumes inv: "pool_inv tot blk address (p, ls)" and i: "i < length ls"
    and alloc: "Allocate sz al (p, l_ticket (ls ! i)) = Inr (a, (p', t'))"
  shows "pool_inv tot blk address (p', ls[i := lease_allocated (ls ! i) a sz t'])"
  using alloc
proof (cases rule: Allocate_cases)
  case here
  from inv i have "lease_ok p (ls ! i)" by (simp add: pool_inv_def)
  from lease_ok_here [OF this refl here(1)] here
  show ?thesis by (intro pool_inv_update [OF inv i]) (simp_all add: lease_allocated_def)
next
  case (fresh b bs)
  from inv i have ok: "lease_ok p (ls ! i)" by (simp add: pool_inv_def)
  from inv i fresh(2) have b: "b \<notin> set (l_blocks (ls ! i))"
    by (auto simp: pool_inv_def)
  with ok have "t_block (l_ticket (ls ! i)) \<noteq> b" by (auto simp: lease_ok_def)
  with lease_ok_fresh [OF ok fresh(1) b] fresh show ?thesis
    by (intro pool_inv_update [OF inv i]) (simp_all add: lease_allocated_def block_base_def)
qed

lemma pool_inv_return:
  assumes inv: "pool_inv tot blk address (p, ls @ l # ls')"
  shows "pool_inv tot blk address (ReturnTicket (l_ticket l) p, ls @ ls')"
proof -
  from inv have "t_block (l_ticket l) \<in> set (l_blocks l)" by (simp add: pool_inv_def lease_ok_def)
  with inv show ?thesis
    by (auto simp: pool_inv_def ReturnTicket_def lease_ok_frame [of "p\<lparr>free_blocks := _\<rparr>" p])
qed

lemma pool_inv_start:
  assumes "MemoryPool_new tot blk address = Inr p"
  shows "pool_inv tot blk address (p, [])"
  using assms by (auto simp: MemoryPool_new_def Reset_def pool_inv_def split: if_splits)

lemma pool_step_inv:
  assumes "pool_step st st'" and "sizeof_MemoryPoolTicket \<le> blk" and "pool_inv tot blk address st"
  shows "pool_inv tot blk address st'"
  using assms by (induction rule: pool_step.induct)
    (auto intro: pool_inv_take pool_inv_allocate pool_inv_return)

lemma pool_reachable_inv:
  "pool_reachable tot blk address st \<Longrightarrow> sizeof_MemoryPoolTicket \<le> blk \<Longrightarrow> pool_inv tot blk address st"
  by (induction rule: pool_reachable.induct) (auto intro: pool_inv_start pool_step_inv)

text \<open>The invariant gives disjointness across leases too.\<close>

lemma pool_inv_region_block:
  assumes "pool_inv tot blk address (p, ls)" and "l \<in> set ls" and "r \<in> set (l_regions l)"
  obtains b where "b \<in> set (l_blocks l)" "in_block p b (block_limit p l b) r"
    "b < total_size p div block_size p"
proof -
  from assms have "lease_ok p l" by (simp add: pool_inv_def)
  with assms(3) obtain b where b: "b \<in> set (l_blocks l)" "in_block p b (block_limit p l b) r"
    by (auto simp: lease_ok_def)
  moreover from assms b(1) have "b < total_size p div block_size p" by (auto simp: pool_inv_def)
  ultimately show thesis by (rule that)
qed

lemma pool_inv_tail: "pool_inv tot blk address (p, l # ls) \<Longrightarrow> pool_inv tot blk address (p, ls)"
  by (simp add: pool_inv_def) blast

lemma pool_inv_regions:
  assumes "pool_inv tot blk address (p, ls)"
  shows "sorted_wrt disjoint_regions (concat (map l_regions ls))"
  using assms
proof (induction ls)
  case (Cons l ls)
  then have IH: "sorted_wrt disjoint_regions (concat (map l_regions ls))"
    using pool_inv_tail by blast
  have "disjoint_regions r r'"
    if l': "l' \<in> set ls" and r: "r \<in> set (l_regions l)" and r': "r' \<in> set (l_regions l')" for l' r r'
  proof -
    obtain b c where "b \<in> set (l_blocks l)" "c \<in> set (l_blocks l')"
      and "in_block p b (block_limit p l b) r" "in_block p c (block_limit p l' c) r'"
      using pool_inv_region_block [OF Cons.prems _ r] pool_inv_region_block [OF Cons.prems _ r'] l'
      by (metis list.set_intros)
    moreover from this Cons.prems l' have "b \<noteq> c" by (auto simp: pool_inv_def)
    ultimately show ?thesis using in_different_blocks_disjoint by blast
  qed
  with Cons.prems IH show ?case by (auto simp: sorted_wrt_append pool_inv_def lease_ok_def)
qed simp

lemma in_block_in_pool:
  assumes "in_block p b n r" and "b < total_size p div block_size p"
  shows "start_address_of_pool p \<le> fst r \<and> fst r + snd r \<le> start_address_of_pool p + total_size p"
proof -
  from assms(2) have "Suc b * block_size p \<le> (total_size p div block_size p) * block_size p"
    by (intro mult_le_mono) auto
  also have "\<dots> \<le> total_size p" by simp
  finally show ?thesis
    using assms(1) by (auto simp: in_block_def block_base_def start_address_of_block_def)
qed

lemma pool_inv_in_pool:
  assumes "pool_inv tot blk address (p, ls)" and "r \<in> set (concat (map l_regions ls))"
  shows "address \<le> fst r \<and> fst r + snd r \<le> address + tot"
proof -
  from assms(2) obtain l where "l \<in> set ls" "r \<in> set (l_regions l)" by auto
  then obtain b where "in_block p b (block_limit p l b) r" "b < total_size p div block_size p"
    using pool_inv_region_block [OF assms(1)] by metis
  with assms(1) in_block_in_pool [of p b _ r] show ?thesis by (auto simp: pool_inv_def)
qed

section \<open>Properties\<close>


lemma pool_example:
  "pool_reachable 128 64 1000
     (\<lparr>block_size = 64, total_size = 128, start_address_of_pool = 1000, free_blocks = [0]\<rparr>,
      [\<lparr>l_ticket = \<lparr>t_offset = 36, t_block = 1\<rparr>, l_blocks = [1],
        l_regions = [(1080, 20), (1064, 16)]\<rparr>])"
proof -
  let ?p = "\<lambda>fr. \<lparr>block_size = 64, total_size = 128, start_address_of_pool = 1000, free_blocks = fr\<rparr>"
  let ?l = "lease_of_ticket (?p [1, 0]) \<lparr>t_offset = 16, t_block = 1\<rparr>"
  have up: "rev [0..<2] = [1, 0 :: nat]" by (simp add: upt_rec)
  have "pool_reachable 128 64 1000 (?p [1, 0], [])"
    by (rule pool_reachable.start) (simp add: MemoryPool_new_def Reset_def up)
  then have "pool_reachable 128 64 1000 (?p [0], [?l])"
    by (rule pool_reachable.step)
       (auto intro!: pool_step.take_ticket simp: TakeTicket_def AllocateBlock_def bind_def ret_def
          sizeof_MemoryPoolTicket_def)
  moreover have "Allocate 20 4 (?p [0], l_ticket ([?l] ! 0)) =
      Inr (1080, (?p [0], \<lparr>t_offset = 36, t_block = 1\<rparr>))"
    by (simp add: lease_of_ticket_def Allocate.simps padding_of_def current_address_def
        start_address_of_block_def Let_def)
  ultimately have "pool_reachable 128 64 1000
      (?p [0], [?l] [0 := lease_allocated ([?l] ! 0) 1080 20 \<lparr>t_offset = 36, t_block = 1\<rparr>])"
    by (intro pool_reachable.step [OF _ pool_step.allocate]) auto
  then show ?thesis
    by (simp add: lease_of_ticket_def lease_allocated_def block_base_def start_address_of_block_def
        sizeof_MemoryPoolTicket_def)
qed


text \<open>
  \<open>Allocate\<close> succeeds whenever it can: a request of at most a block returns as long as some
  block is free, and then leaves the ticket inside a block; a request of more than a block never
  returns, whatever the ticket and the pool.
\<close>

theorem Allocate_returns_iff:
  assumes "free_blocks p \<noteq> []" and "\<forall>b \<in> set (free_blocks p). b < 2 ^ 64 - 1"
  shows "(\<exists>a p' t'. Allocate sz al (p, t) = Inr (a, (p', t')) \<and> t_offset t' \<le> block_size p) \<longleftrightarrow>
    sz \<le> block_size p"
proof
  assume "\<exists>a p' t'. Allocate sz al (p, t) = Inr (a, (p', t')) \<and> t_offset t' \<le> block_size p"
  then show "sz \<le> block_size p"
    using Allocate_too_big [of p sz al t] by (metis Inl_Inr_False not_le)
next
  assume sz: "sz \<le> block_size p"
  from assms obtain b bs where b: "free_blocks p = b # bs" "b \<noteq> 2 ^ 64 - 1"
    by (cases "free_blocks p") auto
  show "\<exists>a p' t'. Allocate sz al (p, t) = Inr (a, (p', t')) \<and> t_offset t' \<le> block_size p"
  proof (cases "t_offset t + padding_of al p t + sz \<le> block_size p")
    case True
    then show ?thesis by (auto simp: Allocate_fits)
  next
    case False
    with b sz show ?thesis using Allocate_moves [of p t al sz b bs] by auto
  qed
qed

theorem Allocate_returns_iff_witness:
  "(\<exists>a p' t'. Allocate 40 8 (\<lparr>block_size = 64, total_size = 128, start_address_of_pool = 1000,
       free_blocks = [0]\<rparr>, \<lparr>t_offset = 30, t_block = 1\<rparr>) = Inr (a, (p', t')) \<and> t_offset t' \<le> 64)"
  using Allocate_returns_iff [of "\<lparr>block_size = 64, total_size = 128, start_address_of_pool = 1000,
       free_blocks = [0]\<rparr>" 40 8 "\<lparr>t_offset = 30, t_block = 1\<rparr>"] by simp





end
