(* ===== verification/Diagnostics.thy ===== *)
theory Diagnostics
  imports Prelude
begin

text \<open>
  Diagnostics (\<open>src/program/diagnostic.h\<close>, \<open>diagnostic.cpp\<close> and the generated tables
  \<open>graphql_diagnostics.h\<close>/\<open>.cpp\<close>): the message templates of class \<open>D\<close>, a diagnostic message
  and its construction.  The text of a message is produced by \<open>boost::regex_replace\<close>, which is
  not part of the repository: it is the parameter \<open>rr\<close> of \<open>message\<close>, and a
  \<open>DiagnosticMessage\<close> keeps the template and the arguments the text is made of.
\<close>

section \<open>Templates\<close>

datatype (plugins only: code size) D =
    A_schema_definition_can_only_contain_query_mutation_and_subscription_fields
  | Cannot_add_an_output_type_to_an_input_location
  | Cannot_add_an_input_type_to_an_output_location
  | Cannot_annotate_with_a_type_that_recursively_references_the_directive_0
  | Cannot_select_fields_on_a_scalar_field_0
  | Directive_cannot_reference_itself
  | Duplicate_argument_0
  | Duplicate_field_0
  | Duplicate_fragment_0
  | Duplicate_type_0
  | Expected_0_but_got_1
  | Expected_0_but_instead_reached_the_end_of_document
  | Expected_at_least_a_field_inline_fragment_or_fragment_spread
  | Expected_directive_location_but_instead_reached_the_end_of_document
  | Expected_directive_location
  | Expected_enum_value_but_instead_got_0
  | Expected_field_definition
  | Expected_field_inline_fragment_or_fragment_spread
  | Expected_fragment_spread_or_inline_fragment
  | Expected_name_of_argument
  | Expected_name_of_interface
  | Expected_name_of_object
  | Expected_name_but_instead_got_0
  | Expected_object_field_name
  | Expected_operation_definition_or_fragment_definition
  | Expected_type_annotation_instead_got_0
  | Expected_type_definition
  | Expected_type_name_instead_got_0
  | Expected_value_instead_got_0
  | Field_0_does_not_exist_on_type_1
  | Fragment_0_is_not_defined
  | Interface_0_is_not_defined
  | Invalid_Unicode_escape_sequence
  | Missing_required_argument_0
  | Missing_required_field_0
  | Mutations_are_not_supported
  | No_query_root_operation_type_defined
  | Only_objects_are_allowed_as_members_in_a_union
  | Subscriptions_are_not_supported
  | The_directive_0_does_not_support_the_location_1
  | The_field_0_in_interface_1_is_not_implemented
  | The_object_0_does_not_implement_the_interface_1
  | The_object_0_does_not_match_the_object_1
  | The_type_0_is_not_an_object
  | The_type_0_is_not_member_of_the_union_1
  | The_value_0_is_not_assignable_to_type_1
  | Type_0_does_not_match_type_1_from_the_interface_2
  | Type_0_is_not_assignable_to_type_1
  | Type_0_is_not_defined
  | Type_conditions_are_only_applicable_inside_object_interfaces_and_unions
  | Undefined_directive_0
  | Undefined_enum_value_0
  | Unexpected_end_of_implementations
  | Unknown_argument_0
  | Unterminated_string_value

primrec message_template :: "D \<Rightarrow> string" where
  "message_template A_schema_definition_can_only_contain_query_mutation_and_subscription_fields =
     ''A schema definition can only contain 'query', 'mutation' and 'subscription' fields.''"
| "message_template Cannot_add_an_output_type_to_an_input_location =
     ''Cannot add an (output) type to an input location.''"
| "message_template Cannot_add_an_input_type_to_an_output_location =
     ''Cannot add an input type to an output location.''"
| "message_template Cannot_annotate_with_a_type_that_recursively_references_the_directive_0 =
     ''Cannot annotate with a type that recursively references the directive '{0}'.''"
| "message_template Cannot_select_fields_on_a_scalar_field_0 =
     ''Cannot select fields on a scalar field '{0}'.''"
| "message_template Directive_cannot_reference_itself =
     ''Directive cannot reference itself.''"
| "message_template Duplicate_argument_0 =
     ''Duplicate argument '{0}'.''"
| "message_template Duplicate_field_0 =
     ''Duplicate field '{0}'.''"
| "message_template Duplicate_fragment_0 =
     ''Duplicate fragment '{0}'.''"
| "message_template Duplicate_type_0 =
     ''Duplicate type '{0}'.''"
| "message_template Expected_0_but_got_1 =
     ''Expected '{0}', but got '{1}'.''"
| "message_template Expected_0_but_instead_reached_the_end_of_document =
     ''Expected '{0}', but instead reached the end of document.''"
| "message_template Expected_at_least_a_field_inline_fragment_or_fragment_spread =
     ''Expected at least a field, inline fragment or fragment spread.''"
| "message_template Expected_directive_location_but_instead_reached_the_end_of_document =
     ''Expected directive location, but instead reached the end of document.''"
| "message_template Expected_directive_location =
     ''Expected directive location.''"
| "message_template Expected_enum_value_but_instead_got_0 =
     ''Expected enum value, but instead got '{0}'.''"
| "message_template Expected_field_definition =
     ''Expected field definition.''"
| "message_template Expected_field_inline_fragment_or_fragment_spread =
     ''Expected field, inline fragment or fragment spread.''"
| "message_template Expected_fragment_spread_or_inline_fragment =
     ''Expected fragment spread or inline fragment.''"
| "message_template Expected_name_of_argument =
     ''Expected name of argument.''"
| "message_template Expected_name_of_interface =
     ''Expected name of interface.''"
| "message_template Expected_name_of_object =
     ''Expected name of object''"
| "message_template Expected_name_but_instead_got_0 =
     ''Expected name, but instead got '{0}'.''"
| "message_template Expected_object_field_name =
     ''Expected object field name.''"
| "message_template Expected_operation_definition_or_fragment_definition =
     ''Expected operation definition or fragment definition.''"
| "message_template Expected_type_annotation_instead_got_0 =
     ''Expected type annotation, instead got '{0}'.''"
| "message_template Expected_type_definition =
     ''Expected type definition.''"
| "message_template Expected_type_name_instead_got_0 =
     ''Expected type name, instead got '{0}'.''"
| "message_template Expected_value_instead_got_0 =
     ''Expected value, instead got '{0}'.''"
| "message_template Field_0_does_not_exist_on_type_1 =
     ''Field '{0}' does not exist on type '{1}'.''"
| "message_template Fragment_0_is_not_defined =
     ''Fragment '{0}' is not defined.''"
| "message_template Interface_0_is_not_defined =
     ''Interface '{0}' is not defined.''"
| "message_template Invalid_Unicode_escape_sequence =
     ''Invalid Unicode escape sequence.''"
| "message_template Missing_required_argument_0 =
     ''Missing required argument '{0}'.''"
| "message_template Missing_required_field_0 =
     ''Missing required field '{0}'.''"
| "message_template Mutations_are_not_supported =
     ''Mutations are not supported.''"
| "message_template No_query_root_operation_type_defined =
     ''No query root operation type defined.''"
| "message_template Only_objects_are_allowed_as_members_in_a_union =
     ''Only objects are allowed as members in a union.''"
| "message_template Subscriptions_are_not_supported =
     ''Subscriptions are not supported.''"
| "message_template The_directive_0_does_not_support_the_location_1 =
     ''The directive '{0}' does not support the location '{1}'.''"
| "message_template The_field_0_in_interface_1_is_not_implemented =
     ''The field '{0}' in interface '{1}' is not implemented.''"
| "message_template The_object_0_does_not_implement_the_interface_1 =
     ''The object '{0}' does not implement the interface '{1}'.''"
| "message_template The_object_0_does_not_match_the_object_1 =
     ''The object '{0}' does not match the object '{1}'.''"
| "message_template The_type_0_is_not_an_object =
     ''The type '{0}' is not an object.''"
| "message_template The_type_0_is_not_member_of_the_union_1 =
     ''The type '{0}' is not member of the union '{1}'.''"
| "message_template The_value_0_is_not_assignable_to_type_1 =
     ''The value '{0}' is not assignable to type '{1}'.''"
| "message_template Type_0_does_not_match_type_1_from_the_interface_2 =
     ''Type '{0}' does not match type '{1}' from the interface '{2}'.''"
| "message_template Type_0_is_not_assignable_to_type_1 =
     ''Type '{0}' is not assignable to type '{1}'.''"
| "message_template Type_0_is_not_defined =
     ''Type '{0}' is not defined.''"
| "message_template Type_conditions_are_only_applicable_inside_object_interfaces_and_unions =
     ''Type conditions are only applicable inside object, interfaces and unions.''"
| "message_template Undefined_directive_0 =
     ''Undefined directive '{0}'.''"
| "message_template Undefined_enum_value_0 =
     ''Undefined enum value '{0}'.''"
| "message_template Unexpected_end_of_implementations =
     ''Unexpected end of implementations.''"
| "message_template Unknown_argument_0 =
     ''Unknown argument '{0}'.''"
| "message_template Unterminated_string_value =
     ''Unterminated string value.''"

section \<open>Messages\<close>

record DiagnosticMessage =
  dm_template :: D
  dm_args :: "ustring list"
  dm_location :: Location

definition create_diagnostic :: "Location \<Rightarrow> D \<Rightarrow> ustring list \<Rightarrow> DiagnosticMessage" where
  "create_diagnostic location d args =
     \<lparr>dm_template = d, dm_args = args, dm_location = location\<rparr>"

text \<open>
  The text of a message: each argument replaces its numbered placeholder, in order, in what the
  earlier replacements left.
\<close>

fun fill_placeholders ::
  "(ustring \<Rightarrow> ustring \<Rightarrow> ustring \<Rightarrow> ustring) \<Rightarrow> ustring list \<Rightarrow> ustring list \<Rightarrow> ustring \<Rightarrow> ustring" where
  "fill_placeholders rr (pat # pats) (arg # args) m = fill_placeholders rr pats args (rr m pat arg)"
| "fill_placeholders rr pats args m = m"

definition message :: "(ustring \<Rightarrow> ustring \<Rightarrow> ustring \<Rightarrow> ustring) \<Rightarrow> DiagnosticMessage \<Rightarrow> ustring" where
  "message rr dm = fill_placeholders rr [u ''{0}'', u ''{1}'', u ''{2}''] (dm_args dm)
     (u (message_template (dm_template dm)))"

lemma create_diagnostic_simps [simp]:
  "dm_template (create_diagnostic l d as) = d"
  "dm_args (create_diagnostic l d as) = as"
  "dm_location (create_diagnostic l d as) = l"
  by (simp_all add: create_diagnostic_def)

end
