(* ===== verification/GraphQlToken.thy ===== *)
theory GraphQlToken
  imports Prelude
begin

text \<open>
  The vocabulary of the GraphQL scanner: the tokens and directive locations
  (\<open>src/program/graphql/graphql_scanner.h\<close>, \<open>graphql_syntaxes.h\<close>), the character classes, and the
  two hand-written recognisers of \<open>graphql_scanner.cpp\<close> that turn a name into a keyword token
  or a directive location by switching on its length and its first characters.
\<close>

section \<open>Tokens and directive locations\<close>

datatype (plugins only: code size) GraphQlToken =
    Unknown
  | G_Name
  | G_Directive
  | WhiteSpace
  | LineTerminator
  | Comment
  | G_Description
  | Ampersand
  | OnKeyword
  | Pipe
  | StartKeyword
  | MutationKeyword
  | QueryKeyword
  | SubscriptionKeyword
  | DirectiveKeyword
  | EnumKeyword
  | FragmentKeyword
  | InputKeyword
  | InterfaceKeyword
  | SchemaKeyword
  | TypeKeyword
  | UnionKeyword
  | IDKeyword
  | IntKeyword
  | FloatKeyword
  | StringKeyword
  | BooleanKeyword
  | NullKeyword
  | TrueKeyword
  | FalseKeyword
  | ImplementsKeyword
  | EndKeyword
  | IntegerLiteral
  | FloatLiteral
  | BooleanLiteral
  | EnumLiteral
  | G_StringValue
  | InvalidString
  | TruncatedString
  | ObjectLiteral
  | At
  | Colon
  | Comma
  | CloseBrace
  | CloseParen
  | CloseBracket
  | Dollar
  | Ellipses
  | Exclamation
  | Equal
  | Hash
  | OpenBrace
  | OpenBracket
  | OpenParen
  | EndOfDocument

definition graphQlTokenToString :: "(GraphQlToken \<times> ustring) list" where
  "graphQlTokenToString =
     [(At, u ''@''), (Colon, u '':''), (DirectiveKeyword, u ''directive''), (Equal, u ''=''),
      (Ellipses, u ''...''), (OpenBracket, u ''[''), (CloseBracket, u '']''),
      (OpenBrace, u ''{''), (CloseBrace, u ''}''), (OpenParen, u ''(''), (CloseParen, u '')''),
      (Exclamation, u ''!''), (OnKeyword, u ''on''), (Pipe, u ''|''), (G_Name, u ''name''),
      (G_Directive, u ''@directive''), (Unknown, u ''unknown''), (WhiteSpace, u ''whitespace'')]"

datatype (plugins only: code size) DirectiveLocation =
    DL_Unknown
  | DL_EndOfDocument
  | EXECUTABLE_DIRECTIVE_LOCATION_START
  | QUERY
  | MUTATION
  | SUBSCRIPTION
  | FIELD
  | FRAGMENT_DEFINITION
  | FRAGMENT_SPREAD
  | INLINE_FRAGMENT
  | EXECUTABLE_DIRECTIVE_LOCATION_START_END
  | TYPE_SYSTEM_DIRECTIVE_LOCATION_START
  | SCHEMA
  | SCALAR
  | OBJECT
  | FIELD_DEFINITION
  | ARGUMENT_DEFINITION
  | INTERFACE
  | UNION
  | ENUM
  | ENUM_VALUE
  | INPUT_OBJECT
  | INPUT_FIELD_DEFINITION
  | TYPE_SYSTEM_DIRECTIVE_LOCATION_END

definition directiveLocationToString :: "(DirectiveLocation \<times> ustring) list" where
  "directiveLocationToString =
     [(QUERY, u ''QUERY''), (MUTATION, u ''MUTATION''), (SUBSCRIPTION, u ''SUBSCRIPTION''),
      (FIELD, u ''FIELD''), (FRAGMENT_DEFINITION, u ''FRAGMENT_DEFINITION''),
      (FRAGMENT_SPREAD, u ''FRAGMENT_SPREAD''), (INLINE_FRAGMENT, u ''INLINE_FRAGMENT''),
      (SCHEMA, u ''SCHEMA''), (SCALAR, u ''SCALAR''), (OBJECT, u ''OBJECT''),
      (FIELD_DEFINITION, u ''FIELD_DEFINITION''),
      (ARGUMENT_DEFINITION, u ''ARGUMENT_DEFINITION''), (INTERFACE, u ''INTERFACE''),
      (UNION, u ''UNION''), (ENUM, u ''ENUM''), (ENUM_VALUE, u ''ENUM_VALUE''),
      (INPUT_OBJECT, u ''INPUT_OBJECT''), (INPUT_FIELD_DEFINITION, u ''INPUT_FIELD_DEFINITION'')]"

section \<open>Character classes\<close>

definition is_digit :: "char32 \<Rightarrow> bool" where
  "is_digit ch \<longleftrightarrow> ch \<ge> Digit_0 \<and> ch \<le> Digit_9"

definition is_name_start :: "char32 \<Rightarrow> bool" where
  "is_name_start ch \<longleftrightarrow>
     (ch \<ge> Upper_A \<and> ch \<le> Upper_Z) \<or> (ch \<ge> Lower_a \<and> ch \<le> Lower_z) \<or> ch = Underscore"

definition is_name_part :: "char32 \<Rightarrow> bool" where
  "is_name_part ch \<longleftrightarrow>
     (ch \<ge> Lower_a \<and> ch \<le> Lower_z) \<or> (ch \<ge> Upper_A \<and> ch \<le> Upper_Z) \<or>
     (ch \<ge> Digit_0 \<and> ch \<le> Digit_9) \<or> ch = Underscore"

definition is_hexadecimal :: "char32 \<Rightarrow> bool" where
  "is_hexadecimal ch \<longleftrightarrow>
     (ch \<ge> Digit_0 \<and> ch \<le> Digit_9) \<or> (ch \<ge> Lower_a \<and> ch \<le> Lower_f) \<or>
     (ch \<ge> Upper_A \<and> ch \<le> Upper_F)"

definition is_line_break :: "char32 \<Rightarrow> bool" where
  "is_line_break ch \<longleftrightarrow> ch = NewLine \<or> ch = CarriageReturn"

definition is_source_character :: "char32 \<Rightarrow> bool" where
  "is_source_character ch \<longleftrightarrow>
     (if ch = NewLine \<or> ch = CarriageReturn \<or> ch = HorizontalTab then True
      else ch \<ge> Space \<and> ch \<le> End_char)"

section \<open>The keyword recogniser\<close>

text \<open>
  \<open>get_token_from_value\<close> switches on the length \<open>n\<close> it is given and then on single
  characters of the C string \<open>v\<close>; \<open>strcmp(value + k, "...") == 0\<close> is equality of the rest of
  the string.  \<open>at v k\<close> is \<open>value[k]\<close>, the null character at the end.
\<close>

definition at :: "ustring \<Rightarrow> nat \<Rightarrow> char32" where
  "at v k = (if k < length v then v ! k else 0)"

definition get_token_from_value :: "nat \<Rightarrow> ustring \<Rightarrow> GraphQlToken" where
  "get_token_from_value n v =
     (if n = 2 then
        (if at v 0 = of_char CHR ''I'' then
           (if drop 1 v = u ''D'' then IDKeyword else G_Name)
         else if at v 0 = of_char CHR ''o'' then
           (if drop 1 v = u ''n'' then OnKeyword else G_Name)
         else G_Name)
      else if n = 3 then
        (if v = u ''Int'' then IntKeyword else G_Name)
      else if n = 4 then
        (if at v 0 = of_char CHR ''e'' then
           (if drop 1 v = u ''num'' then EnumKeyword else G_Name)
         else if at v 0 = of_char CHR ''t'' then
           (if at v 1 = of_char CHR ''r'' then
              (if drop 2 v = u ''ue'' then TrueKeyword else G_Name)
            else if at v 1 = of_char CHR ''y'' then
              (if drop 2 v = u ''pe'' then TypeKeyword else G_Name)
            else G_Name)
         else if at v 0 = of_char CHR ''n'' then
           (if drop 1 v = u ''ull'' then NullKeyword else G_Name)
         else G_Name)
      else if n = 5 then
        (if at v 0 = of_char CHR ''q'' then
           (if drop 1 v = u ''uery'' then QueryKeyword else G_Name)
         else if at v 0 = of_char CHR ''f'' then
           (if drop 1 v = u ''alse'' then FalseKeyword else G_Name)
         else if at v 0 = of_char CHR ''F'' then
           (if drop 1 v = u ''loat'' then FloatKeyword else G_Name)
         else if at v 0 = of_char CHR ''i'' then
           (if drop 1 v = u ''nput'' then InputKeyword else G_Name)
         else if at v 0 = of_char CHR ''u'' then
           (if drop 1 v = u ''nion'' then UnionKeyword else G_Name)
         else G_Name)
      else if n = 6 then
        (if at v 0 = of_char CHR ''S'' then
           (if drop 1 v = u ''tring'' then StringKeyword else G_Name)
         else if at v 0 = of_char CHR ''s'' then
           (if drop 1 v = u ''chema'' then SchemaKeyword else G_Name)
         else G_Name)
      else if n = 7 then
        (if v = u ''Boolean'' then BooleanKeyword else G_Name)
      else if n = 8 then
        (if at v 0 = of_char CHR ''m'' then
           (if drop 1 v = u ''utation'' then MutationKeyword else G_Name)
         else if at v 0 = of_char CHR ''f'' then
           (if drop 1 v = u ''ragment'' then FragmentKeyword else G_Name)
         else G_Name)
      else if n = 9 then
        (if at v 0 = of_char CHR ''i'' then
           (if drop 1 v = u ''nterface'' then InterfaceKeyword else G_Name)
         else if at v 0 = of_char CHR ''d'' then
           (if drop 1 v = u ''irective'' then DirectiveKeyword else G_Name)
         else G_Name)
      else if n = 10 then
        (if v = u ''implements'' then ImplementsKeyword else G_Name)
      else if n = 12 then
        (if v = u ''subscription'' then SubscriptionKeyword else G_Name)
      else G_Name)"

definition get_directive_from_value :: "nat \<Rightarrow> ustring \<Rightarrow> DirectiveLocation" where
  "get_directive_from_value n v =
     (if n = 4 then
        (if v = u ''ENUM'' then ENUM else DL_Unknown)
      else if n = 5 then
        (if at v 0 = of_char CHR ''Q'' then
           (if drop 1 v = u ''UERY'' then QUERY else DL_Unknown)
         else if at v 0 = of_char CHR ''F'' then
           (if drop 1 v = u ''IELD'' then FIELD else DL_Unknown)
         else if at v 0 = of_char CHR ''U'' then
           (if drop 1 v = u ''NION'' then UNION else DL_Unknown)
         else DL_Unknown)
      else if n = 6 then
        (if at v 0 = of_char CHR ''S'' then
           (if at v 2 = of_char CHR ''H'' then
              (if drop 3 v = u ''EMA'' then SCHEMA else DL_Unknown)
            else if at v 2 = of_char CHR ''A'' then
              (if drop 3 v = u ''LAR'' then SCALAR else DL_Unknown)
            else DL_Unknown)
         else if at v 0 = of_char CHR ''O'' then
           (if drop 1 v = u ''BJECT'' then OBJECT else DL_Unknown)
         else DL_Unknown)
      else if n = 8 then
        (if v = u ''MUTATION'' then MUTATION else DL_Unknown)
      else if n = 9 then
        (if v = u ''INTERFACE'' then INTERFACE else DL_Unknown)
      else if n = 10 then
        (if v = u ''ENUM_VALUE'' then ENUM_VALUE else DL_Unknown)
      else if n = 12 then
        (if at v 0 = of_char CHR ''I'' then
           (if drop 1 v = u ''NPUT_OBJECT'' then INPUT_OBJECT else DL_Unknown)
         else if at v 0 = of_char CHR ''S'' then
           (if drop 1 v = u ''UBSCRIPTION'' then SUBSCRIPTION else DL_Unknown)
         else DL_Unknown)
      else if n = 15 then
        (if at v 0 = of_char CHR ''F'' then
           (if drop 1 v = u ''RAGMENT_SPREAD'' then FRAGMENT_SPREAD else DL_Unknown)
         else if at v 0 = of_char CHR ''I'' then
           (if drop 1 v = u ''NLINE_FRAGMENT'' then INLINE_FRAGMENT else DL_Unknown)
         else DL_Unknown)
      else if n = 16 then
        (if v = u ''FIELD_DEFINITION'' then FIELD_DEFINITION else DL_Unknown)
      else if n = 19 then
        (if at v 0 = of_char CHR ''A'' then
           (if drop 1 v = u ''RGUMENT_DEFINITION'' then ARGUMENT_DEFINITION else DL_Unknown)
         else if at v 0 = of_char CHR ''F'' then
           (if drop 1 v = u ''RAGMENT_DEFINITION'' then FRAGMENT_DEFINITION else DL_Unknown)
         else DL_Unknown)
      else if n = 22 then
        (if v = u ''INPUT_FIELD_DEFINITION'' then INPUT_FIELD_DEFINITION else DL_Unknown)
      else DL_Unknown)"

section \<open>The recognisers against a table\<close>

definition keyword_table :: "(ustring \<times> GraphQlToken) list" where
  "keyword_table =
     [(u ''ID'', IDKeyword), (u ''on'', OnKeyword), (u ''Int'', IntKeyword),
      (u ''enum'', EnumKeyword), (u ''true'', TrueKeyword), (u ''type'', TypeKeyword),
      (u ''null'', NullKeyword), (u ''query'', QueryKeyword), (u ''false'', FalseKeyword),
      (u ''Float'', FloatKeyword), (u ''input'', InputKeyword), (u ''union'', UnionKeyword),
      (u ''String'', StringKeyword), (u ''schema'', SchemaKeyword),
      (u ''Boolean'', BooleanKeyword), (u ''mutation'', MutationKeyword),
      (u ''fragment'', FragmentKeyword), (u ''interface'', InterfaceKeyword),
      (u ''directive'', DirectiveKeyword), (u ''implements'', ImplementsKeyword),
      (u ''subscription'', SubscriptionKeyword)]"

definition directive_table :: "(ustring \<times> DirectiveLocation) list" where
  "directive_table = map prod.swap directiveLocationToString"

definition lookup_or :: "'b \<Rightarrow> ('a \<times> 'b) list \<Rightarrow> 'a \<Rightarrow> 'b" where
  "lookup_or d t v = (case map_of t v of Some x \<Rightarrow> x | None \<Rightarrow> d)"

lemmas keyword_simps = get_token_from_value_def keyword_table_def at_def lookup_or_def
lemmas directive_simps = get_directive_from_value_def directive_table_def directiveLocationToString_def
  at_def lookup_or_def

lemma lookup_or_other_length:
  assumes "length v \<notin> set (map (length \<circ> fst) t)"
  shows "lookup_or d t v = d"
proof -
  from assms have "v \<notin> fst ` set t" by auto
  then show ?thesis by (simp add: lookup_or_def map_of_eq_None_iff [THEN iffD2])
qed

section \<open>Properties\<close>

text \<open>
  The keyword recogniser, a switch on the length of a name and on some of its characters,
  is exactly a lookup in the table of the language's keywords: every keyword gets its own token
  and every other name is a plain name.
\<close>

lemma get_token_from_value_lookup:
  "get_token_from_value (length v) v = lookup_or G_Name keyword_table v"
proof (cases "length v \<in> {2, 3, 4, 5, 6, 7, 8, 9, 10, 12}")
  case True
  have "get_token_from_value n (map f [0..<n]) = lookup_or G_Name keyword_table (map f [0..<n])"
    if "n \<in> {2, 3, 4, 5, 6, 7, 8, 9, 10, 12}" for n f
    using that by (elim insertE emptyE; simp add: upt_rec; simp add: keyword_simps)
  from this [OF True, of "nth v"] show ?thesis by (simp only: map_nth)
next
  case False
  then show ?thesis
    by (subst lookup_or_other_length) (simp_all add: get_token_from_value_def keyword_table_def eval_nat_numeral)
qed

text \<open>
  The directive-location recogniser inverts the table \<open>directiveLocationToString\<close>: the name of
  every location is recognised as that location.
\<close>

lemma directive_location_names:
  "\<forall>(l, s) \<in> set directiveLocationToString. get_directive_from_value (length s) s = l"
  by (simp add: directiveLocationToString_def get_directive_from_value_def at_def)

text \<open>
  C38. What the directive-location recogniser accepts beyond that table: the second character of
  a six-letter name that starts with \<open>S\<close> is never looked at, so \<open>SxHEMA\<close> and \<open>SxALAR\<close> count as
  \<open>SCHEMA\<close> and \<open>SCALAR\<close> for every character \<open>x\<close>; everything else is the table lookup.
\<close>

theorem get_directive_from_value_table:
  "get_directive_from_value (length v) v =
     (if \<exists>x. v = u ''S'' @ [x] @ u ''HEMA'' then SCHEMA
      else if \<exists>x. v = u ''S'' @ [x] @ u ''ALAR'' then SCALAR
      else lookup_or DL_Unknown directive_table v)"
proof (cases "length v \<in> {4, 5, 6, 8, 9, 10, 12, 15, 16, 19, 22}")
  case True
  let ?spec = "\<lambda>v. if \<exists>x. v = u ''S'' @ [x] @ u ''HEMA'' then SCHEMA
      else if \<exists>x. v = u ''S'' @ [x] @ u ''ALAR'' then SCALAR
      else lookup_or DL_Unknown directive_table v"
  have "get_directive_from_value n (map f [0..<n]) = ?spec (map f [0..<n])"
    if "n \<in> {4, 5, 6, 8, 9, 10, 12, 15, 16, 19, 22}" for n f
    using that by (elim insertE emptyE; simp add: upt_rec; simp add: directive_simps)
  from this [OF True, of "nth v"] show ?thesis by (simp only: map_nth)
next
  case False
  then have "\<not> (\<exists>x. v = u ''S'' @ [x] @ u ''HEMA'')" "\<not> (\<exists>x. v = u ''S'' @ [x] @ u ''ALAR'')"
    by auto
  moreover have "lookup_or DL_Unknown directive_table v = DL_Unknown"
    using False by (intro lookup_or_other_length) (simp add: directive_table_def directiveLocationToString_def eval_nat_numeral)
  ultimately show ?thesis using False by (simp add: get_directive_from_value_def)
qed

end
