(* ===== verification/GraphQlSyntaxes.thy ===== *)
theory GraphQlSyntaxes
  imports Prelude
begin

text \<open>
  The part of \<open>src/program/graphql/graphql_syntaxes.h\<close> the scanner works with: the kinds of syntax
  nodes and the base \<open>Syntax\<close> of all of them, its kind and its range in the source.
\<close>

datatype (plugins only: code size) SyntaxKind =
    S_None
  | S_Argument
  | S_Arguments
  | S_ArgumentsDefinition
  | S_Directive
  | S_DirectiveDefinition
  | S_EnumTypeDefinition
  | S_FieldsDefinition
  | S_FieldDefinition
  | S_FragmentDefinition
  | S_FragmentSpread
  | S_InlineFragment
  | S_InputFieldsDefinition
  | S_InputFieldDefinition
  | S_InputValueDefinition
  | S_InputObject
  | S_Interface
  | S_Implementations
  | S_Name
  | S_Field
  | S_Object
  | S_OperationDefinition
  | S_QueryDocument
  | S_Schema
  | S_SchemaDocument
  | S_SelectionSet
  | S_Type
  | S_Union
  | S_VariableDefinition
  | S_VariableDefinitions
  | S_NullValue
  | S_BooleanValue
  | S_IntValue
  | S_FloatValue
  | S_EnumValue
  | S_StringValue
  | S_ObjectField
  | S_ObjectValue
  | S_ListValue

record Syntax =
  syntax_kind :: SyntaxKind
  syntax_start :: nat
  syntax_end :: nat

end
