(* ===== verification/GraphQlScanner.thy ===== *)
theory GraphQlScanner
  imports Diagnostics GraphQlToken GraphQlSyntaxes
begin

text \<open>
  The GraphQL scanner, \<open>src/program/graphql/graphql_scanner.h\<close> and \<open>.cpp\<close>: its state and every
  operation of the class.  Reading \<open>source[i]\<close> gives the character at \<open>i\<close>, the terminating null
  character at \<open>i = size\<close>, and is undefined beyond; a definition that reads past the end
  therefore ends in \<open>Undefined_behaviour\<close>.  Positions, lines and columns are natural numbers (the
  code's are 64-bit counters of characters of one document).
\<close>

section \<open>State\<close>

record SavedTextCursor =
  c_position :: nat
  c_line :: nat
  c_column :: nat
  c_start_position :: nat
  c_start_line :: nat
  c_start_column :: nat

record PositionToLine =
  pl_position :: nat
  pl_line :: nat

record GraphQlScanner =
  gs_source :: ustring
  gs_start_position :: nat
  gs_end_position :: nat
  gs_position :: nat
  gs_line :: nat
  gs_start_line :: nat
  gs_start_column :: nat
  gs_column :: nat
  gs_position_to_line_list :: "PositionToLine list"
  gs_errors :: "DiagnosticMessage list"
  gs_name :: ustring
  gs_directive_name :: ustring
  gs_string_literal :: ustring
  gs_saved_text_cursors :: "SavedTextCursor list"

definition GraphQlScanner_new :: "ustring \<Rightarrow> GraphQlScanner" where
  "GraphQlScanner_new source =
     \<lparr>gs_source = source, gs_start_position = 0, gs_end_position = 0, gs_position = 0,
      gs_line = 1, gs_start_line = 1, gs_start_column = 1, gs_column = 1,
      gs_position_to_line_list = [\<lparr>pl_position = 0, pl_line = 1\<rparr>], gs_errors = [],
      gs_name = [], gs_directive_name = [], gs_string_literal = [], gs_saved_text_cursors = []\<rparr>"

definition source_size :: "GraphQlScanner \<Rightarrow> nat" where
  "source_size s = length (gs_source s)"

section \<open>Cursor\<close>

definition ustring_at :: "ustring \<Rightarrow> nat \<Rightarrow> flash_error + char32" where
  "ustring_at src i =
     (if i < length src then Inr (src ! i)
      else if i = length src then Inr NullCharacter
      else Inl (Undefined_behaviour ''read past the end of the source''))"

definition source_char :: "nat \<Rightarrow> (GraphQlScanner, char32) exec" where
  "source_char i s = map_sum id (\<lambda>c. (c, s)) (ustring_at (gs_source s) i)"

definition current_char :: "(GraphQlScanner, char32) exec" where
  "current_char s = source_char (gs_position s) s"

definition increment_position :: "GraphQlScanner \<Rightarrow> GraphQlScanner" where
  "increment_position s = s\<lparr>gs_column := gs_column s + 1, gs_position := gs_position s + 1\<rparr>"

definition set_token_start_position :: "GraphQlScanner \<Rightarrow> GraphQlScanner" where
  "set_token_start_position s =
     s\<lparr>gs_start_position := gs_position s, gs_start_column := gs_column s\<rparr>"

definition get_token_length :: "GraphQlScanner \<Rightarrow> nat" where
  "get_token_length s = sub64 (gs_position s) (gs_start_position s)"

definition substr :: "ustring \<Rightarrow> nat \<Rightarrow> nat \<Rightarrow> flash_error + ustring" where
  "substr src i n =
     (if i \<le> length src then Inr (take n (drop i src)) else Inl (Out_of_range ''substr''))"

definition get_value :: "GraphQlScanner \<Rightarrow> flash_error + ustring" where
  "get_value s = substr (gs_source s) (gs_start_position s) (get_token_length s)"

definition get_text_from_location :: "GraphQlScanner \<Rightarrow> nat \<Rightarrow> nat \<Rightarrow> flash_error + ustring" where
  "get_text_from_location s start end' = substr (gs_source s) start (sub64 end' start)"

definition save :: "GraphQlScanner \<Rightarrow> GraphQlScanner" where
  "save s = s\<lparr>gs_saved_text_cursors :=
     \<lparr>c_position = gs_position s, c_line = gs_line s, c_column = gs_column s,
      c_start_position = gs_start_position s, c_start_line = gs_start_line s,
      c_start_column = gs_start_column s\<rparr> # gs_saved_text_cursors s\<rparr>"

definition restore_cursor :: "SavedTextCursor \<Rightarrow> GraphQlScanner \<Rightarrow> GraphQlScanner" where
  "restore_cursor c s =
     s\<lparr>gs_position := c_position c, gs_line := c_line c, gs_column := c_column c,
       gs_start_position := c_start_position c, gs_start_line := c_start_line c,
       gs_start_column := c_start_column c\<rparr>"

definition revert :: "(GraphQlScanner, unit) exec" where
  "revert s = (case gs_saved_text_cursors s of
      [] \<Rightarrow> Inl (Undefined_behaviour ''top of an empty stack'')
    | c # cs \<Rightarrow> Inr ((), restore_cursor c (s\<lparr>gs_saved_text_cursors := cs\<rparr>)))"

definition new_line :: "GraphQlScanner \<Rightarrow> GraphQlScanner" where
  "new_line s =
     (let line' = gs_line s + 1
      in s\<lparr>gs_line := line', gs_position_to_line_list := gs_position_to_line_list s @
            [\<lparr>pl_position = gs_position s, pl_line = line'\<rparr>]\<rparr>)"

text \<open>What a skipped line break does to the start of the next token.\<close>

definition start_of_line :: "GraphQlScanner \<Rightarrow> GraphQlScanner" where
  "start_of_line s = s\<lparr>gs_column := 1, gs_start_column := 1, gs_start_line := gs_start_line s + 1,
     gs_start_position := gs_start_position s + 1\<rparr>"

definition advance_start :: "GraphQlScanner \<Rightarrow> GraphQlScanner" where
  "advance_start s = s\<lparr>gs_start_position := gs_start_position s + 1,
     gs_start_column := gs_start_column s + 1\<rparr>"

named_theorems cursor_simps \<open>effect of the cursor primitives on the fields of the scanner\<close>

lemma increment_position_simps [cursor_simps]:
  "gs_position (increment_position s) = Suc (gs_position s)"
  "gs_source (increment_position s) = gs_source s"
  "gs_start_position (increment_position s) = gs_start_position s"
  "gs_saved_text_cursors (increment_position s) = gs_saved_text_cursors s"
  "gs_position_to_line_list (increment_position s) = gs_position_to_line_list s"
  "gs_line (increment_position s) = gs_line s"
  by (simp_all add: increment_position_def)

lemma line_list_simps [cursor_simps]:
  "gs_position_to_line_list (new_line s) =
     gs_position_to_line_list s @ [\<lparr>pl_position = gs_position s, pl_line = gs_line s + 1\<rparr>]"
  "gs_position_to_line_list (start_of_line s) = gs_position_to_line_list s"
  "gs_position_to_line_list (advance_start s) = gs_position_to_line_list s"
  "gs_position_to_line_list (set_token_start_position s) = gs_position_to_line_list s"
  by (simp_all add: new_line_def start_of_line_def advance_start_def set_token_start_position_def)

lemma line_simps [cursor_simps]:
  "gs_position (new_line s) = gs_position s" "gs_source (new_line s) = gs_source s"
  "gs_start_position (new_line s) = gs_start_position s"
  "gs_saved_text_cursors (new_line s) = gs_saved_text_cursors s"
  "gs_position (start_of_line s) = gs_position s" "gs_source (start_of_line s) = gs_source s"
  "gs_start_position (start_of_line s) = Suc (gs_start_position s)"
  "gs_saved_text_cursors (start_of_line s) = gs_saved_text_cursors s"
  "gs_position (advance_start s) = gs_position s" "gs_source (advance_start s) = gs_source s"
  "gs_start_position (advance_start s) = Suc (gs_start_position s)"
  "gs_saved_text_cursors (advance_start s) = gs_saved_text_cursors s"
  "gs_position (set_token_start_position s) = gs_position s"
  "gs_source (set_token_start_position s) = gs_source s"
  "gs_start_position (set_token_start_position s) = gs_position s"
  "gs_saved_text_cursors (set_token_start_position s) = gs_saved_text_cursors s"
  by (simp_all add: new_line_def start_of_line_def advance_start_def set_token_start_position_def Let_def)

lemma source_size_simps [cursor_simps]:
  "source_size (increment_position s) = source_size s" "source_size (new_line s) = source_size s"
  "source_size (start_of_line s) = source_size s" "source_size (advance_start s) = source_size s"
  "source_size (set_token_start_position s) = source_size s"
  by (simp_all add: source_size_def cursor_simps)

section \<open>Numbers\<close>

function scan_digit_list :: "(GraphQlScanner, unit) exec" where
  "scan_digit_list s =
     (case current_char s of
        Inl e \<Rightarrow> Inl e
      | Inr (ch, s) \<Rightarrow>
          if is_digit ch then scan_digit_list (increment_position s) else Inr ((), s))"
  by pat_completeness auto
termination
  by (relation "measure (\<lambda>s. source_size s - gs_position s)")
     (auto simp: current_char_def source_char_def ustring_at_def is_digit_def cursor_simps
        source_size_def split: if_splits)

declare scan_digit_list.simps [simp del]

definition scan_integer_part :: "(GraphQlScanner, GraphQlToken) exec" where
  "scan_integer_part =
     bind current_char (\<lambda>ch.
     bind (if ch = Minus then current_char else ret ch) (\<lambda>ch.
     if ch = Digit_0 then
       bind (modify increment_position) (\<lambda>_.
       bind current_char (\<lambda>ch.
       if is_digit ch then ret Unknown else ret IntegerLiteral))
     else if \<not> is_digit ch then ret Unknown
     else bind scan_digit_list (\<lambda>_. ret IntegerLiteral)))"

definition scan_exponent :: "(GraphQlScanner, GraphQlToken) exec" where
  "scan_exponent =
     bind (modify increment_position) (\<lambda>_.
     bind current_char (\<lambda>ch.
     bind (if ch = Minus \<or> ch = Plus
           then bind (modify increment_position) (\<lambda>_. current_char) else ret ch) (\<lambda>ch.
     if \<not> is_digit ch then ret Unknown
     else bind (modify increment_position) (\<lambda>_.
          bind scan_digit_list (\<lambda>_. ret FloatLiteral)))))"

definition is_exponent_char :: "char32 \<Rightarrow> bool" where
  "is_exponent_char ch \<longleftrightarrow> ch = of_char CHR ''e'' \<or> ch = of_char CHR ''E''"

definition scan_number :: "(GraphQlScanner, GraphQlToken) exec" where
  "scan_number =
     bind scan_integer_part (\<lambda>_.
     bind current_char (\<lambda>c.
     if c = Dot then
       bind (modify increment_position) (\<lambda>_.
       bind current_char (\<lambda>ch.
       if \<not> is_digit ch then ret Unknown
       else
         bind (modify increment_position) (\<lambda>_.
         bind scan_digit_list (\<lambda>_.
         bind current_char (\<lambda>ch.
         if \<not> is_exponent_char ch then ret FloatLiteral else scan_exponent)))))
     else if is_exponent_char c then scan_exponent
     else ret IntegerLiteral))"

section \<open>Strings\<close>

text \<open>
  \<open>InvalidStringException\<close> is thrown only by \<open>scan_hexadecimal_escape\<close> and caught in
  \<open>scan_string_literal\<close>; here the escape scanners return whether they returned normally.
\<close>

definition add_scanner_error :: "Location \<Rightarrow> D \<Rightarrow> GraphQlScanner \<Rightarrow> GraphQlScanner" where
  "add_scanner_error loc d s = s\<lparr>gs_errors := create_diagnostic loc d [] # gs_errors s\<rparr>"

fun hexadecimal_digits :: "nat \<Rightarrow> nat \<Rightarrow> nat \<Rightarrow> nat \<Rightarrow> (GraphQlScanner, bool) exec" where
  "hexadecimal_digits 0 start_position start_line start_column =
     bind current_char (\<lambda>_. ret True)"
| "hexadecimal_digits (Suc n) start_position start_line start_column =
     bind current_char (\<lambda>ch.
     if is_hexadecimal ch
     then bind (modify increment_position) (\<lambda>_.
          hexadecimal_digits n start_position start_line start_column)
     else bind (modify (\<lambda>s. add_scanner_error
            \<lparr>loc_line = start_line, loc_column = start_column,
             loc_length = gs_position s - start_position, loc_end_of_source = False\<rparr>
            Invalid_Unicode_escape_sequence s)) (\<lambda>_.
          bind (modify increment_position) (\<lambda>_. ret False)))"

definition scan_hexadecimal_escape :: "nat \<Rightarrow> nat \<Rightarrow> nat \<Rightarrow> (GraphQlScanner, bool) exec" where
  "scan_hexadecimal_escape = hexadecimal_digits 4"

definition is_simple_escape :: "char32 \<Rightarrow> bool" where
  "is_simple_escape ch \<longleftrightarrow> ch \<in> set (u [CHR 0x22, CHR 0x5C, CHR ''/'', CHR ''b'', CHR ''f'',
     CHR ''n'', CHR ''r'', CHR ''t''])"

definition scan_escape_sequence :: "(GraphQlScanner, bool) exec" where
  "scan_escape_sequence s =
     bind (modify increment_position) (\<lambda>_.
     bind current_char (\<lambda>ch.
     if is_simple_escape ch then bind (modify increment_position) (\<lambda>_. ret True)
     else if ch = of_char CHR ''u'' then
       bind (modify increment_position) (\<lambda>_.
       scan_hexadecimal_escape (gs_position s) (gs_line s) (gs_column s))
     else ret True)) s"

text \<open>
  \<open>forward s t\<close>: from \<open>s\<close> to \<open>t\<close> the scanner only moved forward inside the token it is reading;
  the source, the token's start, the lines and the saved cursors are as they were.
\<close>

definition forward :: "GraphQlScanner \<Rightarrow> GraphQlScanner \<Rightarrow> bool" where
  "forward s t \<longleftrightarrow> gs_source t = gs_source s \<and> gs_position s \<le> gs_position t \<and>
     gs_start_position t = gs_start_position s \<and> gs_line t = gs_line s \<and>
     gs_position_to_line_list t = gs_position_to_line_list s \<and>
     gs_saved_text_cursors t = gs_saved_text_cursors s"

lemma forward_refl [simp]: "forward s s"
  by (simp add: forward_def)

lemma forward_trans [trans]: "forward s t \<Longrightarrow> forward t r \<Longrightarrow> forward s r"
  by (auto simp: forward_def)

lemma forward_increment [simp]: "forward s (increment_position s)"
  by (simp add: forward_def cursor_simps)

lemma forward_add_error [simp]: "forward s (add_scanner_error l d t) = forward s t"
  by (simp add: forward_def add_scanner_error_def)

lemma forward_from_increment: "forward (increment_position s) t \<Longrightarrow> forward s t"
  by (simp add: forward_def cursor_simps)

lemma forward_to_increment [simp]: "forward s t \<Longrightarrow> forward s (increment_position t)"
  by (simp add: forward_def cursor_simps)

lemma forward_string_literal [simp]: "forward s (s\<lparr>gs_string_literal := x\<rparr>)"
  by (simp add: forward_def)

lemma current_char_Inr: "current_char s = Inr (c, t) \<Longrightarrow> t = s \<and> gs_position s \<le> source_size s"
  by (auto simp: current_char_def source_char_def ustring_at_def source_size_def split: if_splits)

lemma forward_hexadecimal_digits:
  "hexadecimal_digits n a b c s = Inr (x, t) \<Longrightarrow> forward s t"
proof (induction n arbitrary: s)
  case 0
  then show ?case by (auto elim!: bind_InrE simp: exec_simps dest: current_char_Inr)
next
  case (Suc n)
  from Suc.prems consider "hexadecimal_digits n a b c (increment_position s) = Inr (x, t)"
    | l d where "t = increment_position (add_scanner_error l d s)"
    by (auto elim!: bind_InrE simp: exec_simps dest!: current_char_Inr split: if_splits)
  then show ?case
    by cases (auto dest: Suc.IH intro: forward_from_increment)
qed

lemma forward_escape_sequence:
  assumes "scan_escape_sequence s = Inr (x, t)"
  shows "forward s t" and "gs_position s < gs_position t"
proof -
  let ?s = "increment_position s"
  from assms consider "t = ?s" | "t = increment_position ?s"
    | a b c where "hexadecimal_digits 4 a b c (increment_position ?s) = Inr (x, t)"
    unfolding scan_escape_sequence_def scan_hexadecimal_escape_def
    by (auto elim!: bind_InrE simp: exec_simps dest!: current_char_Inr split: if_splits)
  then have "forward ?s t"
    by cases (auto dest: forward_hexadecimal_digits intro: forward_from_increment)
  then show "forward s t" "gs_position s < gs_position t"
    by (auto simp: forward_def cursor_simps)
qed

lemma escape_sequence_progress:
  "scan_escape_sequence s = Inr (x, t) \<Longrightarrow>
   gs_source t = gs_source s \<and> gs_position s < gs_position t"
  using forward_escape_sequence by (auto simp: forward_def)

text \<open>
  The loop of \<open>scan_string_literal\<close>: \<open>None\<close> when an escape was invalid, otherwise whether the
  literal ran over a line break.
\<close>

function string_literal_loop :: "nat \<Rightarrow> bool \<Rightarrow> (GraphQlScanner, bool option) exec" where
  "string_literal_loop start is_truncated s =
     (if gs_position s > source_size s then Inr (Some is_truncated, s)
      else (case current_char s of
          Inl e \<Rightarrow> Inl e
        | Inr (ch, _) \<Rightarrow>
            if ch = Backslash then
              (case scan_escape_sequence s of
                 Inl e \<Rightarrow> Inl e
               | Inr (ok, s') \<Rightarrow>
                   if ok then string_literal_loop start is_truncated s' else Inr (None, s'))
            else if ch = NewLine \<or> ch = CarriageReturn then
              string_literal_loop start True (increment_position s)
            else if ch = DoubleQuote then
              (case substr (gs_source s) start (gs_position s - start) of
                 Inl e \<Rightarrow> Inl e
               | Inr piece \<Rightarrow>
                   Inr (Some is_truncated,
                        increment_position (s\<lparr>gs_string_literal := gs_string_literal s @ piece\<rparr>)))
            else string_literal_loop start is_truncated (increment_position s)))"
  by pat_completeness auto
termination
  by (relation "measure (\<lambda>(st, tr, s). Suc (source_size s) - gs_position s)")
     (auto simp: cursor_simps source_size_def forward_def
        dest!: escape_sequence_progress)

declare string_literal_loop.simps [simp del]

definition scan_string_literal :: "(GraphQlScanner, GraphQlToken) exec" where
  "scan_string_literal s =
     bind (modify (\<lambda>s. s\<lparr>gs_string_literal := []\<rparr>)) (\<lambda>_.
     bind (string_literal_loop (gs_position s) False) (\<lambda>r.
     case r of
       None \<Rightarrow> ret InvalidString
     | Some is_truncated \<Rightarrow>
         if is_truncated
         then bind (modify (\<lambda>t. add_scanner_error
                \<lparr>loc_line = gs_line s, loc_column = gs_column s,
                 loc_length = gs_position t - gs_position s, loc_end_of_source = False\<rparr>
                Unterminated_string_value t)) (\<lambda>_. ret InvalidString)
         else ret G_StringValue)) s"

function string_block_loop :: "(GraphQlScanner, GraphQlToken) exec" where
  "string_block_loop s =
     (if gs_position s > source_size s then Inr (Unknown, s)
      else (case current_char s of
          Inl e \<Rightarrow> Inl e
        | Inr (ch, _) \<Rightarrow>
            if ch = DoubleQuote \<and> gs_position s + 2 \<ge> source_size s then Inr (Unknown, s)
            else if ch = DoubleQuote \<and> gs_source s ! (gs_position s + 1) = DoubleQuote \<and>
                 gs_source s ! (gs_position s + 2) = DoubleQuote then
              Inr (G_StringValue, increment_position (increment_position (increment_position s)))
            else if is_source_character ch then
              string_block_loop
                (increment_position (s\<lparr>gs_string_literal := gs_string_literal s @ [ch]\<rparr>))
            else string_block_loop (increment_position s)))"
  by pat_completeness auto
termination
  by (relation "measure (\<lambda>s. Suc (source_size s) - gs_position s)")
     (auto simp: cursor_simps source_size_def)

declare string_block_loop.simps [simp del]

definition scan_string_block_after_double_quotes :: "(GraphQlScanner, GraphQlToken) exec" where
  "scan_string_block_after_double_quotes =
     bind (modify (\<lambda>s. s\<lparr>gs_string_literal := []\<rparr>)) (\<lambda>_. string_block_loop)"

definition scan_string_value :: "(GraphQlScanner, GraphQlToken) exec" where
  "scan_string_value =
     bind current_char (\<lambda>ch.
     bind (if ch = DoubleQuote
           then bind (gets gs_position) (\<lambda>p. bind (source_char (p + 1)) (\<lambda>c. ret (c = DoubleQuote)))
           else ret False) (\<lambda>block.
     if block then
       bind (modify increment_position) (\<lambda>_.
       bind (modify increment_position) (\<lambda>_.
       scan_string_block_after_double_quotes))
     else scan_string_literal))"

definition scan_ellipses_after_first_dot :: "(GraphQlScanner, GraphQlToken) exec" where
  "scan_ellipses_after_first_dot =
     bind current_char (\<lambda>ch.
     if ch \<noteq> Dot then ret Unknown
     else
       bind (modify increment_position) (\<lambda>_.
       bind current_char (\<lambda>ch.
       if ch \<noteq> Dot then ret Unknown
       else bind (modify increment_position) (\<lambda>_. ret Ellipses))))"

section \<open>Names and comments\<close>

function scan_name_rest :: "nat \<Rightarrow> GraphQlScanner \<Rightarrow> nat \<times> GraphQlScanner" where
  "scan_name_rest name_size s =
     (if gs_position s < source_size s \<and> is_name_part (gs_source s ! gs_position s)
      then scan_name_rest (name_size + 1) (increment_position s)
      else (name_size, s))"
  by pat_completeness auto
termination
  by (relation "measure (\<lambda>(n, s). source_size s - gs_position s)")
     (auto simp: cursor_simps source_size_def)

declare scan_name_rest.simps [simp del]

function skip_comment :: "GraphQlScanner \<Rightarrow> GraphQlScanner" where
  "skip_comment s =
     (if gs_position s < source_size s \<and> \<not> is_line_break (gs_source s ! gs_position s)
      then skip_comment (advance_start (increment_position s))
      else s)"
  by pat_completeness auto
termination
  by (relation "measure (\<lambda>s. source_size s - gs_position s)")
     (auto simp: cursor_simps source_size_def)

declare skip_comment.simps [simp del]

text \<open>\<open>get_token_from_value\<close> also stores the name it did not recognise.\<close>

definition token_from_value :: "nat \<Rightarrow> (GraphQlScanner, GraphQlToken) exec" where
  "token_from_value name_size s =
     (case get_value s of
        Inl e \<Rightarrow> Inl e
      | Inr v \<Rightarrow>
          (let token = get_token_from_value name_size (cstr v)
           in if token = G_Name then Inr (G_Name, s\<lparr>gs_name := cstr v\<rparr>) else Inr (token, s)))"

section \<open>Tokens\<close>

definition punctuation :: "char32 \<Rightarrow> GraphQlToken option" where
  "punctuation ch =
     (if ch = Ampersand_char then Some Ampersand
      else if ch = OpenParen_char then Some OpenParen
      else if ch = CloseParen_char then Some CloseParen
      else if ch = OpenBracket_char then Some OpenBracket
      else if ch = CloseBracket_char then Some CloseBracket
      else if ch = OpenBrace_char then Some OpenBrace
      else if ch = CloseBrace_char then Some CloseBrace
      else if ch = Colon_char then Some Colon
      else if ch = Exclamation_char then Some Exclamation
      else if ch = At_char then Some At
      else if ch = Pipe_char then Some Pipe
      else if ch = Equal_char then Some Equal
      else None)"

text \<open>The look-ahead of the carriage return case, after the carriage return itself was consumed.\<close>

definition skip_line_feed :: "(GraphQlScanner, unit) exec" where
  "skip_line_feed =
     bind (gets gs_position) (\<lambda>p.
     bind (source_char (p + 1)) (\<lambda>c.
     if c = NewLine then modify increment_position else ret ()))"

definition is_blank :: "char32 \<Rightarrow> bool" where
  "is_blank ch \<longleftrightarrow> ch = ByteOrderMark \<or> ch = Space \<or> ch = Comma_char"

lemma skip_comment_position: "gs_position s \<le> gs_position (skip_comment s)"
  and skip_comment_source [simp]: "gs_source (skip_comment s) = gs_source s"
  and skip_comment_saved [simp]: "gs_saved_text_cursors (skip_comment s) = gs_saved_text_cursors s"
proof (induction s rule: skip_comment.induct)
  case (1 s)
  {
    case 1
    then show ?case using "1.IH" by (subst skip_comment.simps) (auto simp: cursor_simps)
  next
    case 2
    then show ?case using "1.IH" by (subst skip_comment.simps) (auto simp: cursor_simps)
  next
    case 3
    then show ?case using "1.IH" by (subst skip_comment.simps) (auto simp: cursor_simps)
  }
qed

lemma skip_line_feed_Inr:
  assumes "skip_line_feed s = Inr (x, t)"
  shows "(t = s \<or> t = increment_position s) \<and> gs_position s < source_size s"
  using assms
  by (auto simp: skip_line_feed_def exec_simps source_char_def ustring_at_def source_size_def
      elim!: bind_InrE split: if_splits)

function take_loop :: "bool \<Rightarrow> bool \<Rightarrow> (GraphQlScanner, GraphQlToken) exec" where
  "take_loop treat_keyword_as_name skip_white_space s0 =
     (if gs_position s0 < source_size s0 then
        (let ch = gs_source s0 ! gs_position s0; s = increment_position s0 in
         if ch = NewLine then
           (if \<not> skip_white_space then Inr (WhiteSpace, new_line s)
            else take_loop treat_keyword_as_name skip_white_space (start_of_line (new_line s)))
         else if ch = CarriageReturn then
           (case skip_line_feed s of
              Inl e \<Rightarrow> Inl e
            | Inr (_, t) \<Rightarrow>
                if \<not> skip_white_space then Inr (WhiteSpace, new_line t)
                else take_loop treat_keyword_as_name skip_white_space (start_of_line (new_line t)))
         else if is_blank ch then
           (if \<not> skip_white_space then Inr (WhiteSpace, s)
            else take_loop treat_keyword_as_name skip_white_space (advance_start s))
         else if ch = Hash_char then
           take_loop treat_keyword_as_name skip_white_space (skip_comment (advance_start s))
         else (case punctuation ch of
             Some token \<Rightarrow> Inr (token, s)
           | None \<Rightarrow>
               if ch = DoubleQuote then scan_string_value s
               else if ch = Dot then scan_ellipses_after_first_dot s
               else if ch = Minus \<or> is_digit ch then scan_number s
               else if is_name_start ch then
                 (let (name_size, t) = scan_name_rest 1 s in
                  if treat_keyword_as_name then Inr (G_Name, t) else token_from_value name_size t)
               else Inr (Unknown, s)))
      else Inr (EndOfDocument, s0))"
  by pat_completeness auto
termination
proof (relation "measure (\<lambda>(k, w, s). source_size s - gs_position s)", goal_cases)
  case (5 k w s ch t)
  then show ?case
    using skip_comment_position [of "advance_start t"]
    by (simp add: cursor_simps source_size_def)
qed (auto simp: cursor_simps source_size_def dest!: skip_line_feed_Inr)

declare take_loop.simps [simp del]

definition take_next_token :: "bool \<Rightarrow> bool \<Rightarrow> (GraphQlScanner, GraphQlToken) exec" where
  "take_next_token treat_keyword_as_name skip_white_space s =
     take_loop treat_keyword_as_name skip_white_space (set_token_start_position s)"

function directive_location_loop :: "(GraphQlScanner, DirectiveLocation) exec" where
  "directive_location_loop s0 =
     (if gs_position s0 < source_size s0 then
        (let ch = gs_source s0 ! gs_position s0; s = increment_position s0 in
         if ch = NewLine then directive_location_loop (start_of_line (new_line s))
         else if ch = CarriageReturn then
           (case skip_line_feed s of
              Inl e \<Rightarrow> Inl e
            | Inr (_, t) \<Rightarrow> directive_location_loop (start_of_line (new_line t)))
         else if is_blank ch then directive_location_loop (advance_start s)
         else if is_name_start ch then
           (let (name_size, t) = scan_name_rest 1 s in
            case get_value t of
              Inl e \<Rightarrow> Inl e
            | Inr v \<Rightarrow> Inr (get_directive_from_value name_size (cstr v), t))
         else directive_location_loop s)
      else Inr (DL_EndOfDocument, s0))"
  by pat_completeness auto
termination
  by (relation "measure (\<lambda>s. source_size s - gs_position s)")
     (auto simp: cursor_simps source_size_def dest!: skip_line_feed_Inr)

declare directive_location_loop.simps [simp del]

definition scan_directive_location :: "(GraphQlScanner, DirectiveLocation) exec" where
  "scan_directive_location s = directive_location_loop (set_token_start_position s)"

section \<open>The remaining input\<close>

text \<open>
  The abstract view of the scanner: the input not yet consumed, and moving \<open>n\<close> characters
  forward on one line.  The sub-scanners of numbers are functions of the remaining input.
\<close>

definition rest :: "GraphQlScanner \<Rightarrow> ustring" where
  "rest s = drop (gs_position s) (gs_source s)"

definition move :: "nat \<Rightarrow> GraphQlScanner \<Rightarrow> GraphQlScanner" where
  "move n s = s\<lparr>gs_column := gs_column s + n, gs_position := gs_position s + n\<rparr>"

definition inside :: "GraphQlScanner \<Rightarrow> bool" where
  "inside s \<longleftrightarrow> gs_position s \<le> source_size s"

definition head_char :: "ustring \<Rightarrow> char32" where
  "head_char r = (case r of [] \<Rightarrow> NullCharacter | c # _ \<Rightarrow> c)"

lemma head_char_simps [simp]: "head_char [] = 0" "head_char (c # r) = c"
  by (simp_all add: head_char_def)

lemma move_0 [simp]: "move 0 s = s"
  by (simp add: move_def)

lemma move_move [simp]: "move m (move n s) = move (n + m) s"
  by (simp add: move_def add.assoc)

lemma increment_position_move: "increment_position s = move 1 s"
  by (simp add: increment_position_def move_def)

lemma move_simps [cursor_simps]:
  "gs_position (move n s) = gs_position s + n" "gs_source (move n s) = gs_source s"
  "gs_start_position (move n s) = gs_start_position s" "source_size (move n s) = source_size s"
  by (simp_all add: move_def source_size_def)

lemma rest_move [simp]: "rest (move n s) = drop n (rest s)"
  by (simp add: rest_def cursor_simps add.commute)

lemma inside_move [simp]: "inside s \<Longrightarrow> inside (move n s) \<longleftrightarrow> n \<le> length (rest s)"
  by (auto simp: inside_def cursor_simps rest_def source_size_def)

lemma current_char_rest: "inside s \<Longrightarrow> current_char s = Inr (head_char (rest s), s)"
  by (auto simp: current_char_def source_char_def ustring_at_def inside_def source_size_def rest_def
      drop_Cons_nth)

lemma wp_current_char [wp_simps]: "inside s \<Longrightarrow> wp current_char Q E s = Q (head_char (rest s)) s"
  by (simp add: wp_def current_char_rest)

lemma head_char_nonzero: "head_char r \<noteq> 0 \<Longrightarrow> r \<noteq> []"
  by auto

lemma is_digit_head: "is_digit (head_char r) \<Longrightarrow> r \<noteq> []"
  by (auto simp: is_digit_def)

subsection \<open>The number grammar\<close>

definition digits :: "ustring \<Rightarrow> nat" where
  "digits r = length (takeWhile is_digit r)"

lemma digits_Nil [simp]: "digits [] = 0"
  and digits_Cons [simp]: "digits (c # r) = (if is_digit c then Suc (digits r) else 0)"
  by (simp_all add: digits_def)

lemma digits_le: "digits r \<le> length r"
  by (simp add: digits_def length_takeWhile_le)

definition integer_lex :: "ustring \<Rightarrow> nat" where
  "integer_lex r = (if head_char r = Digit_0 then 1 else digits r)"

definition exponent_lex :: "ustring \<Rightarrow> nat \<times> GraphQlToken" where
  "exponent_lex r =
     (let sign = if head_char r = Minus \<or> head_char r = Plus then 1 else 0;
          d = digits (drop sign r)
      in (sign + d, if d = 0 then Unknown else FloatLiteral))"

definition number_lex :: "ustring \<Rightarrow> nat \<times> GraphQlToken" where
  "number_lex r =
     (let i = integer_lex r; c = head_char (drop i r) in
      if c = Dot then
        (let f = digits (drop (i + 1) r); n = i + 1 + f in
         if f = 0 then (n, Unknown)
         else if is_exponent_char (head_char (drop n r)) then
           (let (m, token) = exponent_lex (drop (n + 1) r) in (n + 1 + m, token))
         else (n, FloatLiteral))
      else if is_exponent_char c then
        (let (m, token) = exponent_lex (drop (i + 1) r) in (i + 1 + m, token))
      else (i, IntegerLiteral))"

lemma scan_digit_list_digits:
  assumes "inside s"
  shows "scan_digit_list s = Inr ((), move (digits (rest s)) s)"
  using assms
proof (induction "rest s" arbitrary: s)
  case Nil
  then show ?case
    by (subst scan_digit_list.simps) (simp add: current_char_rest is_digit_def flip: Nil.hyps(1))
next
  case (Cons c r)
  then have r: "rest s = c # r" by simp
  have "inside (move 1 s)" and "r = rest (move 1 s)"
    using Cons.prems r by simp_all
  from Cons.hyps(1) [OF this(2,1)] show ?case
    by (subst scan_digit_list.simps)
       (simp add: current_char_rest Cons.prems r increment_position_move)
qed

lemma inside_digits: "inside s \<Longrightarrow> inside (move (digits (rest s)) s)"
  by (simp add: digits_le)

lemma wp_scan_digit_list [wp_simps]:
  "inside s \<Longrightarrow> wp scan_digit_list Q E s = Q () (move (digits (rest s)) s)"
  by (simp add: wp_def scan_digit_list_digits)

lemma nonempty_head:
  "is_digit (head_char r) \<Longrightarrow> \<exists>c r'. r = c # r'"
  "is_exponent_char (head_char r) \<Longrightarrow> \<exists>c r'. r = c # r'"
  "head_char r = Suc n \<Longrightarrow> \<exists>c r'. r = c # r'"
  by (cases r; simp add: is_digit_def is_exponent_char_def)+

lemma scan_integer_part_lex:
  assumes "inside s"
  shows "\<exists>token. scan_integer_part s = Inr (token, move (integer_lex (rest s)) s)"
proof (cases "rest s")
  case Nil
  then show ?thesis
    using assms by (simp add: scan_integer_part_def exec_simps current_char_rest integer_lex_def
        is_digit_def)
next
  case (Cons c r)
  then have "inside (move 1 s)" using assms by simp
  then show ?thesis
    using assms Cons by (simp add: scan_integer_part_def exec_simps current_char_rest integer_lex_def
        increment_position_move scan_digit_list_digits)
qed

lemma scan_exponent_lex:
  assumes "inside s" and "rest s = e # r"
  shows "scan_exponent s = Inr (snd (exponent_lex r), move (1 + fst (exponent_lex r)) s)"
proof -
  have in1: "inside (move 1 s)" using assms by simp
  show ?thesis
  proof (cases r)
    case Nil
    then show ?thesis using assms in1
      by (simp add: scan_exponent_def exec_simps current_char_rest increment_position_move
          exponent_lex_def is_digit_def)
  next
    case (Cons c r')
    then have in2: "inside (move 2 s)" using assms by simp
    show ?thesis
    proof (cases r')
      case Nil
      then show ?thesis using assms in1 in2 Cons
        by (simp add: scan_exponent_def exec_simps current_char_rest increment_position_move
            exponent_lex_def is_digit_def scan_digit_list_digits)
    next
      case (Cons c' r'')
      then have in3: "inside (move 3 s)" using assms \<open>r = c # r'\<close> by simp
      show ?thesis using assms in1 in2 in3 Cons \<open>r = c # r'\<close>
        by (simp add: scan_exponent_def exec_simps current_char_rest increment_position_move
            exponent_lex_def is_digit_def scan_digit_list_digits)
    qed
  qed
qed

lemma integer_lex_le: "integer_lex r \<le> length r"
  using digits_le [of r] by (cases r) (auto simp: integer_lex_def)

lemma head_drop_nonempty: "head_char (drop n r) = c \<Longrightarrow> c \<noteq> 0 \<Longrightarrow> Suc n \<le> length r"
  by (metis Suc_leI drop_all head_char_simps(1) not_le)

lemma exponent_head_drop: "is_exponent_char (head_char (drop n r)) \<Longrightarrow> Suc n \<le> length r"
  by (metis drop_all head_char_simps(1) is_exponent_char_def not_less_eq_eq of_char_of of_nat_0
      nonempty_head(2) list.distinct(1))

lemma scan_exponent_at:
  assumes "inside s" and "is_exponent_char (head_char (drop n (rest s)))"
  shows "scan_exponent (move n s) =
    (let (m, token) = exponent_lex (drop (n + 1) (rest s)) in Inr (token, move (n + 1 + m) s))"
proof -
  obtain e r where er: "drop n (rest s) = e # r" using nonempty_head(2) assms(2) by blast
  then have "r = drop (n + 1) (rest s)"
    by (simp add: drop_Suc_Cons_eq)
  then show ?thesis
    using scan_exponent_lex [of "move n s" e r] assms er exponent_head_drop [OF assms(2)]
    by (simp add: split_beta add.assoc)
qed

lemma scan_number_lex:
  assumes "inside s"
  shows "scan_number s = (let (n, token) = number_lex (rest s) in Inr (token, move n s))"
proof -
  let ?r = "rest s" and ?i = "integer_lex (rest s)"
  obtain t where int: "scan_integer_part s = Inr (t, move ?i s)"
    using scan_integer_part_lex assms by blast
  have ini: "inside (move ?i s)" using assms integer_lex_le by simp
  show ?thesis
  proof (cases "head_char (drop ?i ?r) = Dot")
    case True
    then have in1: "inside (move (Suc ?i) s)" using assms head_drop_nonempty by simp
    let ?f = "digits (drop (Suc ?i) ?r)"
    let ?n = "Suc ?i + ?f"
    have inn: "inside (move ?n s)" using inside_digits [OF in1] by simp
    show ?thesis
    proof (cases "?f = 0")
      case True
      then have "\<not> is_digit (head_char (drop (Suc ?i) ?r))"
        using nonempty_head(1) by fastforce
      then show ?thesis
        using True \<open>head_char _ = Dot\<close> int ini in1
        by (simp add: scan_number_def number_lex_def exec_simps current_char_rest
            increment_position_move)
    next
      case False
      then obtain c r' where cr: "drop (Suc ?i) ?r = c # r'" and "is_digit c"
        by (cases "drop (Suc ?i) ?r") (auto split: if_splits)
      then have f: "?f = Suc (digits r')" and r': "drop (Suc (Suc ?i)) ?r = r'"
        by (simp_all add: drop_Suc_Cons_eq)
      have in2: "inside (move (Suc (Suc ?i)) s)" using inn f assms by simp
      show ?thesis
        using \<open>head_char _ = Dot\<close> int ini in1 in2 inn f cr \<open>is_digit c\<close> r'
          scan_exponent_at [OF assms, of ?n]
        by (simp add: scan_number_def number_lex_def exec_simps current_char_rest
            increment_position_move scan_digit_list_digits split_beta Let_def)
    qed
  next
    case False
    then show ?thesis
      using int ini scan_exponent_at [OF assms, of ?i] integer_lex_le [of ?r]
      by (simp add: scan_number_def number_lex_def exec_simps current_char_rest split_beta Let_def)
  qed
qed

text \<open>C18. \<open>scan_number\<close> is the number grammar of the scanner on the remaining input: an
  integer part (a single \<open>0\<close>, or all the digits), an optional fraction, an optional exponent. It
  returns the token the grammar gives and consumes exactly its text, from every state whose
  position is inside the source.\<close>

theorem scan_number_implements_grammar:
  assumes "inside s"
  shows "scan_number s = (let (n, token) = number_lex (rest s) in Inr (token, move n s))"
  using assms by (rule scan_number_lex)

theorem scan_number_implements_grammar_witness:
  "scan_number (move 1 (GraphQlScanner_new (u ''-12.5e3)''))) =
   Inr (FloatLiteral, move 7 (GraphQlScanner_new (u ''-12.5e3)'')))"
proof -
  have "inside (move 1 (GraphQlScanner_new (u ''-12.5e3)'')))" 
    by (simp add: inside_def move_def GraphQlScanner_new_def source_size_def)
  from scan_number_implements_grammar [OF this] show ?thesis
    by (simp add: rest_def move_def GraphQlScanner_new_def number_lex_def integer_lex_def
        exponent_lex_def is_digit_def is_exponent_char_def)
qed

section \<open>Totality and framing of the sub-scanners\<close>

lemma forward_move [simp]: "forward s (move n s)"
  by (simp add: forward_def move_def)

lemma hexadecimal_digits_total: "inside s \<Longrightarrow> \<exists>ok t. hexadecimal_digits n a b c s = Inr (ok, t)"
proof (induction n arbitrary: s)
  case 0
  then show ?case by (auto simp add: exec_simps current_char_rest)
next
  case (Suc n)
  show ?case
  proof (cases "is_hexadecimal (head_char (rest s))")
    case True
    then have "inside (move 1 s)"
      using Suc.prems by (cases "rest s") (auto simp: is_hexadecimal_def)
    with Suc.IH True Suc.prems show ?thesis
      by (simp add: exec_simps current_char_rest increment_position_move)
  next
    case False
    with Suc.prems show ?thesis by (auto simp add: exec_simps current_char_rest)
  qed
qed

lemma escape_sequence_total:
  assumes "inside s" and "rest s = c # r"
  shows "\<exists>ok t. scan_escape_sequence s = Inr (ok, t)"
proof -
  have in1: "inside (move 1 s)" using assms by simp
  have "inside (move 2 s)" if "head_char r = 117"
    using that assms by (cases r) auto
  then show ?thesis
    using in1 assms hexadecimal_digits_total
    by (auto simp: scan_escape_sequence_def exec_simps current_char_rest increment_position_move
        scan_hexadecimal_escape_def)
qed

lemma inside_head: "inside s \<Longrightarrow> head_char (rest s) \<noteq> 0 \<Longrightarrow> \<exists>r. rest s = head_char (rest s) # r"
  by (cases "rest s") auto

lemma string_literal_loop_total:
  "start \<le> length (gs_source s) \<Longrightarrow>
   \<exists>r t. string_literal_loop start tr s = Inr (r, t) \<and> forward s t"
proof (induction start tr s rule: string_literal_loop.induct)
  case (1 start tr s)
  show ?case
  proof (cases "gs_position s > source_size s")
    case True
    then show ?thesis by (subst string_literal_loop.simps) simp
  next
    case False
    then have ins: "inside s" by (simp add: inside_def)
    note ch = current_char_rest [OF ins]
    show ?thesis
    proof (cases "head_char (rest s) = Backslash")
      case True
      then obtain ok t where t: "scan_escape_sequence s = Inr (ok, t)"
        using escape_sequence_total [OF ins] inside_head [OF ins] by force
      then have "start \<le> length (gs_source t)"
        using escape_sequence_progress "1.prems" by simp
      then have rec: "ok \<Longrightarrow> \<exists>r t'. string_literal_loop start tr t = Inr (r, t') \<and> forward t t'"
        using "1.IH"(1) [OF False ch refl True t refl] by simp
      show ?thesis
      proof (cases ok)
        case True
        with rec obtain r t' where "string_literal_loop start tr t = Inr (r, t')" "forward t t'"
          by blast
        with True t False ch \<open>head_char (rest s) = Backslash\<close>
          forward_trans [OF forward_escape_sequence(1) [OF t]]
        show ?thesis by (subst string_literal_loop.simps) simp
      next
        case False
        with t ch \<open>head_char (rest s) = Backslash\<close> \<open>\<not> gs_position s > source_size s\<close>
          forward_escape_sequence(1) [OF t]
        show ?thesis by (subst string_literal_loop.simps) simp
      qed
    next
      case nb: False
      have start: "start \<le> length (gs_source (increment_position s))"
        using "1.prems" by (simp add: cursor_simps)
      consider (line) "head_char (rest s) = NewLine \<or> head_char (rest s) = CarriageReturn"
        | (quote) "head_char (rest s) = DoubleQuote"
        | (other) "\<not> (head_char (rest s) = NewLine \<or> head_char (rest s) = CarriageReturn)"
            "head_char (rest s) \<noteq> DoubleQuote" by blast
      then show ?thesis
      proof cases
        case line
        from "1.IH"(2) [OF False ch _ nb line start] False ch nb line forward_from_increment
        show ?thesis by (subst string_literal_loop.simps) fastforce
      next
        case quote
        with "1.prems" False ch show ?thesis
          by (subst string_literal_loop.simps) (auto simp: substr_def forward_def cursor_simps)
      next
        case other
        from "1.IH"(3) [OF False ch _ nb other start] False ch nb other forward_from_increment
        show ?thesis by (subst string_literal_loop.simps) fastforce
      qed
    qed
  qed
qed

lemma scan_string_literal_total:
  assumes "inside s"
  shows "\<exists>token t. scan_string_literal s = Inr (token, t) \<and> forward s t \<and> token \<noteq> EndOfDocument"
proof -
  let ?s = "s\<lparr>gs_string_literal := []\<rparr>"
  have "gs_position s \<le> length (gs_source ?s)" using assms by (simp add: inside_def source_size_def)
  then obtain r t where "string_literal_loop (gs_position s) False ?s = Inr (r, t)" "forward ?s t"
    using string_literal_loop_total by blast
  moreover from this(2) have "forward s t" by (simp add: forward_def)
  ultimately show ?thesis
    by (cases r) (auto simp: scan_string_literal_def exec_simps)
qed

lemma string_block_loop_total:
  "\<exists>token t. string_block_loop s = Inr (token, t) \<and> forward s t \<and> token \<noteq> EndOfDocument"
proof (induction s rule: string_block_loop.induct)
  case (1 s)
  show ?case
  proof (cases "gs_position s > source_size s")
    case True
    then show ?thesis by (subst string_block_loop.simps) simp
  next
    case False
    then have ch: "current_char s = Inr (head_char (rest s), s)"
      by (simp add: inside_def current_char_rest)
    let ?c = "head_char (rest s)"
    let ?s' = "s\<lparr>gs_string_literal := gs_string_literal s @ [?c]\<rparr>"
    have *: "forward (increment_position ?s') t \<Longrightarrow> forward s t" for t
      by (simp add: forward_def cursor_simps)
    define near triple where "near \<longleftrightarrow> ?c = DoubleQuote \<and> gs_position s + 2 \<ge> source_size s"
      and "triple \<longleftrightarrow> ?c = DoubleQuote \<and> gs_source s ! (gs_position s + 1) = DoubleQuote \<and>
        gs_source s ! (gs_position s + 2) = DoubleQuote"
    consider near | "\<not> near" triple | "\<not> near" "\<not> triple" "is_source_character ?c"
      | "\<not> near" "\<not> triple" "\<not> is_source_character ?c" by blast
    then show ?thesis
    proof cases
      case 3
      with "1.IH"(1) [OF False ch refl] * show ?thesis
        unfolding string_block_loop.simps [of s] near_def triple_def using False ch by fastforce
    next
      case 4
      with "1.IH"(2) [OF False ch refl] forward_from_increment show ?thesis
        unfolding string_block_loop.simps [of s] near_def triple_def using False ch by fastforce
    qed (use False ch in \<open>simp_all add: string_block_loop.simps [of s] near_def triple_def\<close>)
  qed
qed

lemma scan_string_value_total:
  assumes "inside s"
  shows "\<exists>token t. scan_string_value s = Inr (token, t) \<and> forward s t \<and> token \<noteq> EndOfDocument"
proof (cases "head_char (rest s) = DoubleQuote")
  case False
  then show ?thesis
    using scan_string_literal_total [OF assms] assms
    by (simp add: scan_string_value_def exec_simps current_char_rest)
next
  case True
  then have "gs_position s < source_size s"
    by (metis drop_all head_char_simps(1) inside_def leI rest_def source_size_def zero_neq_numeral)
  then obtain c where next_char: "source_char (Suc (gs_position s)) s = Inr (c, s)"
    by (cases "Suc (gs_position s) = length (gs_source s)")
       (auto simp: source_char_def ustring_at_def source_size_def)
  obtain token t where block:
    "string_block_loop ((increment_position (increment_position s))\<lparr>gs_string_literal := []\<rparr>)
       = Inr (token, t)" "forward s t" "token \<noteq> EndOfDocument"
    using string_block_loop_total [of "(increment_position (increment_position s))\<lparr>gs_string_literal := []\<rparr>"]
    by (auto simp: forward_def cursor_simps)
  then show ?thesis
    using True next_char scan_string_literal_total [OF assms] assms
    by (cases "c = DoubleQuote")
       (simp_all add: scan_string_value_def exec_simps current_char_rest
          scan_string_block_after_double_quotes_def)
qed

lemma scan_ellipses_total:
  assumes "inside s"
  shows "\<exists>token t. scan_ellipses_after_first_dot s = Inr (token, t) \<and> forward s t \<and>
    token \<noteq> EndOfDocument"
proof (cases "head_char (rest s) = Dot")
  case True
  then have "inside (move 1 s)" using assms by (cases "rest s") auto
  then show ?thesis
    using True assms by (simp add: scan_ellipses_after_first_dot_def exec_simps current_char_rest
        increment_position_move)
next
  case False
  then show ?thesis
    using assms by (simp add: scan_ellipses_after_first_dot_def exec_simps current_char_rest)
qed

lemma scan_number_total:
  assumes "inside s"
  shows "\<exists>token t. scan_number s = Inr (token, t) \<and> forward s t \<and> token \<noteq> EndOfDocument"
  using scan_number_lex [OF assms]
  by (auto simp: number_lex_def exponent_lex_def Let_def)

lemma scan_name_rest_lex:
  "scan_name_rest n s =
     (n + length (takeWhile is_name_part (rest s)), move (length (takeWhile is_name_part (rest s))) s)"
proof (induction "rest s" arbitrary: n s)
  case Nil
  then show ?case
    by (subst scan_name_rest.simps) (auto simp: rest_def source_size_def simp flip: Nil.hyps)
next
  case (Cons c r)
  then have r: "rest s = c # r" and r': "r = rest (move 1 s)" by (simp_all flip: Cons.hyps(2))
  then have "gs_position s < source_size s" "gs_source s ! gs_position s = c"
    by (auto simp: rest_def source_size_def drop_Cons_nth not_le intro: leI)
       (metis drop_eq_Nil linorder_not_le list.distinct(1), metis hd_drop_conv_nth list.sel(1)
          drop_eq_Nil linorder_not_le list.distinct(1))
  then show ?case
    using Cons.hyps(1) [OF r'] r
    by (subst scan_name_rest.simps) (simp add: increment_position_move)
qed

section \<open>One token\<close>

text \<open>Recorded line starts are only ever added to.\<close>

definition lines_grow :: "GraphQlScanner \<Rightarrow> GraphQlScanner \<Rightarrow> bool" where
  "lines_grow s t \<longleftrightarrow>
     take (length (gs_position_to_line_list s)) (gs_position_to_line_list t) = gs_position_to_line_list s"

lemma lines_grow_refl [simp]: "lines_grow s s"
  by (simp add: lines_grow_def)

lemma lines_grow_trans: "lines_grow s t \<Longrightarrow> lines_grow t r \<Longrightarrow> lines_grow s r"
  unfolding lines_grow_def by (metis length_take min.absorb_iff2 min_def take_take)

lemma lines_grow_simps [cursor_simps]:
  "lines_grow s (increment_position t) = lines_grow s t"
  "lines_grow s (start_of_line t) = lines_grow s t"
  "lines_grow s (advance_start t) = lines_grow s t"
  "lines_grow (increment_position s) t = lines_grow s t"
  "lines_grow (set_token_start_position s) t = lines_grow s t"
  "lines_grow (advance_start s) t = lines_grow s t"
  by (simp_all add: lines_grow_def cursor_simps)

lemma lines_grow_new_line [simp]: "lines_grow s t \<Longrightarrow> lines_grow s (new_line t)"
  by (simp add: lines_grow_def cursor_simps)
     (metis append_take_drop_id length_append length_take take_append min.cobounded1 nat_le_linear
        diff_is_0_eq' take_0 append_Nil2 take_all_iff)

text \<open>
  What a call that returned \<open>token\<close> did to the cursor: the source and the stack of saved cursors
  are untouched, and either the end of the source was reached or the token is a nonempty range
  ending at the new position.
\<close>

definition token_step :: "GraphQlScanner \<Rightarrow> GraphQlToken \<Rightarrow> GraphQlScanner \<Rightarrow> bool" where
  "token_step s token t \<longleftrightarrow>
     gs_source t = gs_source s \<and> gs_saved_text_cursors t = gs_saved_text_cursors s \<and>
     lines_grow s t \<and>
     gs_position s \<le> gs_position t \<and> gs_start_position s \<le> gs_start_position t \<and>
     (if token = EndOfDocument
      then source_size t \<le> gs_position t \<and> gs_start_position t \<le> gs_position t
      else gs_start_position t < gs_position t \<and> gs_position s < gs_position t)"

definition final_carriage_return :: "GraphQlScanner \<Rightarrow> bool" where
  "final_carriage_return s \<longleftrightarrow> gs_source s \<noteq> [] \<and> last (gs_source s) = CarriageReturn"

text \<open>Whitespace and comments: a step that stays between tokens.\<close>

definition skips :: "GraphQlScanner \<Rightarrow> GraphQlScanner \<Rightarrow> bool" where
  "skips s t \<longleftrightarrow> gs_source t = gs_source s \<and> gs_saved_text_cursors t = gs_saved_text_cursors s \<and>
     lines_grow s t \<and>
     gs_position s \<le> gs_position t \<and> gs_start_position s \<le> gs_start_position t \<and>
     gs_start_position t \<le> gs_position t"

lemma skips_token_step: "skips s t \<Longrightarrow> token_step t token r \<Longrightarrow> token_step s token r"
  by (auto simp: skips_def token_step_def intro: lines_grow_trans split: if_splits)

lemma skips_comment:
  "gs_start_position s \<le> gs_position s \<Longrightarrow> skips s (skip_comment s)"
proof (induction s rule: skip_comment.induct)
  case (1 s)
  then show ?case
    by (subst skip_comment.simps) (auto simp: skips_def cursor_simps)
qed

lemma forward_token_step:
  assumes "gs_start_position s \<le> gs_position s" and "forward (increment_position s) t"
    and "token \<noteq> EndOfDocument"
  shows "token_step s token t"
  using assms by (auto simp: token_step_def forward_def cursor_simps lines_grow_def)

lemma rest_ConsD:
  assumes "gs_position s < source_size s"
  shows "rest s = gs_source s ! gs_position s # drop 1 (rest s)"
  using assms by (simp add: rest_def source_size_def Cons_nth_drop_Suc)

lemma inside_increment: "gs_position s < source_size s \<Longrightarrow> inside (increment_position s)"
  by (simp add: inside_def cursor_simps)

lemma skip_line_feed_Inl:
  assumes "skip_line_feed (increment_position s) = Inl e" and "gs_position s < source_size s"
    and "gs_source s ! gs_position s = CarriageReturn"
  shows "final_carriage_return s"
proof -
  have "gs_position s = source_size s - 1"
    using assms(1,2)
    by (auto simp: skip_line_feed_def exec_simps source_char_def ustring_at_def source_size_def
        cursor_simps elim!: bind_InlE split: if_splits)
  then show ?thesis
    using assms(2,3)
    by (cases "gs_source s = []") (auto simp: final_carriage_return_def last_conv_nth source_size_def)
qed

lemma get_value_total:
  "gs_start_position s \<le> length (gs_source s) \<Longrightarrow> \<exists>v. get_value s = Inr v"
  by (simp add: get_value_def substr_def)

lemma if_neq: "a \<noteq> x \<Longrightarrow> b \<noteq> x \<Longrightarrow> (if c then a else b) \<noteq> x"
  by simp

lemma get_token_from_value_not_end: "get_token_from_value n v \<noteq> EndOfDocument"
  unfolding get_token_from_value_def by (intro if_neq) simp_all

lemma token_from_value_total:
  assumes "gs_start_position s \<le> length (gs_source s)"
  shows "\<exists>token t. token_from_value n s = Inr (token, t) \<and> forward s t \<and> token \<noteq> EndOfDocument"
  using get_value_total [OF assms] get_token_from_value_not_end
  by (auto simp: token_from_value_def Let_def forward_def)

lemmas sub_scanners_total =
  scan_string_value_total scan_ellipses_total scan_number_total

lemma wp_total:
  assumes "\<exists>token t. m s' = Inr (token, t) \<and> forward s' t \<and> token \<noteq> EndOfDocument"
    and "s' = increment_position s" and "gs_start_position s \<le> gs_position s"
  shows "wp m (token_step s) E s'"
  using assms forward_token_step by (auto simp: wp_def)

lemma wp_take_loop:
  "wp (take_loop k w) Q E s =
     (if gs_position s < source_size s then
        (let c = gs_source s ! gs_position s; t = increment_position s in
         if c = NewLine then
           if \<not> w then Q WhiteSpace (new_line t)
           else wp (take_loop k w) Q E (start_of_line (new_line t))
         else if c = CarriageReturn then
           wp skip_line_feed (\<lambda>_ r. if \<not> w then Q WhiteSpace (new_line r)
             else wp (take_loop k w) Q E (start_of_line (new_line r))) E t
         else if is_blank c then
           if \<not> w then Q WhiteSpace t else wp (take_loop k w) Q E (advance_start t)
         else if c = Hash_char then wp (take_loop k w) Q E (skip_comment (advance_start t))
         else (case punctuation c of
             Some token \<Rightarrow> Q token t
           | None \<Rightarrow>
               if c = DoubleQuote then wp scan_string_value Q E t
               else if c = Dot then wp scan_ellipses_after_first_dot Q E t
               else if c = Minus \<or> is_digit c then wp scan_number Q E t
               else if is_name_start c then
                 (let (n, r) = scan_name_rest 1 t in
                  if k then Q G_Name r else wp (token_from_value n) Q E r)
               else Q Unknown t))
      else Q EndOfDocument s)"
  unfolding wp_post take_loop.simps [of k w s] Let_def by (simp only: post_simps)

lemma wp_take_loop_skips:
  assumes "skips s t" and "gs_start_position t \<le> gs_position t \<Longrightarrow>
    wp (take_loop k w) (token_step t) (\<lambda>_. final_carriage_return t) t"
  shows "wp (take_loop k w) (token_step s) (\<lambda>_. final_carriage_return s) t"
  using assms skips_token_step by (auto elim!: wp_mono simp: skips_def final_carriage_return_def)

lemma punctuation_not_end: "punctuation c \<noteq> Some EndOfDocument"
  by (simp add: punctuation_def)

lemma wp_token:
  assumes "gs_position s < source_size s" and "gs_start_position s \<le> gs_position s"
  shows "wp scan_string_value (token_step s) E (increment_position s)"
    and "wp scan_ellipses_after_first_dot (token_step s) E (increment_position s)"
    and "wp scan_number (token_step s) E (increment_position s)"
    and "(n, r) = scan_name_rest 1 (increment_position s) \<Longrightarrow> token_step s G_Name r"
    and "(n, r) = scan_name_rest 1 (increment_position s) \<Longrightarrow> wp (token_from_value n) (token_step s) E r"
    and "token \<noteq> EndOfDocument \<Longrightarrow> token_step s token (increment_position s)"
    and "punctuation c = Some token \<Longrightarrow> token_step s token (increment_position s)"
proof -
  let ?s = "increment_position s"
  have ins: "inside ?s" and start: "gs_start_position ?s \<le> length (gs_source ?s)"
    using assms by (auto simp: inside_increment cursor_simps source_size_def)
  note token = wp_total [OF _ refl assms(2)]
  show "wp scan_string_value (token_step s) E ?s" "wp scan_ellipses_after_first_dot (token_step s) E ?s"
    "wp scan_number (token_step s) E ?s"
    using sub_scanners_total [OF ins] by (auto intro: token)
  assume r: "(n, r) = scan_name_rest 1 ?s"
  then have fwd: "forward ?s r" by (simp add: scan_name_rest_lex)
  then show "token_step s G_Name r" using forward_token_step assms(2) by simp
  from fwd start have "gs_start_position r \<le> length (gs_source r)" by (simp add: forward_def)
  from token_from_value_total [OF this, of n] fwd
  show "wp (token_from_value n) (token_step s) E r"
    using forward_trans forward_token_step [OF assms(2)] by (fastforce simp: wp_def)
next
  show *: "token_step s token (increment_position s)" if "token \<noteq> EndOfDocument"
    using forward_token_step assms(2) that by simp
  show "token_step s token (increment_position s)" if "punctuation c = Some token"
    using * that punctuation_not_end by metis
qed

lemma take_loop_wp:
  "gs_start_position s \<le> gs_position s \<Longrightarrow>
   wp (take_loop k w) (token_step s) (\<lambda>_. final_carriage_return s) s"
proof (induction k w s rule: take_loop.induct)
  case (1 k w s)
  let ?c = "gs_source s ! gs_position s" and ?s = "increment_position s"
  show ?case
  proof (cases "gs_position s < source_size s")
    case False
    then show ?thesis
      using "1.prems" by (simp add: wp_take_loop token_step_def)
  next
    case True
    note unfold = wp_take_loop [of k w _ _ s] True Let_def
    note IH = "1.IH" [OF True refl refl]
    have stop: "token_step s WhiteSpace (new_line t) \<and> skips s (start_of_line (new_line t))"
      if "t = ?s \<or> t = increment_position ?s" for t
      using that "1.prems" by (auto simp: token_step_def skips_def cursor_simps)
    consider (nl) "?c = NewLine" | (cr) "?c = CarriageReturn"
      | (blank) "?c \<noteq> NewLine" "?c \<noteq> CarriageReturn" "is_blank ?c"
      | (comment) "?c = Hash_char"
      | (token) "?c \<noteq> NewLine" "?c \<noteq> CarriageReturn" "\<not> is_blank ?c" "?c \<noteq> Hash_char"
      by blast
    then show ?thesis
    proof cases
      case nl
      have "w \<Longrightarrow> wp (take_loop k w) (token_step s) (\<lambda>_. final_carriage_return s)
          (start_of_line (new_line ?s))"
        using wp_take_loop_skips stop IH(1) nl by blast
      with nl stop show ?thesis by (simp add: unfold)
    next
      case cr
      show ?thesis
      proof (cases "skip_line_feed ?s")
        case (Inl e)
        with cr skip_line_feed_Inl [OF Inl True cr] show ?thesis
          by (simp add: unfold wp_def [of skip_line_feed])
      next
        case (Inr p)
        obtain x r where p: "p = (x, r)" by (cases p)
        note r = stop [OF conjunct1 [OF skip_line_feed_Inr [OF Inr [unfolded p]]]]
        then have "w \<Longrightarrow> wp (take_loop k w) (token_step s) (\<lambda>_. final_carriage_return s)
            (start_of_line (new_line r))"
          using wp_take_loop_skips IH(2) [OF _ cr Inr, of x r] cr p by simp
        with cr r Inr p show ?thesis by (simp add: unfold wp_def [of skip_line_feed])
      qed
    next
      case blank
      have "skips s (advance_start ?s)" using "1.prems" by (auto simp: skips_def cursor_simps)
      then have "w \<Longrightarrow> wp (take_loop k w) (token_step s) (\<lambda>_. final_carriage_return s)
          (advance_start ?s)"
        using wp_take_loop_skips IH(3) blank by blast
      with blank wp_token(6) [OF True "1.prems"] show ?thesis by (simp add: unfold)
    next
      case comment
      have "skips s (skip_comment (advance_start ?s))"
        using "1.prems" skips_comment [of "advance_start ?s"] by (auto simp: skips_def cursor_simps)
      then have "wp (take_loop k w) (token_step s) (\<lambda>_. final_carriage_return s)
          (skip_comment (advance_start ?s))"
        by (rule wp_take_loop_skips) (use IH(4) comment in \<open>simp add: is_blank_def\<close>)
      with comment show ?thesis by (simp add: unfold is_blank_def)
    next
      case token
      note tok = wp_token [OF True "1.prems"]
      obtain n r where nr: "(n, r) = scan_name_rest 1 ?s" by (metis surj_pair)
      from token tok(1-3) tok(4,5) [OF nr] tok(6) [of Unknown] tok(7) show ?thesis
        by (cases "punctuation ?c") (simp_all add: unfold nr [symmetric] del: One_nat_def)
    qed
  qed
qed

text \<open>C1. Memory safety and progress of \<open>take_next_token\<close>. From any state, on any source, with
  either treatment of keywords and white space, the call returns a token, unless the source ends
  in a carriage return. When it returns, the source and the saved cursors are untouched, and the
  token is either the end of the document with the position at or past the end, or a nonempty range
  of the source that ends at the new, strictly larger, position.\<close>

theorem take_next_token_safe:
  "case take_next_token treat_keyword_as_name skip_white_space s of
     Inl e \<Rightarrow> final_carriage_return s
   | Inr (token, t) \<Rightarrow>
       gs_source t = gs_source s \<and> gs_saved_text_cursors t = gs_saved_text_cursors s \<and>
       (if token = EndOfDocument then gs_position s \<le> gs_position t \<and> source_size t \<le> gs_position t
        else gs_position s \<le> gs_start_position t \<and> gs_start_position t < gs_position t)"
  using take_loop_wp [of "set_token_start_position s" treat_keyword_as_name skip_white_space]
  by (auto simp: wp_def take_next_token_def token_step_def final_carriage_return_def cursor_simps
      split: sum.splits if_splits)

section \<open>Operations built on one token\<close>

lemma take_next_token_step:
  assumes "take_next_token k w s = Inr (token, t)"
  shows "token_step (set_token_start_position s) token t"
  using take_loop_wp [of "set_token_start_position s" k w] assms
  by (simp add: wp_def take_next_token_def cursor_simps)

lemma take_next_token_frame:
  assumes "take_next_token k w s = Inr (token, t)"
  shows "gs_source t = gs_source s" and "gs_saved_text_cursors t = gs_saved_text_cursors s"
    and "gs_position s \<le> gs_position t"
  using take_next_token_step [OF assms] by (auto simp: token_step_def cursor_simps)

lemma take_next_token_at_end:
  "source_size s \<le> gs_position s \<Longrightarrow>
   take_next_token k w s = Inr (EndOfDocument, set_token_start_position s)"
  by (simp add: take_next_token_def take_loop.simps cursor_simps)

lemma take_next_token_progress:
  assumes "take_next_token k w s = Inr (token, t)" and "token \<noteq> EndOfDocument"
  shows "source_size t - gs_position t < source_size s - gs_position s"
proof -
  have "gs_position s < source_size s"
    using assms take_next_token_at_end [of s k w] by (cases "source_size s \<le> gs_position s") auto
  then show ?thesis
    using take_next_token_step [OF assms(1)] assms(2)
    by (auto simp: token_step_def cursor_simps source_size_def)
qed

lemma take_next_token_total:
  "\<not> final_carriage_return s \<Longrightarrow> \<exists>token t. take_next_token k w s = Inr (token, t)"
  using take_loop_wp [of "set_token_start_position s" k w]
  by (auto simp: wp_def take_next_token_def final_carriage_return_def cursor_simps split: sum.splits)

function skip_block_loop :: "int \<Rightarrow> bool \<Rightarrow> (GraphQlScanner, unit) exec" where
  "skip_block_loop matched_braces encountered_brace s =
     (case take_next_token False True s of
        Inl e \<Rightarrow> Inl e
      | Inr (token, t) \<Rightarrow>
          if token = EndOfDocument then Inr ((), t)
          else
            (let matched = (if token = OpenBrace then matched_braces + 1
                            else if token = CloseBrace then matched_braces - 1 else matched_braces);
                 encountered = (encountered_brace \<or> token = OpenBrace \<or> token = CloseBrace)
             in if encountered \<and> matched \<le> 0 then Inr ((), t)
                else skip_block_loop matched encountered t))"
  by pat_completeness auto
termination
  by (relation "measure (\<lambda>(m, b, s). source_size s - gs_position s)")
     (auto dest: take_next_token_progress)

declare skip_block_loop.simps [simp del]

definition skip_block :: "(GraphQlScanner, unit) exec" where
  "skip_block = skip_block_loop 0 False"

lemma save_simps [cursor_simps]:
  "gs_source (save s) = gs_source s" "gs_position (save s) = gs_position s"
  "source_size (save s) = source_size s"
  by (simp_all add: save_def source_size_def)

function skip_to :: "GraphQlToken list \<Rightarrow> (GraphQlScanner, GraphQlToken) exec" where
  "skip_to tokens s =
     (case take_next_token False True (save s) of
        Inl e \<Rightarrow> Inl e
      | Inr (token, t) \<Rightarrow>
          if token = EndOfDocument then Inr (token, t)
          else if token \<in> set tokens then bind revert (\<lambda>_. ret token) t
          else skip_to tokens t)"
  by pat_completeness auto
termination
  by (relation "measure (\<lambda>(ts, s). source_size s - gs_position s)")
     (auto dest: take_next_token_progress simp: cursor_simps)

declare skip_to.simps [simp del]

definition peek_next_token :: "(GraphQlScanner, GraphQlToken) exec" where
  "peek_next_token =
     bind (modify save) (\<lambda>_.
     bind (take_next_token False True) (\<lambda>token.
     bind revert (\<lambda>_. ret token)))"

definition try_scan :: "GraphQlToken \<Rightarrow> bool \<Rightarrow> bool \<Rightarrow> (GraphQlScanner, GraphQlToken) exec" where
  "try_scan token treat_keyword_as_name skip_white_space =
     bind (modify save) (\<lambda>_.
     bind (take_next_token treat_keyword_as_name skip_white_space) (\<lambda>result.
     if result = token then ret token else bind revert (\<lambda>_. ret result)))"

definition scan_expected :: "GraphQlToken \<Rightarrow> bool \<Rightarrow> bool \<Rightarrow> (GraphQlScanner, GraphQlToken) exec" where
  "scan_expected token treat_keyword_as_name skip_white_space =
     bind (take_next_token treat_keyword_as_name skip_white_space) (\<lambda>result.
     if result = token then ret token else ret result)"

function scan_rest_of_line :: "GraphQlScanner \<Rightarrow> GraphQlScanner" where
  "scan_rest_of_line s =
     (if gs_position s < source_size s \<and> \<not> is_line_break (gs_source s ! gs_position s)
      then scan_rest_of_line (increment_position s)
      else s)"
  by pat_completeness auto
termination
  by (relation "measure (\<lambda>s. source_size s - gs_position s)")
     (auto simp: cursor_simps source_size_def)

declare scan_rest_of_line.simps [simp del]

section \<open>Locations\<close>

text \<open>
  \<open>position_to_line_list[i]\<close> is undefined outside the list.  When \<open>mid\<close> is \<open>0\<close> the code's
  \<open>mid - 1\<close> is the largest \<open>std::size_t\<close>, and the next call reads the list in the middle of
  the address range, past its end.
\<close>

definition line_entry :: "GraphQlScanner \<Rightarrow> nat \<Rightarrow> flash_error + PositionToLine" where
  "line_entry s i =
     (if i < length (gs_position_to_line_list s) then Inr (gs_position_to_line_list s ! i)
      else Inl (Undefined_behaviour ''position_to_line_list out of range''))"

function search_for_line :: "GraphQlScanner \<Rightarrow> nat \<Rightarrow> nat \<Rightarrow> nat \<Rightarrow> flash_error + Location" where
  "search_for_line s start end' position =
     (if end' > start then
        (let mid = start + (end' - start) div 2 in
         case line_entry s mid of
           Inl e \<Rightarrow> Inl e
         | Inr position_line \<Rightarrow>
             if position < pl_position position_line then
               (if mid = 0 then Inl (Undefined_behaviour ''position_to_line_list out of range'')
                else search_for_line s start (mid - 1) position)
             else
               (case line_entry s (mid + 1) of
                  Inl e \<Rightarrow> Inl e
                | Inr next_line \<Rightarrow>
                    if position < pl_position next_line then
                      Inr \<lparr>loc_line = pl_line position_line,
                           loc_column = position - pl_position position_line + 1,
                           loc_length = 0, loc_end_of_source = False\<rparr>
                    else search_for_line s (mid + 1) end' position))
      else if end' = start then
        (case line_entry s end' of
           Inl e \<Rightarrow> Inl e
         | Inr position_line \<Rightarrow>
             if position \<ge> pl_position position_line \<and> position < source_size s then
               Inr \<lparr>loc_line = pl_line position_line,
                    loc_column = position - pl_position position_line + 1,
                    loc_length = 0, loc_end_of_source = False\<rparr>
             else Inl (Logic_error ''Could not find position''))
      else Inl (Logic_error ''Could not find position''))"
  by pat_completeness auto
termination
  by (relation "measure (\<lambda>(s, start, end', position). end' - start)") auto

declare search_for_line.simps [simp del]

definition get_token_location :: "GraphQlScanner \<Rightarrow> Syntax \<Rightarrow> flash_error + Location" where
  "get_token_location s syntax =
     map_sum id (\<lambda>location. location\<lparr>loc_length := sub64 (syntax_end syntax) (syntax_start syntax)\<rparr>)
       (search_for_line s 0 (sub64 (length (gs_position_to_line_list s)) 1) (syntax_start syntax))"

definition get_text_from_syntax :: "GraphQlScanner \<Rightarrow> Syntax \<Rightarrow> flash_error + ustring" where
  "get_text_from_syntax s syntax =
     substr (gs_source s) (syntax_start syntax) (sub64 (syntax_end syntax) (syntax_start syntax))"

definition get_value_from_syntax :: "GraphQlScanner \<Rightarrow> Syntax \<Rightarrow> flash_error + ustring" where
  "get_value_from_syntax s syntax = substr (gs_source s) (syntax_start syntax) (syntax_end syntax)"

definition get_string_value :: "GraphQlScanner \<Rightarrow> ustring" where
  "get_string_value s = gs_string_literal s"

definition get_name :: "GraphQlScanner \<Rightarrow> ustring" where
  "get_name s = gs_name s"

end
