(* ===== verification/GraphQlNodes.thy ===== *)
theory GraphQlNodes
  imports GraphQlScanner
begin

unbundle bit_operations_syntax

text \<open>
  The syntax nodes of \<open>src/program/graphql/graphql_syntaxes.h\<close> that a schema is made of.  A node is a record
  that extends \<open>Syntax\<close>; a pointer to a node that is not changed after its creation is the node itself,
  \<open>None\<close> where it may be null.  Two kinds of nodes are changed while other nodes point to them: the types
  (a later check resolves their names) and the declarations behind the symbols (a symbol is made before
  its declaration is read to the end).  They live in stores and a pointer to one is its index.  A
  \<open>std::map\<close> with string keys is an association list in the order of its keys.

  The members \<open>modifiers\<close> of \<open>Type\<close>, \<open>value\<close> of \<open>FloatValue\<close> and \<open>default_value\<close> are never read and left out.
\<close>

section \<open>Enumerations with bits\<close>

datatype (plugins only: code size) TypeEnum =
  T_None | T_Int | T_String | T_Float | T_Boolean | T_ID | T_Enum | T_Object | T_Interface | T_Union

primrec type_bits :: "TypeEnum \<Rightarrow> 32 word" where
  "type_bits T_None = 0"
| "type_bits T_Int = push_bit 1 1"
| "type_bits T_String = push_bit 2 1"
| "type_bits T_Float = push_bit 3 1"
| "type_bits T_Boolean = push_bit 4 1"
| "type_bits T_ID = push_bit 5 1"
| "type_bits T_Enum = push_bit 6 1"
| "type_bits T_Object = push_bit 7 1"
| "type_bits T_Interface = push_bit 8 1"
| "type_bits T_Union = push_bit 9 1"

definition T_StringType :: "32 word" where
  "T_StringType = type_bits T_String OR type_bits T_ID"

definition T_IntegerType :: "32 word" where
  "T_IntegerType = type_bits T_Int OR type_bits T_ID"

definition T_ObjectType :: "32 word" where
  "T_ObjectType = type_bits T_Object OR type_bits T_Union OR type_bits T_Interface"

definition T_SymbolicType :: "32 word" where
  "T_SymbolicType = type_bits T_Enum OR type_bits T_Object"

datatype (plugins only: code size) SymbolKind =
  SL_None | SL_InputObject | SL_Object | SL_Interface | SL_Enum | SL_Union

primrec symbol_bits :: "SymbolKind \<Rightarrow> 32 word" where
  "symbol_bits SL_None = 0"
| "symbol_bits SL_InputObject = push_bit 1 1"
| "symbol_bits SL_Object = push_bit 2 1"
| "symbol_bits SL_Interface = push_bit 3 1"
| "symbol_bits SL_Enum = push_bit 4 1"
| "symbol_bits SL_Union = push_bit 5 1"

definition Input_kinds :: "32 word" where
  "Input_kinds = symbol_bits SL_Enum OR symbol_bits SL_InputObject"

definition Output_kinds :: "32 word" where
  "Output_kinds = symbol_bits SL_Object OR symbol_bits SL_Interface OR symbol_bits SL_Enum OR symbol_bits SL_Union"

text \<open>What the masks select.\<close>

lemma type_masks:
  "type_bits t AND T_StringType = 0 \<longleftrightarrow> t \<notin> {T_String, T_ID}"
  "type_bits t AND T_IntegerType = 0 \<longleftrightarrow> t \<notin> {T_Int, T_ID}"
  "type_bits t AND T_ObjectType = 0 \<longleftrightarrow> t \<notin> {T_Object, T_Interface, T_Union}"
  "type_bits t AND T_SymbolicType = 0 \<longleftrightarrow> t \<notin> {T_Enum, T_Object}"
  by (cases t; simp add: T_StringType_def T_IntegerType_def T_ObjectType_def T_SymbolicType_def)+

lemma symbol_masks:
  "symbol_bits k AND symbol_bits SL_Enum > 0 \<longleftrightarrow> k = SL_Enum"
  "symbol_bits k AND Input_kinds > 0 \<longleftrightarrow> k \<in> {SL_Enum, SL_InputObject}"
  "symbol_bits k AND Output_kinds > 0 \<longleftrightarrow> k \<in> {SL_Object, SL_Interface, SL_Enum, SL_Union}"
  by (cases k; simp add: Input_kinds_def Output_kinds_def)+

section \<open>Maps with string keys\<close>

type_synonym 'a string_map = "(ustring \<times> 'a) list"

fun ustring_less :: "ustring \<Rightarrow> ustring \<Rightarrow> bool" where
  "ustring_less xs [] = False"
| "ustring_less [] (y # ys) = True"
| "ustring_less (x # xs) (y # ys) = (x < y \<or> x = y \<and> ustring_less xs ys)"

fun insert_key :: "ustring \<Rightarrow> 'a \<Rightarrow> 'a string_map \<Rightarrow> 'a string_map" where
  "insert_key k v [] = [(k, v)]"
| "insert_key k v ((k', v') # m) =
     (if ustring_less k k' then (k, v) # (k', v') # m else (k', v') # insert_key k v m)"

text \<open>\<open>emplace\<close> of \<open>std::map\<close>: a key that is there already keeps its value.\<close>

definition emplace :: "ustring \<Rightarrow> 'a \<Rightarrow> 'a string_map \<Rightarrow> 'a string_map" where
  "emplace k v m = (if map_of m k = None then insert_key k v m else m)"

lemma map_of_insert_key: "map_of m k = None \<Longrightarrow> map_of (insert_key k v m) = (map_of m)(k \<mapsto> v)"
  by (induction k v m rule: insert_key.induct) (auto simp: fun_upd_twist split: if_splits)

lemma length_insert_key [simp]: "length (insert_key k v m) = Suc (length m)"
  by (induction k v m rule: insert_key.induct) auto

text \<open>
  The contract of a table in which the first entry for a key stays: what a lookup gives after an entry was
  offered, and after a sequence of offers.
\<close>

locale first_entry_table =
  fixes offer :: "'k \<Rightarrow> 'v \<Rightarrow> 't \<Rightarrow> 't" and look :: "'t \<Rightarrow> 'k \<Rightarrow> 'v option"
  assumes look_offer: "look (offer k v t) j = (if j = k \<and> look t k = None then Some v else look t j)"
begin

lemma look_kept: "look t j = Some w \<Longrightarrow> look (offer k v t) j = Some w"
  by (auto simp: look_offer)

lemma look_offered: "look (offer k v t) k \<noteq> None"
  by (simp add: look_offer)

lemma look_fold: "look (fold (\<lambda>(k, v). offer k v) kvs t) j =
  (case look t j of Some w \<Rightarrow> Some w | None \<Rightarrow> map_of kvs j)"
  by (induction kvs arbitrary: t) (auto simp: look_offer split: option.splits)

end

interpretation string_table: first_entry_table emplace map_of
  by unfold_locales (auto simp: emplace_def map_of_insert_key)

section \<open>Nodes\<close>

type_synonym type_ref = nat
type_synonym declaration_ref = nat

record Name = Syntax +
  nm_identifier :: ustring

datatype Value =
    NullValue Syntax
  | BooleanValue Syntax bool
  | IntValue Syntax int
  | FloatValue Syntax ustring
  | EnumValue Syntax ustring
  | StringValue Syntax ustring
  | ObjectValue Syntax "ObjectField list"
  | ListValue Syntax "Value list"
and ObjectField = ObjectField Syntax Name "Value option"

primrec value_syntax :: "Value \<Rightarrow> Syntax" where
  "value_syntax (NullValue s) = s"
| "value_syntax (BooleanValue s b) = s"
| "value_syntax (IntValue s i) = s"
| "value_syntax (FloatValue s str) = s"
| "value_syntax (EnumValue s str) = s"
| "value_syntax (StringValue s str) = s"
| "value_syntax (ObjectValue s fs) = s"
| "value_syntax (ListValue s vs) = s"

record Type = Syntax +
  ty_type :: TypeEnum
  ty_is_non_null :: bool
  ty_is_list_type :: bool
  ty_is_non_null_list :: bool
  ty_in_input_location :: bool
  ty_name :: "Name option"
  ty_parent_directive_definition :: "ustring option"

record Argument = Syntax +
  ar_name :: Name
  ar_value :: "Value option"

record Directive = Syntax +
  di_name :: Name
  di_arguments :: "Argument string_map"
  di_parent_directive_definition :: "ustring option"
  di_location :: DirectiveLocation

record InputValueDefinition = Syntax +
  iv_name :: Name
  iv_description :: ustring
  iv_type :: "type_ref option"
  iv_directives :: "Directive string_map"

record FieldDefinition = Syntax +
  fdf_name :: Name
  fdf_description :: ustring
  fdf_arguments :: "InputValueDefinition string_map"
  fdf_type :: type_ref
  fdf_directives :: "Directive string_map"

record InputFieldDefinition = Syntax +
  ifd_name :: Name
  ifd_type :: type_ref
  ifd_directives :: "Directive string_map"

record EnumValueDefinition = Name +
  ev_description :: ustring
  ev_directives :: "Directive string_map"

record DirectiveDefinition = Syntax +
  dd_name :: Name
  dd_description :: ustring
  dd_arguments :: "InputValueDefinition string_map"
  dd_locations :: "DirectiveLocation list"

text \<open>
  The classes that derive from \<open>Declaration\<close>, with the members each adds; \<open>None\<close> where a member is a null
  pointer.
\<close>

datatype DeclarationBody =
    Object_body "FieldDefinition string_map option" "Name string_map option"
  | Interface_body "FieldDefinition string_map option"
  | InputObject_body "InputFieldDefinition string_map option" "ustring list"
  | Enum_body "EnumValueDefinition string_map"
  | Union_body "Name string_map"

record Declaration = Syntax +
  dc_name :: "Name option"
  dc_description :: ustring
  dc_directives :: "Directive string_map"
  dc_body :: DeclarationBody

record Symbol =
  sy_name :: ustring
  sy_declaration :: declaration_ref
  sy_kind :: SymbolKind

record Schema = Syntax +
  sm_directives :: "Directive string_map"
  sm_query :: "Name option"
  sm_mutation :: "Name option"
  sm_subscription :: "Name option"
  sm_query_key :: "Name option"
  sm_mutation_key :: "Name option"
  sm_subscription_key :: "Name option"

datatype Definition =
    Declaration_definition declaration_ref
  | Directive_definition DirectiveDefinition
  | Schema_definition Schema

end
