(* ===== verification/GraphQlLexing.thy ===== *)
theory GraphQlLexing
  imports GraphQlScanner
begin

text \<open>
  Properties of the GraphQL scanner as the parser uses it: its tokens are a function of the source
  and the position alone, look-ahead leaves no trace in them, names, keywords and strings are
  recognised with their text, and a token's line and column are found.
\<close>

section \<open>Tokens depend on the source and the position only\<close>

text \<open>
  Two scanner states that read the same token: same source, position and token start.  Lines,
  columns, errors, recorded line starts and saved cursors may differ.
\<close>

definition same_input :: "GraphQlScanner \<Rightarrow> GraphQlScanner \<Rightarrow> bool" where
  "same_input s t \<longleftrightarrow> gs_source s = gs_source t \<and> gs_position s = gs_position t \<and>
     gs_start_position s = gs_start_position t"

definition same_result :: "flash_error + ('a \<times> GraphQlScanner) \<Rightarrow> flash_error + ('a \<times> GraphQlScanner) \<Rightarrow> bool" where
  "same_result = rel_sum (=) (rel_prod (=) same_input)"

definition input_only :: "(GraphQlScanner, 'a) exec \<Rightarrow> bool" where
  "input_only m \<longleftrightarrow> (\<forall>s t. same_input s t \<longrightarrow> same_result (m s) (m t))"

named_theorems input_only_intros \<open>scanner operations that depend on the input only\<close>

lemma same_result_simps [simp]:
  "same_result (Inl e) (Inl e') \<longleftrightarrow> e = e'"
  "same_result (Inr (x, s)) (Inr (y, t)) \<longleftrightarrow> x = y \<and> same_input s t"
  "\<not> same_result (Inl e) (Inr p)" "\<not> same_result (Inr p) (Inl e)"
  by (simp_all add: same_result_def)

lemma input_onlyD: "input_only m \<Longrightarrow> same_input s t \<Longrightarrow> same_result (m s) (m t)"
  by (simp add: input_only_def)

lemma input_only_ret [input_only_intros]: "input_only (ret x)"
  by (simp add: input_only_def exec_simps)

lemma input_only_bind [input_only_intros]:
  assumes "input_only m" and "\<And>x. input_only (f x)"
  shows "input_only (bind m f)"
  unfolding input_only_def
proof (intro allI impI)
  fix s t assume "same_input s t"
  with assms(1) have "same_result (m s) (m t)" by (rule input_onlyD)
  then show "same_result (bind m f s) (bind m f t)"
    using assms(2) by (cases "m s"; cases "m t") (auto simp: bind_def input_only_def)
qed

lemma input_only_if [input_only_intros]:
  "input_only m \<Longrightarrow> input_only n \<Longrightarrow> input_only (if b then m else n)"
  by simp

lemma input_only_increment [input_only_intros]: "input_only (modify increment_position)"
  by (simp add: input_only_def exec_simps same_input_def cursor_simps)

lemma input_only_add_error [input_only_intros]:
  "input_only (modify (\<lambda>s. add_scanner_error (l s) d s))"
  by (simp add: input_only_def exec_simps same_input_def add_scanner_error_def)

lemma input_only_current_char [input_only_intros]: "input_only current_char"
  by (auto simp: input_only_def current_char_def source_char_def same_input_def ustring_at_def)

lemma input_only_source_char [input_only_intros]: "input_only (source_char i)"
  by (auto simp: input_only_def source_char_def same_input_def ustring_at_def)

lemma input_only_position [input_only_intros]: "input_only (gets gs_position)"
  by (simp add: input_only_def exec_simps same_input_def)

lemma same_inputD:
  assumes "same_input s t"
  shows "gs_source s = gs_source t" "gs_position s = gs_position t"
    "gs_start_position s = gs_start_position t" "source_size s = source_size t"
  using assms by (simp_all add: same_input_def source_size_def)

lemma same_input_updates [simp]:
  assumes "same_input s t"
  shows "same_input (increment_position s) (increment_position t)"
    "same_input (new_line s) (new_line t)" "same_input (start_of_line s) (start_of_line t)"
    "same_input (advance_start s) (advance_start t)"
    "same_input (s\<lparr>gs_string_literal := x\<rparr>) (t\<lparr>gs_string_literal := y\<rparr>)"
    "same_input (s\<lparr>gs_name := x\<rparr>) (t\<lparr>gs_name := y\<rparr>)" "same_input (move n s) (move n t)"
    "same_input (set_token_start_position s) (set_token_start_position t)"
  using assms by (simp_all add: same_input_def cursor_simps)

lemma current_char_same:
  assumes "same_input s t"
  obtains (err) e where "current_char s = Inl e" "current_char t = Inl e"
  | (char) c where "current_char s = Inr (c, s)" "current_char t = Inr (c, t)"
proof (cases "inside s")
  case True
  moreover have "inside t" "rest t = rest s"
    using True assms by (simp_all add: inside_def rest_def same_input_def source_size_def)
  ultimately show ?thesis using char by (simp add: current_char_rest)
next
  case False
  then show ?thesis
    using err assms
    by (simp add: current_char_def source_char_def ustring_at_def same_input_def inside_def source_size_def)
qed

lemma input_only_digit_list [input_only_intros]: "input_only scan_digit_list"
proof -
  have "same_result (scan_digit_list s) (scan_digit_list t)" if "same_input s t" for s t
    using that
  proof (induction s arbitrary: t rule: scan_digit_list.induct)
    case (1 s)
    from "1.prems" show ?case
      by (cases rule: current_char_same)
         (use "1.IH" "1.prems" in \<open>simp_all add: scan_digit_list.simps [of s] scan_digit_list.simps [of t]\<close>)
  qed
  then show ?thesis by (simp add: input_only_def)
qed

text \<open>The line and column of an escape go into its error message only.\<close>

lemma hexadecimal_digits_same:
  "same_input s t \<Longrightarrow>
   same_result (hexadecimal_digits n a b c s) (hexadecimal_digits n a' b' c' t)"
proof (induction n arbitrary: s t)
  case 0
  then show ?case
    by (cases rule: current_char_same) (simp_all add: exec_simps 0)
next
  case (Suc n)
  have "same_input (increment_position (add_scanner_error l d s))
     (increment_position (add_scanner_error l' d s'))" if "same_input s s'" for l l' d s s'
    using that by (simp add: same_input_def cursor_simps add_scanner_error_def)
  with Suc show ?case
    by (cases rule: current_char_same [OF Suc.prems]) (simp_all add: exec_simps)
qed

lemma escape_sequence_same:
  assumes "same_input s t"
  shows "same_result (scan_escape_sequence s) (scan_escape_sequence t)"
  using same_input_updates(1) [OF assms]
  by (cases rule: current_char_same)
     (simp_all add: scan_escape_sequence_def scan_hexadecimal_escape_def exec_simps assms
        hexadecimal_digits_same)

lemma string_literal_loop_same:
  assumes "same_input s t"
  shows "same_result (string_literal_loop start tr s) (string_literal_loop start tr t)"
  using assms
proof (induction start tr s arbitrary: t rule: string_literal_loop.induct)
  case (1 start tr s)
  note same = same_inputD [OF "1.prems"]
  note unfold = string_literal_loop.simps [of start tr s] string_literal_loop.simps [of start tr t]
  show ?case
  proof (cases "gs_position s > source_size s")
    case True
    then show ?thesis using same "1.prems" by (simp add: unfold)
  next
    case False
    from "1.prems" show ?thesis
    proof (cases rule: current_char_same)
      case (err e)
      then show ?thesis using False same by (simp add: unfold)
    next
      case (char c)
      note IH = "1.IH" [OF False char(1) refl]
      show ?thesis
      proof (cases "c = Backslash")
        case True
        have "same_result (scan_escape_sequence s) (scan_escape_sequence t)"
          using "1.prems" by (rule escape_sequence_same)
        then show ?thesis
          using IH(1) [OF True] False char True same
          by (cases "scan_escape_sequence s"; cases "scan_escape_sequence t") (auto simp: unfold)
      next
        case nb: False
        then show ?thesis
          using IH(2,3) [OF nb] False char same "1.prems"
          by (auto simp: unfold split: sum.split)
      qed
    qed
  qed
qed

lemma string_block_loop_same:
  assumes "same_input s t"
  shows "same_result (string_block_loop s) (string_block_loop t)"
  using assms
proof (induction s arbitrary: t rule: string_block_loop.induct)
  case (1 s)
  note same = same_inputD [OF "1.prems"]
  note unfold = string_block_loop.simps [of s] string_block_loop.simps [of t]
  show ?case
  proof (cases "gs_position s > source_size s")
    case True
    then show ?thesis using same "1.prems" by (simp add: unfold)
  next
    case False
    from "1.prems" show ?thesis
    proof (cases rule: current_char_same)
      case (err e)
      then show ?thesis using False same by (simp add: unfold)
    next
      case (char c)
      show ?thesis
        using "1.IH" [OF False char(1) refl] False char same "1.prems" by (simp add: unfold)
    qed
  qed
qed

lemma input_only_sub_scanners [input_only_intros]:
  "input_only scan_ellipses_after_first_dot" "input_only scan_number"
  unfolding scan_ellipses_after_first_dot_def scan_number_def scan_integer_part_def
    scan_exponent_def
  by (intro input_only_intros)+

lemma same_resultE:
  assumes "same_result p q"
  obtains (err) e where "p = Inl e" "q = Inl e"
  | (returns) x s t where "p = Inr (x, s)" "q = Inr (x, t)" "same_input s t"
  using assms by (cases p; cases q) (auto simp: same_result_def)

lemma scan_string_literal_same:
  assumes "same_input s t"
  shows "same_result (scan_string_literal s) (scan_string_literal t)"
proof -
  have error: "same_input (add_scanner_error l d r) (add_scanner_error l' d r')"
    if "same_input r r'" for l l' d r r'
    using that by (simp add: same_input_def add_scanner_error_def)
  have "same_result (string_literal_loop (gs_position s) False (s\<lparr>gs_string_literal := []\<rparr>))
      (string_literal_loop (gs_position s) False (t\<lparr>gs_string_literal := []\<rparr>))"
    using assms by (intro string_literal_loop_same) simp
  then show ?thesis
  proof (cases rule: same_resultE)
    case (err e)
    then show ?thesis
      using same_inputD(2) [OF assms] by (simp add: scan_string_literal_def exec_simps)
  next
    case (returns x s' t')
    then show ?thesis
      using same_inputD(2) [OF assms] error
      by (cases x) (simp_all add: scan_string_literal_def exec_simps)
  qed
qed

lemma input_only_string_value [input_only_intros]: "input_only scan_string_value"
proof -
  have "input_only scan_string_literal" "input_only string_block_loop"
    "input_only (modify (\<lambda>s. s\<lparr>gs_string_literal := []\<rparr>))"
    using scan_string_literal_same string_block_loop_same
    by (simp_all add: input_only_def exec_simps)
  then show ?thesis
    unfolding scan_string_value_def scan_string_block_after_double_quotes_def
    by (intro input_only_intros)
qed

lemma skip_comment_same:
  "same_input s t \<Longrightarrow> same_input (skip_comment s) (skip_comment t)"
proof (induction s arbitrary: t rule: skip_comment.induct)
  case (1 s)
  then show ?case
    using same_inputD [OF "1.prems"]
    by (simp add: skip_comment.simps [of s] skip_comment.simps [of t])
qed

lemma scan_name_rest_same:
  assumes "same_input s t"
  shows "\<exists>m. scan_name_rest n s = (n + m, move m s) \<and> scan_name_rest n t = (n + m, move m t)"
  using same_inputD [OF assms] by (simp add: scan_name_rest_lex rest_def)

lemma input_only_token_from_value [input_only_intros]: "input_only (token_from_value n)"
proof -
  have "get_value s = get_value t" if "same_input s t" for s t
    using that by (simp add: same_input_def get_value_def get_token_length_def)
  then show ?thesis
    by (auto simp: input_only_def token_from_value_def Let_def split: sum.split)
qed

lemma input_only_line_feed: "input_only skip_line_feed"
  unfolding skip_line_feed_def by (intro input_only_intros)

lemma take_loop_same:
  assumes "same_input s t"
  shows "same_result (take_loop k w s) (take_loop k w t)"
  using assms
proof (induction k w s arbitrary: t rule: take_loop.induct)
  case (1 k w s)
  note same = same_inputD [OF "1.prems"]
  show ?case
  proof (cases "gs_position s < source_size s")
    case False
    then show ?thesis using same "1.prems" by (simp add: take_loop.simps)
  next
    case True
    let ?c = "gs_source s ! gs_position s" and ?s = "increment_position s"
      and ?t = "increment_position t"
    have inc: "same_input ?s ?t" using "1.prems" by simp
    note unfold = take_loop.simps [of k w s] take_loop.simps [of k w t] Let_def same True [unfolded same]
    note IH = "1.IH" [OF True refl refl]
    consider (nl) "?c = NewLine" | (cr) "?c = CarriageReturn"
      | (blank) "?c \<noteq> NewLine" "?c \<noteq> CarriageReturn" "is_blank ?c"
      | (comment) "?c = Hash_char"
      | (token) "?c \<noteq> NewLine" "?c \<noteq> CarriageReturn" "\<not> is_blank ?c" "?c \<noteq> Hash_char"
      by blast
    then show ?thesis
    proof cases
      case nl
      with IH(1) inc show ?thesis by (simp add: unfold)
    next
      case cr
      have "same_result (skip_line_feed ?s) (skip_line_feed ?t)"
        using input_only_line_feed inc by (rule input_onlyD)
      with IH(2) cr show ?thesis
        by (cases "skip_line_feed ?s"; cases "skip_line_feed ?t") (auto simp: unfold)
    next
      case blank
      with IH(3) inc show ?thesis by (simp add: unfold)
    next
      case comment
      with IH(4) inc skip_comment_same show ?thesis by (simp add: unfold is_blank_def)
    next
      case token
      obtain m where "scan_name_rest 1 ?s = (1 + m, move m ?s)"
        "scan_name_rest 1 ?t = (1 + m, move m ?t)"
        using scan_name_rest_same [OF inc] by blast
      moreover have "same_result (m' ?s) (m' ?t)" if "m' \<in> {scan_string_value,
          scan_ellipses_after_first_dot, scan_number}" for m'
        using that input_only_intros inc by (auto intro: input_onlyD)
      moreover have "same_result (token_from_value (1 + m) (move m ?s)) (token_from_value (1 + m) (move m ?t))"
        using inc by (intro input_onlyD [OF input_only_token_from_value]) simp
      ultimately show ?thesis
        using token inc by (cases "punctuation ?c") (simp_all add: unfold)
    qed
  qed
qed

lemma take_next_token_same:
  "same_input s t \<Longrightarrow> same_result (take_next_token k w s) (take_next_token k w t)"
  by (simp add: take_next_token_def take_loop_same)

section \<open>Look-ahead\<close>

definition cursor_of :: "GraphQlScanner \<Rightarrow> SavedTextCursor" where
  "cursor_of s = \<lparr>c_position = gs_position s, c_line = gs_line s, c_column = gs_column s,
     c_start_position = gs_start_position s, c_start_line = gs_start_line s,
     c_start_column = gs_start_column s\<rparr>"

text \<open>What \<open>revert\<close> leaves, where it is defined.\<close>

definition reverted :: "GraphQlScanner \<Rightarrow> GraphQlScanner" where
  "reverted s = (case revert s of Inl _ \<Rightarrow> s | Inr (_, t) \<Rightarrow> t)"

lemma revert_reverted: "gs_saved_text_cursors s \<noteq> [] \<Longrightarrow> revert s = Inr ((), reverted s)"
  by (auto simp: reverted_def revert_def split: list.split)

lemma cursor_of_restore: "cursor_of (restore_cursor c s) = c"
  by (simp add: cursor_of_def restore_cursor_def)

interpretation gs_cursor: saved_cursor save reverted cursor_of gs_saved_text_cursors
proof unfold_locales
  show "cursor_of (save s) = cursor_of s" "gs_saved_text_cursors (save s) = cursor_of s # gs_saved_text_cursors s" for s
    by (simp_all add: save_def cursor_of_def)
next
  fix s :: GraphQlScanner and c cs assume "gs_saved_text_cursors s = c # cs"
  then have "reverted s = restore_cursor c (s\<lparr>gs_saved_text_cursors := cs\<rparr>)"
    by (simp add: reverted_def revert_def)
  then show "cursor_of (reverted s) = c" "gs_saved_text_cursors (reverted s) = cs"
    by (simp_all add: cursor_of_restore) (simp add: restore_cursor_def)
qed

lemma reverted_source: "gs_source (reverted s) = gs_source s"
  by (auto simp: reverted_def revert_def restore_cursor_def split: list.split)

lemma same_input_cursor: "cursor_of s = cursor_of t \<Longrightarrow> gs_source s = gs_source t \<Longrightarrow> same_input s t"
  by (simp add: cursor_of_def same_input_def)

text \<open>A token taken after a \<open>save\<close>: what the call finds, and what \<open>revert\<close> then gives back.\<close>

lemma take_after_save:
  assumes "take_next_token k w (save s) = Inr (token, t)"
  shows "\<exists>r. take_next_token k w s = Inr (token, r) \<and> same_input r t"
    and "gs_saved_text_cursors t = cursor_of s # gs_saved_text_cursors s"
    and "revert t = Inr ((), reverted t)"
    and "cursor_of (reverted t) = cursor_of s"
    and "gs_saved_text_cursors (reverted t) = gs_saved_text_cursors s"
    and "gs_source (reverted t) = gs_source s"
proof -
  have saved: "gs_saved_text_cursors t = gs_saved_text_cursors (save s)"
    using take_next_token_frame [OF assms] by simp
  then show "gs_saved_text_cursors t = cursor_of s # gs_saved_text_cursors s"
    by (simp add: gs_cursor.saved_save)
  then show "revert t = Inr ((), reverted t)" by (simp add: revert_reverted)
  show "cursor_of (reverted t) = cursor_of s"
    "gs_saved_text_cursors (reverted t) = gs_saved_text_cursors s"
    using gs_cursor.revert_after [OF saved] by simp_all
  show "gs_source (reverted t) = gs_source s"
    using take_next_token_frame [OF assms] by (simp add: reverted_source cursor_simps)
  have "same_input s (save s)" by (simp add: same_input_def save_def)
  from take_next_token_same [OF this, of k w]
  show "\<exists>r. take_next_token k w s = Inr (token, r) \<and> same_input r t"
    by (cases rule: same_resultE) (simp_all add: assms)
qed

text \<open>C16. One token of look-ahead. When \<open>peek_next_token\<close> returns, the cursor (position, line,
  column and token start) and the stack of saved cursors are as before, and the token it returned
  is the one the next \<open>take_next_token\<close> returns.\<close>

theorem peek_next_token_previews:
  assumes "peek_next_token s = Inr (token, t)"
  shows "cursor_of t = cursor_of s \<and> gs_saved_text_cursors t = gs_saved_text_cursors s \<and>
    (\<exists>r. take_next_token False True t = Inr (token, r))"
proof -
  from assms obtain t' where t': "take_next_token False True (save s) = Inr (token, t')"
    and t: "revert t' = Inr ((), t)"
    by (auto simp: peek_next_token_def exec_simps elim!: bind_InrE)
  note after = take_after_save [OF t']
  from after(3) t have [simp]: "t = reverted t'" by simp
  have "same_input s t" using after by (intro same_input_cursor) simp_all
  from take_next_token_same [OF this, of False True] after(1)
  have "\<exists>r. take_next_token False True t = Inr (token, r)"
    by (cases rule: same_resultE) auto
  with after show ?thesis by simp
qed

lemma try_scan_result:
  assumes "try_scan token k w s = Inr (result, t)"
  shows "\<exists>r. take_next_token k w s = Inr (result, r) \<and>
    (if result = token
     then same_input r t \<and> gs_saved_text_cursors t = cursor_of s # gs_saved_text_cursors s
     else cursor_of t = cursor_of s \<and> gs_saved_text_cursors t = gs_saved_text_cursors s \<and>
          gs_source t = gs_source s)"
proof -
  from assms obtain t' where t': "take_next_token k w (save s) = Inr (result, t')"
    and t: "if result = token then t = t' else revert t' = Inr ((), t)"
    by (auto simp: try_scan_def exec_simps elim!: bind_InrE split: if_splits)
  note after = take_after_save [OF t']
  from after t show ?thesis by (auto split: if_splits)
qed

text \<open>C23. \<open>try_scan\<close>. It returns the token the scanner is at. If that is the expected token, the
  token is consumed, and the saved cursor stays on the stack; otherwise the cursor and the stack are
  as before the call.\<close>

theorem try_scan_behaviour:
  assumes "try_scan token k w s = Inr (result, t)"
  shows "\<exists>r. take_next_token k w s = Inr (result, r) \<and>
    (if result = token
     then same_input r t \<and> gs_saved_text_cursors t = cursor_of s # gs_saved_text_cursors s
     else cursor_of t = cursor_of s \<and> gs_saved_text_cursors t = gs_saved_text_cursors s \<and>
          gs_source t = gs_source s)"
  using try_scan_result [OF assms] .

section \<open>Locations\<close>

lemma search_for_line_finds:
  assumes "start \<le> end'" and "end' < length (gs_position_to_line_list s)"
    and "position < source_size s"
    and "pl_position (gs_position_to_line_list s ! start) \<le> position"
    and "Suc end' < length (gs_position_to_line_list s) \<Longrightarrow>
      position < pl_position (gs_position_to_line_list s ! Suc end')"
  shows "\<exists>i < length (gs_position_to_line_list s).
    let entry = gs_position_to_line_list s ! i in
    pl_position entry \<le> position \<and>
    (Suc i < length (gs_position_to_line_list s) \<longrightarrow>
       position < pl_position (gs_position_to_line_list s ! Suc i)) \<and>
    search_for_line s start end' position =
      Inr \<lparr>loc_line = pl_line entry, loc_column = position - pl_position entry + 1,
           loc_length = 0, loc_end_of_source = False\<rparr>"
  using assms
proof (induction s start end' position rule: search_for_line.induct)
  case (1 s start end' position)
  let ?l = "gs_position_to_line_list s"
  let ?mid = "start + (end' - start) div 2"
  show ?case
  proof (cases "end' = start")
    case True
    then show ?thesis
      using "1.prems" by (intro exI [of _ start]) (simp add: search_for_line.simps line_entry_def)
  next
    case False
    then have lt: "start < end'" and mid: "?mid < end'" "start \<le> ?mid" using "1.prems" by auto
    then have entries: "line_entry s ?mid = Inr (?l ! ?mid)"
      "line_entry s (?mid + 1) = Inr (?l ! Suc ?mid)"
      using "1.prems" by (auto simp: line_entry_def)
    note unfold = search_for_line.simps [of s start end' position] lt Let_def entries
      entries(2) [unfolded Suc_eq_plus1 [symmetric]]
    consider (left) "position < pl_position (?l ! ?mid)"
      | (here) "\<not> position < pl_position (?l ! ?mid)" "position < pl_position (?l ! Suc ?mid)"
      | (right) "\<not> position < pl_position (?l ! ?mid)" "\<not> position < pl_position (?l ! Suc ?mid)"
      by blast
    then show ?thesis
    proof cases
      case left
      then have "?mid \<noteq> start" using "1.prems"(4) by (metis leD)
      then have "?mid \<noteq> 0" "start \<le> ?mid - 1" "?mid - 1 < length ?l" using mid "1.prems" by auto
      then show ?thesis
        using "1.IH"(1) [OF lt refl entries(1) left] left "1.prems" mid by (simp add: unfold)
    next
      case here
      then show ?thesis
        using "1.prems" mid by (intro exI [of _ ?mid]) (simp add: unfold)
    next
      case right
      then show ?thesis
        using "1.IH"(2) [OF lt refl entries(1) right(1) entries(2) right(2)] "1.prems" mid
        by (simp add: unfold)
    qed
  qed
qed
section \<open>States the parser can bring the scanner to\<close>

lemma wp_directive_location_loop:
  "wp directive_location_loop Q E s =
     (if gs_position s < source_size s then
        (let c = gs_source s ! gs_position s; t = increment_position s in
         if c = NewLine then wp directive_location_loop Q E (start_of_line (new_line t))
         else if c = CarriageReturn then
           wp skip_line_feed (\<lambda>_ r. wp directive_location_loop Q E (start_of_line (new_line r))) E t
         else if is_blank c then wp directive_location_loop Q E (advance_start t)
         else if is_name_start c then
           (let (n, r) = scan_name_rest 1 t in
            case get_value r of
              Inl e \<Rightarrow> E e
            | Inr v \<Rightarrow> Q (get_directive_from_value n (cstr v)) r)
         else wp directive_location_loop Q E t)
      else Q DL_EndOfDocument s)"
  unfolding wp_post directive_location_loop.simps [of s] Let_def
  by (simp only: post_simps) (simp add: post_def split: sum.split)

lemma skips_trans: "skips s t \<Longrightarrow> skips t r \<Longrightarrow> skips s r"
  by (auto simp: skips_def intro: lines_grow_trans)

lemma wp_directive_skips:
  assumes "skips s t" and "gs_start_position t \<le> gs_position t \<Longrightarrow>
    wp directive_location_loop (\<lambda>_. skips t) (\<lambda>_. final_carriage_return t) t"
  shows "wp directive_location_loop (\<lambda>_. skips s) (\<lambda>_. final_carriage_return s) t"
  using assms skips_trans by (auto elim!: wp_mono simp: skips_def final_carriage_return_def)

lemma directive_location_loop_wp:
  "gs_start_position s \<le> gs_position s \<Longrightarrow>
   wp directive_location_loop (\<lambda>_. skips s) (\<lambda>_. final_carriage_return s) s"
proof (induction s rule: directive_location_loop.induct)
  case (1 s)
  let ?c = "gs_source s ! gs_position s" and ?s = "increment_position s"
  show ?case
  proof (cases "gs_position s < source_size s")
    case False
    then show ?thesis using "1.prems" by (simp add: wp_directive_location_loop skips_def)
  next
    case True
    note unfold = wp_directive_location_loop [of _ _ s] True Let_def
    note IH = "1.IH" [OF True refl refl]
    have line: "skips s (start_of_line (new_line t))"
      if "t = ?s \<or> t = increment_position ?s" for t
      using that "1.prems" by (auto simp: skips_def cursor_simps)
    have sk: "skips s (advance_start ?s)" "skips s ?s"
      using "1.prems" by (simp_all add: skips_def cursor_simps)
    consider (nl) "?c = NewLine" | (cr) "?c = CarriageReturn"
      | (blank) "?c \<noteq> NewLine" "?c \<noteq> CarriageReturn" "is_blank ?c"
      | (name) "?c \<noteq> NewLine" "?c \<noteq> CarriageReturn" "\<not> is_blank ?c" "is_name_start ?c"
      | (other) "?c \<noteq> NewLine" "?c \<noteq> CarriageReturn" "\<not> is_blank ?c" "\<not> is_name_start ?c"
      by blast
    then show ?thesis
    proof cases
      case nl
      with wp_directive_skips [OF line] IH(1) show ?thesis by (simp add: unfold)
    next
      case cr
      show ?thesis
      proof (cases "skip_line_feed ?s")
        case (Inl e)
        with cr skip_line_feed_Inl [OF Inl True cr] show ?thesis
          by (simp add: unfold wp_def [of skip_line_feed])
      next
        case (Inr p)
        obtain x r where p: "p = (x, r)" by (cases p)
        note r = line [OF conjunct1 [OF skip_line_feed_Inr [OF Inr [unfolded p]]]]
        with cr Inr p wp_directive_skips [OF r] IH(2) [OF _ cr Inr, of x r] show ?thesis
          by (simp add: unfold wp_def [of skip_line_feed])
      qed
    next
      case blank
      with wp_directive_skips [OF sk(1)] IH(3) show ?thesis by (simp add: unfold)
    next
      case name
      obtain m where m: "scan_name_rest 1 ?s = (1 + m, move m ?s)"
        by (simp add: scan_name_rest_lex)
      have "gs_start_position (move m ?s) \<le> length (gs_source (move m ?s))"
        using True "1.prems" by (simp add: cursor_simps source_size_def)
      with get_value_total obtain v where "get_value (move m ?s) = Inr v" by blast
      moreover have "skips s (move m ?s)"
        using "1.prems" by (simp add: skips_def cursor_simps) (simp add: lines_grow_def move_def cursor_simps increment_position_def)
      ultimately show ?thesis using name m by (simp add: unfold del: One_nat_def)
    next
      case other
      with wp_directive_skips [OF sk(2)] IH(4) show ?thesis by (simp add: unfold)
    qed
  qed
qed

text \<open>
  The operations of the scanner that move it; all others (\<open>peek_next_token\<close>, \<open>try_scan\<close>,
  \<open>scan_expected\<close>, \<open>skip_block\<close>, \<open>skip_to\<close>) are made of these.
\<close>

inductive scanner_reachable :: "ustring \<Rightarrow> GraphQlScanner \<Rightarrow> bool" for source where
  start: "scanner_reachable source (GraphQlScanner_new source)"
| take: "scanner_reachable source s \<Longrightarrow> take_next_token k w s = Inr (token, t) \<Longrightarrow>
    scanner_reachable source t"
| directive: "scanner_reachable source s \<Longrightarrow> scan_directive_location s = Inr (location, t) \<Longrightarrow>
    scanner_reachable source t"
| save: "scanner_reachable source s \<Longrightarrow> scanner_reachable source (save s)"
| revert: "scanner_reachable source s \<Longrightarrow> revert s = Inr (x, t) \<Longrightarrow> scanner_reachable source t"
| set_start: "scanner_reachable source s \<Longrightarrow> scanner_reachable source (set_token_start_position s)"
| rest_of_line: "scanner_reachable source s \<Longrightarrow> scanner_reachable source (scan_rest_of_line s)"

lemma scan_rest_of_line_frame:
  "gs_source (scan_rest_of_line s) = gs_source s \<and>
   gs_position_to_line_list (scan_rest_of_line s) = gs_position_to_line_list s"
  by (induction s rule: scan_rest_of_line.induct)
     (subst (1 2) scan_rest_of_line.simps, simp add: cursor_simps)

lemma lines_grow_first:
  "lines_grow s t \<Longrightarrow> gs_position_to_line_list s \<noteq> [] \<Longrightarrow>
   gs_position_to_line_list t \<noteq> [] \<and> gs_position_to_line_list t ! 0 = gs_position_to_line_list s ! 0"
  unfolding lines_grow_def by (metis length_greater_0_conv nth_take take_eq_Nil)

lemma scanner_reachable_first_line:
  "scanner_reachable source s \<Longrightarrow>
   gs_source s = source \<and> gs_position_to_line_list s \<noteq> [] \<and>
   gs_position_to_line_list s ! 0 = \<lparr>pl_position = 0, pl_line = 1\<rparr>"
proof (induction rule: scanner_reachable.induct)
  case start
  then show ?case by (simp add: GraphQlScanner_new_def)
next
  case (take s k w token t)
  from take_next_token_step [OF take.hyps(2)] lines_grow_first [of s t] take.IH show ?case
    by (simp add: token_step_def cursor_simps)
next
  case (directive s location t)
  from directive_location_loop_wp [of "set_token_start_position s"] directive.hyps(2)
  have "skips (set_token_start_position s) t"
    by (simp add: scan_directive_location_def wp_def cursor_simps)
  with lines_grow_first [of s t] directive.IH show ?case by (simp add: skips_def cursor_simps)
next
  case (save s)
  then show ?case by (simp add: save_def)
next
  case (revert s x t)
  then show ?case by (auto simp: revert_def restore_cursor_def split: list.splits)
next
  case (set_start s)
  then show ?case by (simp add: cursor_simps)
next
  case (rest_of_line s)
  then show ?case using scan_rest_of_line_frame by metis
qed


section \<open>Names and keywords\<close>

lemma rest_position:
  assumes "rest s = c # r"
  shows "gs_position s < source_size s" and "gs_source s ! gs_position s = c"
proof -
  show pos: "gs_position s < source_size s"
    using assms by (metis drop_eq_Nil leI list.distinct(1) rest_def source_size_def)
  then show "gs_source s ! gs_position s = c"
    using rest_ConsD [OF pos] assms by simp
qed

lemma rest_start [simp]: "rest (set_token_start_position s) = rest s"
  by (simp add: rest_def cursor_simps)

lemma rest_increment: "rest s = c # r \<Longrightarrow> rest (increment_position s) = r"
  by (simp add: increment_position_move)

text \<open>The text of a token that ends after \<open>n\<close> characters of the input.\<close>

lemma get_value_move:
  "inside s \<Longrightarrow> gs_start_position s = gs_position s \<Longrightarrow> get_value (move n s) = Inr (take n (rest s))"
  by (simp add: get_value_def substr_def get_token_length_def cursor_simps rest_def inside_def
      source_size_def)

lemma name_start_char:
  assumes "is_name_start c"
  shows "c \<noteq> NewLine" "c \<noteq> CarriageReturn" "\<not> is_blank c" "c \<noteq> Hash_char" "punctuation c = None"
    "c \<noteq> DoubleQuote" "c \<noteq> Dot" "c \<noteq> Minus" "\<not> is_digit c"
  using assms unfolding is_name_start_def is_blank_def punctuation_def is_digit_def
  by (elim disjE conjE; simp)+

lemma takeWhile_append_stop:
  "\<forall>c \<in> set xs. P c \<Longrightarrow> \<not> P (head_char ys) \<or> ys = [] \<Longrightarrow> takeWhile P (xs @ ys) = xs"
  by (induction xs) (cases ys, simp_all)

lemma take_next_token_name_ahead:
  assumes "rest s = name @ r" and "name = c # cs" and "is_name_start c"
    and "list_all is_name_part cs" and "r = [] \<or> \<not> is_name_part (hd r)"
  shows "\<exists>t. take_next_token treat_keyword_as_name skip_white_space s =
      Inr (if treat_keyword_as_name then G_Name else lookup_or G_Name keyword_table name, t) \<and>
    get_value t = Inr name \<and> rest t = r"
proof -
  let ?s = "set_token_start_position s"
  let ?t = "move (length name) ?s"
  have ins: "inside ?s" and pos: "gs_position ?s < source_size ?s" "gs_source ?s ! gs_position ?s = c"
    using rest_position [of ?s c "cs @ r"] assms(1,2) by (auto simp: inside_def)
  have "takeWhile is_name_part (cs @ r) = cs"
    using assms(4,5) by (intro takeWhile_append_stop) (auto simp: list_all_iff head_char_def split: list.split)
  then have scan: "scan_name_rest 1 (increment_position ?s) = (length name, ?t)"
    using assms(1,2) by (simp add: scan_name_rest_lex increment_position_move)
  have val: "get_value ?t = Inr name"
    using get_value_move [OF ins, of "length name"] assms(1) by (simp add: cursor_simps)
  have "0 \<notin> set name"
    using assms(2-4) by (auto simp: list_all_iff is_name_start_def is_name_part_def)
  then have "token_from_value (length name) ?t =
      Inr (lookup_or G_Name keyword_table name,
           if lookup_or G_Name keyword_table name = G_Name then ?t\<lparr>gs_name := name\<rparr> else ?t)"
    by (simp add: token_from_value_def val Let_def get_token_from_value_lookup)
  moreover have "get_value (?t\<lparr>gs_name := name\<rparr>) = get_value ?t" "rest (?t\<lparr>gs_name := name\<rparr>) = rest ?t"
    by (simp_all add: get_value_def get_token_length_def rest_def)
  ultimately show ?thesis
    using name_start_char [OF assms(3)] pos scan val assms(1,3)
    by (simp add: take_next_token_def take_loop.simps [of _ _ ?s] Let_def del: One_nat_def)
qed

text \<open>C17. Names and keywords, by maximal munch. Wherever the input starts with a name followed by
  something that cannot continue it, \<open>take_next_token\<close> consumes exactly the name and returns its
  keyword token, found in the table of the language's keywords, or \<open>G_Name\<close> for any other name and
  whenever keywords are to be treated as names. The token's text is the name.\<close>

theorem take_next_token_name:
  assumes "rest s = name @ r" and "name = c # cs" and "is_name_start c"
    and "list_all is_name_part cs" and "r = [] \<or> \<not> is_name_part (hd r)"
  shows "\<exists>t. take_next_token treat_keyword_as_name skip_white_space s =
      Inr (if treat_keyword_as_name then G_Name else lookup_or G_Name keyword_table name, t) \<and>
    get_value t = Inr name \<and> rest t = r"
  using take_next_token_name_ahead [OF assms] .

theorem take_next_token_name_witness:
  "\<exists>t. take_next_token False True (GraphQlScanner_new (u ''type{'')) = Inr (TypeKeyword, t) \<and>
     get_value t = Inr (u ''type'') \<and> rest t = u ''{''"
proof -
  have "rest (GraphQlScanner_new (u ''type{'')) = u ''type'' @ u ''{''"
    by (simp add: rest_def GraphQlScanner_new_def)
  from take_next_token_name [OF this, of "of_char CHR ''t''" "u ''ype''" False True] show ?thesis
    by (simp add: is_name_start_def is_name_part_def lookup_or_def keyword_table_def)
qed

section \<open>String literals\<close>

definition plain_string_char :: "char32 \<Rightarrow> bool" where
  "plain_string_char c \<longleftrightarrow> c \<noteq> DoubleQuote \<and> c \<noteq> Backslash \<and> c \<noteq> NewLine \<and> c \<noteq> CarriageReturn"

lemma string_literal_loop_plain:
  assumes "inside s" and "rest s = body @ r" and "list_all plain_string_char body"
  shows "string_literal_loop start tr s = string_literal_loop start tr (move (length body) s)"
  using assms
proof (induction body arbitrary: s)
  case Nil
  then show ?case by simp
next
  case (Cons c body)
  have "string_literal_loop start tr s = string_literal_loop start tr (move 1 s)"
    using Cons.prems
    by (subst string_literal_loop.simps)
       (auto simp: current_char_rest inside_def plain_string_char_def increment_position_move)
  moreover have "inside (move 1 s)" "rest (move 1 s) = body @ r" using Cons.prems by simp_all
  ultimately show ?case using Cons.IH [of "move 1 s"] Cons.prems by simp
qed

lemma source_char_next:
  assumes "inside s" and "rest s \<noteq> []"
  shows "source_char (Suc (gs_position s)) s = Inr (head_char (drop 1 (rest s)), s)"
proof -
  have "inside (move 1 s)" using assms by (cases "rest s") simp_all
  from current_char_rest [OF this] show ?thesis
    by (auto simp: current_char_def source_char_def cursor_simps ustring_at_def split: if_splits)
qed

lemma take_next_token_quote:
  assumes "rest s = DoubleQuote # r" and "head_char r = DoubleQuote \<Longrightarrow> head_char (drop 1 r) \<noteq> DoubleQuote"
  shows "take_next_token k w s = scan_string_literal (increment_position (set_token_start_position s))"
proof -
  let ?s = "increment_position (set_token_start_position s)"
  have pos: "gs_position s < source_size s" "gs_source s ! gs_position s = DoubleQuote"
    using rest_position assms(1) by blast+
  have ins: "inside ?s" and r: "rest ?s = r"
    using pos rest_increment assms(1) by (simp_all add: inside_def cursor_simps)
  have "source_char (Suc (gs_position ?s)) ?s = Inr (head_char (drop 1 r), ?s)" if "r \<noteq> []"
    using source_char_next [OF ins] r that by simp
  then show ?thesis
    using pos ins r assms(2)
    by (cases r)
       (auto simp: take_next_token_def take_loop.simps [of _ _ "set_token_start_position s"] Let_def
          cursor_simps is_blank_def punctuation_def scan_string_value_def exec_simps bind_ret current_char_rest)
qed

text \<open>C20. String literals. Where the input is a double quote, text without quotes, backslashes and
  line breaks, and a closing quote (and not the start of a block string), \<open>take_next_token\<close>
  returns a string whose value is that text, and consumes the closing quote.\<close>

theorem take_next_token_string:
  assumes "rest s = [DoubleQuote] @ body @ [DoubleQuote] @ r" and "list_all plain_string_char body"
    and "body \<noteq> [] \<or> r = [] \<or> hd r \<noteq> DoubleQuote"
  shows "\<exists>t. take_next_token k w s = Inr (G_StringValue, t) \<and> get_string_value t = body \<and> rest t = r"
proof -
  let ?s = "(increment_position (set_token_start_position s))\<lparr>gs_string_literal := []\<rparr>"
  have *: "take_next_token k w s = scan_string_literal (increment_position (set_token_start_position s))"
  proof (rule take_next_token_quote)
    show "rest s = DoubleQuote # body @ DoubleQuote # r" using assms(1) by simp
    show "head_char (drop 1 (body @ DoubleQuote # r)) \<noteq> DoubleQuote"
      if "head_char (body @ DoubleQuote # r) = DoubleQuote"
      using that assms(2,3) by (cases body; cases r) (auto simp: plain_string_char_def)
  qed
  have ins: "inside ?s" and r: "rest ?s = body @ DoubleQuote # r"
    using rest_position [of s] assms(1) rest_increment [of "set_token_start_position s"]
    by (auto simp: inside_def cursor_simps source_size_def rest_def)
  let ?t = "move (length body) ?s"
  have t: "inside ?t" "rest ?t = DoubleQuote # r" using ins r by simp_all
  have "substr (gs_source ?t) (gs_position ?s) (gs_position ?t - gs_position ?s) = Inr body"
    using ins r by (simp add: substr_def cursor_simps inside_def source_size_def rest_def)
  then have "string_literal_loop (gs_position ?s) False ?s =
      Inr (Some False, increment_position (?t\<lparr>gs_string_literal := body\<rparr>))"
    using t string_literal_loop_plain [OF ins r assms(2)]
    by (simp add: string_literal_loop.simps [of _ _ ?t] current_char_rest)
       (simp add: inside_def move_def)
  moreover have "rest (increment_position (?t\<lparr>gs_string_literal := body\<rparr>)) = r"
    using t(2) by (intro rest_increment) (simp add: rest_def)
  ultimately show ?thesis
    using * by (simp add: scan_string_literal_def exec_simps get_string_value_def increment_position_def)
qed

theorem take_next_token_string_witness:
  "\<exists>t. take_next_token False True (GraphQlScanner_new [34, 97, 98, 34, 58]) = Inr (G_StringValue, t) \<and>
     get_string_value t = u ''ab'' \<and> rest t = u '':''"
proof -
  have "rest (GraphQlScanner_new [34, 97, 98, 34, 58]) = [DoubleQuote] @ u ''ab'' @ [DoubleQuote] @ u '':''"
    by (simp add: rest_def GraphQlScanner_new_def)
  from take_next_token_string [OF this, of False True] show ?thesis
    by (simp add: plain_string_char_def)
qed



lemmas scanner_eval = take_next_token_def take_loop.simps GraphQlScanner_new_def
  set_token_start_position_def source_size_def increment_position_def skip_line_feed_def exec_simps
  source_char_def ustring_at_def start_of_line_def new_line_def Let_def is_blank_def punctuation_def
  save_def revert_def restore_cursor_def

theorem peek_next_token_previews_witness:
  "\<exists>t. peek_next_token (GraphQlScanner_new (u '' {'')) = Inr (OpenBrace, t) \<and>
     cursor_of t = cursor_of (GraphQlScanner_new (u '' {'')) \<and>
     (\<exists>r. take_next_token False True t = Inr (OpenBrace, r))"
proof -
  obtain t where t: "peek_next_token (GraphQlScanner_new (u '' {'')) = Inr (OpenBrace, t)"
    by (simp add: peek_next_token_def scanner_eval advance_start_def)
  from peek_next_token_previews [OF t] t show ?thesis by blast
qed

theorem try_scan_behaviour_witness:
  "\<exists>t. try_scan CloseBrace False True (GraphQlScanner_new (u ''{'')) = Inr (OpenBrace, t) \<and>
     cursor_of t = cursor_of (GraphQlScanner_new (u ''{''))"
proof -
  obtain t where t: "try_scan CloseBrace False True (GraphQlScanner_new (u ''{'')) = Inr (OpenBrace, t)"
    by (simp add: try_scan_def scanner_eval)
  from try_scan_behaviour [OF t] t show ?thesis by auto
qed


section \<open>Skipping a block\<close>

text \<open>The tokens of the rest of the document, with the arguments \<open>skip_block\<close> scans with.\<close>

function tokens :: "GraphQlScanner \<Rightarrow> GraphQlToken list" where
  "tokens s =
     (case take_next_token False True s of
        Inl e \<Rightarrow> []
      | Inr (token, t) \<Rightarrow> if token = EndOfDocument then [] else token # tokens t)"
  by pat_completeness auto
termination
  by (relation "measure (\<lambda>s. source_size s - gs_position s)") (auto dest: take_next_token_progress)

declare tokens.simps [simp del]

definition brace_depth :: "GraphQlToken list \<Rightarrow> int" where
  "brace_depth ts = int (count_list ts OpenBrace) - int (count_list ts CloseBrace)"

definition closes :: "int \<Rightarrow> bool \<Rightarrow> GraphQlToken list \<Rightarrow> bool" where
  "closes m b ts \<longleftrightarrow> (b \<or> OpenBrace \<in> set ts \<or> CloseBrace \<in> set ts) \<and> m + brace_depth ts \<le> 0"

lemma closes_Cons:
  "closes m b (t # ts) = closes (m + brace_depth [t]) (b \<or> t = OpenBrace \<or> t = CloseBrace) ts"
  by (auto simp: closes_def brace_depth_def)

text \<open>
  \<open>block_prefix m b ts us\<close>: \<open>us\<close> is what is left of \<open>ts\<close> after its shortest nonempty prefix that
  closes the block, or nothing where no prefix does.
\<close>

definition block_prefix :: "int \<Rightarrow> bool \<Rightarrow> GraphQlToken list \<Rightarrow> GraphQlToken list \<Rightarrow> bool" where
  "block_prefix m b ts us \<longleftrightarrow>
     (\<exists>n \<le> length ts. us = drop n ts \<and> (\<forall>i. 0 < i \<and> i < n \<longrightarrow> \<not> closes m b (take i ts)) \<and>
        (0 < n \<and> closes m b (take n ts) \<or>
         n = length ts \<and> (0 < n \<longrightarrow> \<not> closes m b ts)))"

lemma block_prefix_Nil: "block_prefix m b [] []"
  by (simp add: block_prefix_def)

lemma block_prefix_here: "closes m b [t] \<Longrightarrow> block_prefix m b (t # ts) ts"
  unfolding block_prefix_def by (intro exI [of _ 1]) auto

lemma block_prefix_later:
  assumes "\<not> closes m b [t]"
    and "block_prefix (m + brace_depth [t]) (b \<or> t = OpenBrace \<or> t = CloseBrace) ts us"
  shows "block_prefix m b (t # ts) us"
proof -
  from assms(2) obtain n where n: "n \<le> length ts" "us = drop n ts"
    and before: "\<And>i. 0 < i \<and> i < n \<Longrightarrow> \<not> closes m b (t # take i ts)"
    and at_end: "0 < n \<and> closes m b (t # take n ts) \<or> n = length ts \<and> (0 < n \<longrightarrow> \<not> closes m b (t # ts))"
    unfolding block_prefix_def closes_Cons by blast
  have "\<not> closes m b (take i (t # ts))" if "0 < i" "i < Suc n" for i
    using that before [of "i - 1"] assms(1) by (cases "i = 1") (auto simp: take_Cons' gr0_conv_Suc)
  with n at_end assms(1) show ?thesis
    unfolding block_prefix_def by (intro exI [of _ "Suc n"]) auto
qed

lemma final_carriage_return_take:
  "take_next_token k w s = Inr (token, t) \<Longrightarrow> final_carriage_return t = final_carriage_return s"
  by (simp add: final_carriage_return_def take_next_token_frame)

lemma skip_block_loop_spec:
  "\<not> final_carriage_return s \<Longrightarrow>
   \<exists>t. skip_block_loop m b s = Inr ((), t) \<and> block_prefix m b (tokens s) (tokens t)"
proof (induction m b s rule: skip_block_loop.induct)
  case (1 m b s)
  then obtain token t where t: "take_next_token False True s = Inr (token, t)"
    using take_next_token_total by blast
  note unfold = skip_block_loop.simps [of m b s] tokens.simps [of s] t Let_def
  let ?m = "if token = OpenBrace then m + 1 else if token = CloseBrace then m - 1 else m"
  let ?b = "b \<or> token = OpenBrace \<or> token = CloseBrace"
  have m: "m + brace_depth [token] = ?m" by (simp add: brace_depth_def)
  have closes: "closes m b [token] \<longleftrightarrow> ?b \<and> ?m \<le> 0"
    using m by (auto simp: closes_def)
  have step: "skip_block_loop m b s =
      (if token = EndOfDocument \<or> closes m b [token] then Inr ((), t) else skip_block_loop ?m ?b t)"
    unfolding closes by (simp add: unfold)
  consider (stop) "token = EndOfDocument" | (here) "token \<noteq> EndOfDocument" "closes m b [token]"
    | (later) "token \<noteq> EndOfDocument" "\<not> closes m b [token]" by blast
  then show ?case
  proof cases
    case stop
    have "tokens t = []"
      using take_next_token_step [OF t] stop take_next_token_at_end [of t]
      by (simp add: token_step_def tokens.simps [of t])
    with stop block_prefix_Nil show ?thesis by (simp add: step tokens.simps [of s] t)
  next
    case here
    with block_prefix_here [OF here(2)] show ?thesis by (simp add: step tokens.simps [of s] t)
  next
    case later
    have "\<exists>r. skip_block_loop ?m ?b t = Inr ((), r) \<and> block_prefix ?m ?b (tokens t) (tokens r)"
      using "1.IH" [OF t refl later(1) refl refl] later(2) "1.prems" closes
        final_carriage_return_take [OF t] by blast
    then obtain r where "skip_block_loop ?m ?b t = Inr ((), r)" "block_prefix ?m ?b (tokens t) (tokens r)"
      by blast
    with later m block_prefix_later [OF later(2), of "tokens t" "tokens r"] show ?thesis
      by (simp add: step tokens.simps [of s] t)
  qed
qed



section \<open>Deviations from the GraphQL grammar\<close>

text \<open>C31. An integer whose second character is the digit zero is cut after it: on \<open>100\<close> the
  scanner returns the integer \<open>10\<close> and then the integer \<open>0\<close>.  (The sign and the first digit are consumed
  before \<open>scan_integer_part\<close> runs, which takes what follows for the first digit.)\<close>

theorem integer_cut_after_zero:
  assumes "rest s = [d, Digit_0, e] @ r" and "is_digit d" and "is_digit e"
  shows "\<exists>t. take_next_token k w s = Inr (IntegerLiteral, t) \<and> get_value t = Inr [d, Digit_0] \<and>
    rest t = e # r"
proof -
  let ?s = "set_token_start_position s"
  have pos: "gs_position ?s < source_size ?s" "gs_source ?s ! gs_position ?s = d"
    using rest_position [of s d] assms(1) by (auto simp: cursor_simps)
  have ins: "inside ?s" "inside (increment_position ?s)"
    using pos by (auto simp: inside_def cursor_simps)
  have r: "rest (increment_position ?s) = Digit_0 # e # r"
    using rest_increment [of ?s] assms(1) by simp
  have "number_lex (Digit_0 # e # r) = (1, IntegerLiteral)"
    using assms(3) by (simp add: number_lex_def integer_lex_def is_digit_def is_exponent_char_def)
  with scan_number_lex [OF ins(2)] r have "scan_number (increment_position ?s) = Inr (IntegerLiteral, move 2 ?s)"
    by (simp add: increment_position_move numeral_2_eq_2)
  moreover have "d \<noteq> NewLine" "d \<noteq> CarriageReturn" "\<not> is_blank d" "d \<noteq> Hash_char" "punctuation d = None"
    "d \<noteq> DoubleQuote" "d \<noteq> Dot"
    using assms(2) by (simp_all add: is_digit_def is_blank_def punctuation_def)
  moreover have "get_value (move 2 ?s) = Inr [d, Digit_0]"
    using get_value_move [OF ins(1), of 2] assms(1) by (simp add: cursor_simps)
  ultimately show ?thesis
    using pos assms by (simp add: take_next_token_def take_loop.simps [of _ _ ?s] Let_def)
qed

theorem integer_cut_after_zero_witness:
  "\<exists>t. take_next_token False True (GraphQlScanner_new (u ''100'')) = Inr (IntegerLiteral, t) \<and>
     get_value t = Inr (u ''10'') \<and> rest t = u ''0''"
proof -
  have "rest (GraphQlScanner_new (u ''100'')) = [49, Digit_0, 48] @ []"
    by (simp add: rest_def GraphQlScanner_new_def)
  from integer_cut_after_zero [OF this, of False True] show ?thesis by (simp add: is_digit_def)
qed

text \<open>The look-ahead after a carriage return reads one character too far. A source that ends in
  a carriage return is read out of bounds; in carriage return, \<open>c\<close>, line feed the character \<open>c\<close> is lost,
  whatever it is; and a carriage return with its line feed counts as two lines.\<close>

theorem carriage_return_lookahead:
  "(\<exists>e. take_next_token k True (GraphQlScanner_new [CarriageReturn]) = Inl (Undefined_behaviour e)) \<and>
   (\<exists>t. take_next_token k True (GraphQlScanner_new [CarriageReturn, c, NewLine]) = Inr (EndOfDocument, t)) \<and>
   (\<exists>t. take_next_token k True (GraphQlScanner_new [CarriageReturn, NewLine, 58]) = Inr (Colon, t) \<and>
      gs_line t = 3)"
  by (simp add: scanner_eval)

end
