(* ===== verification/Utils.thy ===== *)
theory Utils
  imports Prelude
begin

text \<open>
  The string helpers of \<open>src/lib/utils.h\<close> and \<open>src/lib/utils.cpp\<close>: \<open>std::string::find\<close> and
  \<open>substr\<close> as the helpers use them, \<open>replace_all\<close>, \<open>join_vector\<close>, the two \<open>split_string\<close> templates,
  \<open>folder_path\<close> and \<open>reverse_map\<close>.  The loops over \<open>find\<close> need not end, so they are partial functions
  whose value is \<open>None\<close> when the call does not return.  The helpers that handle files are in the theory
  \<open>Files\<close>.
\<close>

section \<open>The members of \<open>std::string\<close> the helpers call\<close>

definition matches_at :: "ustring \<Rightarrow> ustring \<Rightarrow> nat \<Rightarrow> bool" where
  "matches_at s t i \<longleftrightarrow> i + length t \<le> length s \<and> take (length t) (drop i s) = t"

text \<open>\<open>s.find(t, pos)\<close>: the first match at or behind \<open>pos\<close>; \<open>None\<close> is \<open>npos\<close>.\<close>

definition find_from :: "ustring \<Rightarrow> ustring \<Rightarrow> nat \<Rightarrow> nat option" where
  "find_from s t pos = List.find (matches_at s t) [pos..<length s + 1]"

text \<open>\<open>s.substr(pos, n)\<close>, where \<open>n\<close> may be \<open>npos\<close>.\<close>

definition substr_of :: "ustring \<Rightarrow> nat \<Rightarrow> nat \<Rightarrow> ustring" where
  "substr_of s pos n = take n (drop pos s)"

lemma find_from_SomeD:
  assumes "find_from s t pos = Some i"
  shows "pos \<le> i" "matches_at s t i" "\<forall>j. pos \<le> j \<and> j < i \<longrightarrow> \<not> matches_at s t j"
proof -
  from assms obtain k where k: "k < length [pos..<length s + 1]" "matches_at s t ([pos..<length s + 1] ! k)"
    "i = [pos..<length s + 1] ! k" "\<forall>j<k. \<not> matches_at s t ([pos..<length s + 1] ! j)"
    unfolding find_from_def find_Some_iff by blast
  then have i: "i = pos + k" by (simp add: nth_append split: if_splits)
  show "pos \<le> i" "matches_at s t i" using k i by auto
  show "\<forall>j. pos \<le> j \<and> j < i \<longrightarrow> \<not> matches_at s t j"
  proof (intro allI impI)
    fix j assume j: "pos \<le> j \<and> j < i"
    then have "j - pos < k" "[pos..<length s + 1] ! (j - pos) = j" using i k(1) by (auto simp: nth_append)
    with k(4) show "\<not> matches_at s t j" by auto
  qed
qed

lemma find_from_eq_Some:
  assumes "pos \<le> i" "matches_at s t i" "\<And>j. pos \<le> j \<Longrightarrow> j < i \<Longrightarrow> \<not> matches_at s t j"
  shows "find_from s t pos = Some i"
proof (cases "find_from s t pos")
  case None
  then have "\<not> matches_at s t i"
    unfolding find_from_def find_None_iff using assms(1) by (cases "i < length s + 1") (auto simp: matches_at_def)
  with assms(2) show ?thesis by blast
next
  case (Some k)
  from find_from_SomeD [OF Some] assms show ?thesis using Some by (metis linorder_cases)
qed

lemma find_from_None: "find_from s t pos = None \<longleftrightarrow> (\<forall>i \<ge> pos. \<not> matches_at s t i)"
  unfolding find_from_def find_None_iff by (auto simp: matches_at_def)

section \<open>Replacing\<close>

text \<open>The loop of \<open>replace_all\<close>, with the string and the position to search from.\<close>

partial_function (option) replace_loop ::
  "ustring \<Rightarrow> ustring \<Rightarrow> ustring \<Rightarrow> nat \<Rightarrow> ustring option" where
  "replace_loop pat to str start_pos =
     (case find_from str pat start_pos of
        None \<Rightarrow> Some str
      | Some i \<Rightarrow>
          replace_loop pat to (take i str @ to @ drop (i + length pat) str) (i + length to))"

definition replace_all :: "ustring \<Rightarrow> ustring \<Rightarrow> ustring \<Rightarrow> ustring option" where
  "replace_all str pat to = replace_loop pat to str 0"

text \<open>
  The reference: replacing the occurrences one after the other from the left, where the text put in is not
  searched again.
\<close>

function replaced :: "ustring \<Rightarrow> ustring \<Rightarrow> ustring \<Rightarrow> ustring" where
  "replaced pat to s =
     (if pat = [] then s
      else case s of [] \<Rightarrow> []
           | c # cs \<Rightarrow> if take (length pat) s = pat then to @ replaced pat to (drop (length pat) s)
                      else c # replaced pat to cs)"
  by pat_completeness auto
termination by (relation "measure (\<lambda>(pat, to, s). length s)") auto

declare replaced.simps [simp del]

lemma replaced_skip:
  "\<lbrakk>pat \<noteq> []; i \<le> length s; \<And>j. j < i \<Longrightarrow> \<not> matches_at s pat j\<rbrakk> \<Longrightarrow>
   replaced pat to s = take i s @ replaced pat to (drop i s)"
proof (induction i arbitrary: s)
  case (Suc i)
  then obtain c cs where s: "s = c # cs" by (cases s) auto
  have "take (length pat) s \<noteq> pat"
    using Suc.prems(3) [of 0] unfolding matches_at_def by (metis add_0 drop0 length_take min.cobounded1 zero_less_Suc)
  then have "replaced pat to s = c # replaced pat to cs"
    using Suc.prems(1) by (simp add: replaced.simps [of _ _ "c # cs"] s)
  moreover have "\<not> matches_at cs pat j" if "j < i" for j
    using Suc.prems(3) [of "Suc j"] that by (simp add: matches_at_def s)
  ultimately show ?case using Suc.IH [of cs] Suc.prems(1,2) s by simp
qed simp

lemma replaced_match:
  assumes "pat \<noteq> []" "take (length pat) s = pat"
  shows "replaced pat to s = to @ replaced pat to (drop (length pat) s)"
proof -
  from assms obtain c cs where "s = c # cs" by (cases s) auto
  with assms show ?thesis by (simp add: replaced.simps [of _ _ "c # cs"])
qed

lemma matches_at_drop: "k \<le> length s \<Longrightarrow> matches_at (drop k s) t i \<longleftrightarrow> matches_at s t (k + i)"
  by (auto simp: matches_at_def add.commute)

lemma replace_loop_replaced:
  assumes "pat \<noteq> []"
  shows "pos \<le> length str \<Longrightarrow> replace_loop pat to str pos = Some (take pos str @ replaced pat to (drop pos str))"
proof (induction "length str - pos" arbitrary: str pos rule: less_induct)
  case less
  show ?case
  proof (cases "find_from str pat pos")
    case None
    then have "\<not> matches_at (drop pos str) pat j" for j
      using less.prems by (simp add: find_from_None matches_at_drop)
    with replaced_skip [OF assms, of "length (drop pos str)" "drop pos str"]
    have "replaced pat to (drop pos str) = drop pos str"
      using assms by (simp add: replaced.simps [of _ _ "[]"])
    with None show ?thesis by (subst replace_loop.simps) simp
  next
    case (Some i)
    note f = find_from_SomeD [OF Some]
    let ?s = "take i str @ to @ drop (i + length pat) str" and ?p = "i + length to"
    have i: "i + length pat \<le> length str" "take (length pat) (drop i str) = pat"
      using f(2) by (auto simp: matches_at_def)
    have "length ?s - ?p < length str - pos"
      using i f(1) assms by (cases pat) (auto simp: min_def)
    from less.hyps [OF this] i
    have "replace_loop pat to ?s ?p = Some (take i str @ to @ replaced pat to (drop (i + length pat) str))"
      by simp
    moreover have "replaced pat to (drop pos str) =
        take (i - pos) (drop pos str) @ replaced pat to (drop i str)"
      using replaced_skip [OF assms, of "i - pos" "drop pos str"] f less.prems i
      by (simp add: matches_at_drop)
    moreover have "replaced pat to (drop i str) = to @ replaced pat to (drop (i + length pat) str)"
      using replaced_match [OF assms i(2)] by (simp add: add.commute)
    moreover have "take i str = take pos str @ take (i - pos) (drop pos str)"
      by (rule take_drop_append [OF f(1), symmetric])
    ultimately show ?thesis using Some by (subst replace_loop.simps) simp
  qed
qed

text \<open>An empty pattern is found again and again.\<close>

lemma replace_loop_empty_aux:
  assumes "replace_loop [] to str pos = Some r"
  shows "\<not> pos \<le> length str"
proof -
  have "([] :: ustring) = [] \<longrightarrow> \<not> pos \<le> length str"
  proof (rule replace_loop.raw_induct [where P = "\<lambda>p t s i y. p = [] \<longrightarrow> \<not> i \<le> length s", OF _ assms])
    fix rl :: "ustring \<Rightarrow> ustring \<Rightarrow> ustring \<Rightarrow> nat \<Rightarrow> ustring option" and pat to str :: ustring and pos :: nat and r
    assume IH: "\<And>p t s i y. rl p t s i = Some y \<Longrightarrow> p = [] \<longrightarrow> \<not> i \<le> length s"
      and step: "(case find_from str pat pos of None \<Rightarrow> Some str
        | Some i \<Rightarrow> rl pat to (take i str @ to @ drop (i + length pat) str) (i + length to)) = Some r"
    show "pat = [] \<longrightarrow> \<not> pos \<le> length str"
    proof (intro impI notI)
      assume a: "pat = []" "pos \<le> length str"
      then have "find_from str pat pos = Some pos"
        by (intro find_from_eq_Some) (auto simp: matches_at_def)
      with step a IH [of pat to "take pos str @ to @ drop pos str" "pos + length to" r] show False by simp
    qed
  qed
  then show ?thesis by simp
qed

lemma replace_loop_empty: "pos \<le> length str \<Longrightarrow> replace_loop [] to str pos = None"
  using replace_loop_empty_aux by (cases "replace_loop [] to str pos") blast+

text \<open>C37. \<open>replace_all\<close> returns exactly when the text to replace is not empty, and then it has replaced the
  occurrences from left to right, without searching what it put in; with an empty text to replace it
  never returns.\<close>

theorem replace_all_correct:
  "replace_all str pat to = (if pat = [] then None else Some (replaced pat to str))"
  by (simp add: replace_all_def replace_loop_replaced replace_loop_empty)

section \<open>Joining and splitting\<close>

definition join_vector :: "ustring list \<Rightarrow> ustring \<Rightarrow> ustring" where
  "join_vector vec delimiter =
     concat (map (\<lambda>i. (if i \<noteq> 0 then delimiter else []) @ vec ! i) [0..<length vec])"

text \<open>
  \<open>split\<close>: \<open>getline\<close> with a delimiter until it fails.  A line is what stands before the next
  delimiter, which is dropped, or the rest; reading at the end of the stream fails.
\<close>

function split :: "ustring \<Rightarrow> nat \<Rightarrow> ustring list" where
  "split s delimiter =
     (if s = [] then []
      else takeWhile (\<lambda>c. c \<noteq> delimiter) s # split (drop 1 (dropWhile (\<lambda>c. c \<noteq> delimiter) s)) delimiter)"
  by pat_completeness auto
termination
proof (relation "measure (\<lambda>(s, d). length s)", simp)
  fix s :: ustring and d
  assume "s \<noteq> []"
  with length_dropWhile_le [of "\<lambda>c. c \<noteq> d" s]
  have "length (dropWhile (\<lambda>c. c \<noteq> d) s) - 1 < length s" by (cases s) auto
  then show "((drop 1 (dropWhile (\<lambda>c. c \<noteq> d) s), d), s, d) \<in> measure (\<lambda>(s, d). length s)" by simp
qed

declare split.simps [simp del]

lemma split_Nil [simp]: "split [] d = []"
  by (simp add: split.simps)

definition split_string :: "ustring \<Rightarrow> nat \<Rightarrow> ustring list" where
  "split_string s delimiter = split s delimiter"

text \<open>The overload with a string delimiter; \<open>pos\<close> is not moved past a match.\<close>

partial_function (option) split_string_loop ::
  "ustring \<Rightarrow> ustring \<Rightarrow> nat \<Rightarrow> nat \<Rightarrow> ustring list \<Rightarrow> ustring list option" where
  "split_string_loop s delimiter prev_pos pos elements =
     (case find_from s delimiter pos of
        Some i \<Rightarrow>
          split_string_loop s delimiter (i + length delimiter) i
            (elements @ [substr_of s prev_pos (sub64 i prev_pos)])
      | None \<Rightarrow> Some (elements @ [drop prev_pos s]))"

definition split_string_str :: "ustring \<Rightarrow> ustring \<Rightarrow> ustring list option" where
  "split_string_str s delimiter = split_string_loop s delimiter 0 0 []"

definition folder_path :: "ustring \<Rightarrow> ustring" where
  "folder_path path =
     (if Slash \<in> set path then butlast (rev (dropWhile (\<lambda>c. c \<noteq> Slash) (rev path))) else path)"

definition reverse_map :: "('k \<times> 'v) list \<Rightarrow> ('v \<rightharpoonup> 'k)" where
  "reverse_map input =
     foldl (\<lambda>output (k, v). if output v = None then output(v \<mapsto> k) else output) Map.empty input"

lemma join_vector_Cons:
  "join_vector (x # xs) d = x @ concat (map (\<lambda>y. d @ y) xs)"
proof -
  have "map (\<lambda>i. d @ xs ! i) [0..<length xs] = map (\<lambda>y. d @ y) xs"
    by (rule nth_equalityI) simp_all
  then have "map (\<lambda>i. (if i \<noteq> 0 then d else []) @ (x # xs) ! i) [0..<length (x # xs)] =
      x # map (\<lambda>y. d @ y) xs"
    by (simp add: map_upt_Suc del: upt_Suc)
  then show ?thesis unfolding join_vector_def by simp
qed

lemma join_vector_Nil [simp]: "join_vector [] d = []"
  by (simp add: join_vector_def)

lemma join_vector_Cons2: "xs \<noteq> [] \<Longrightarrow> join_vector (x # xs) d = x @ d @ join_vector xs d"
  by (cases xs) (simp_all add: join_vector_Cons)

lemma join_vector_single [simp]: "join_vector [x] d = x"
  by (simp add: join_vector_Cons)

lemma join_vector_snoc: "xs \<noteq> [] \<Longrightarrow> join_vector (xs @ [x]) d = join_vector xs d @ d @ x"
  by (cases xs) (simp_all add: join_vector_Cons)

lemma split_last:
  assumes "d \<notin> set s" and "s \<noteq> []"
  shows "split s d = [s]"
proof -
  have "takeWhile (\<lambda>c. c \<noteq> d) s = s" "dropWhile (\<lambda>c. c \<noteq> d) s = []"
    using assms(1) by (auto simp: takeWhile_eq_all_conv)
  then have "split s d = s # split [] d" using assms(2) by (subst split.simps) (simp only: if_False drop_Nil)
  then show ?thesis by simp
qed

lemma split_piece:
  assumes "d \<notin> set p"
  shows "split (p @ d # r) d = p # split r d"
proof -
  have "takeWhile (\<lambda>c. c \<noteq> d) (p @ d # r) = p" "dropWhile (\<lambda>c. c \<noteq> d) (p @ d # r) = d # r"
    using assms by (auto simp: takeWhile_append dropWhile_append)
  then show ?thesis by (simp add: split.simps [of "p @ d # r"])
qed

lemma split_join:
  "\<lbrakk>\<forall>x \<in> set xs. d \<notin> set x; xs \<noteq> [] \<longrightarrow> last xs \<noteq> []\<rbrakk> \<Longrightarrow> split (join_vector xs [d]) d = xs"
proof (induction xs)
  case (Cons x xs)
  then show ?case
    by (cases "xs = []") (simp_all add: split_last join_vector_Cons2 split_piece)
qed simp

lemma split_pieces: "d \<notin> \<Union> (set ` set (split s d))"
proof (induction s d rule: split.induct)
  case (1 s d)
  then show ?case
    by (cases "s = []") (auto simp: split.simps [of s] dest: set_takeWhileD)
qed

lemma split_last_piece: "s \<noteq> [] \<Longrightarrow> last s \<noteq> d \<Longrightarrow> last (split s d) \<noteq> []"
proof (induction s d rule: split.induct)
  case (1 s d)
  show ?case
  proof (cases "d \<in> set s")
    case False
    with 1 show ?thesis by (simp add: split_last)
  next
    case True
    then obtain p r where s: "s = p @ d # r" "d \<notin> set p" by (auto dest: split_list_first)
    then have "drop 1 (dropWhile (\<lambda>c. c \<noteq> d) s) = r" by (auto simp: dropWhile_append)
    moreover have r: "r \<noteq> []" "last r \<noteq> d" using "1.prems" s by auto
    ultimately have "last (split r d) \<noteq> []" using "1.IH" "1.prems" by metis
    moreover have "split r d \<noteq> []" using r by (simp add: split.simps [of r])
    ultimately show ?thesis using s by (simp add: split_piece)
  qed
qed

lemma join_split:
  "join_vector (split s d) [d] = (if s \<noteq> [] \<and> last s = d then butlast s else s)"
proof (induction s d rule: split.induct)
  case (1 s d)
  show ?case
  proof (cases "d \<in> set s")
    case False
    then show ?thesis
      using split_last [of d s] by (cases "s = []") auto
  next
    case True
    then obtain p r where s: "s = p @ d # r" "d \<notin> set p" by (auto dest: split_list_first)
    then have "dropWhile (\<lambda>c. c \<noteq> d) s = d # r" by (auto simp: dropWhile_append)
    then have "drop 1 (dropWhile (\<lambda>c. c \<noteq> d) s) = r" "s \<noteq> []" using s by auto
    with "1.IH" have IH: "join_vector (split r d) [d] = (if r \<noteq> [] \<and> last r = d then butlast r else r)" by metis
    show ?thesis
    proof (cases "r = []")
      case True
      then show ?thesis using s by (simp add: split_piece butlast_append)
    next
      case False
      then have "split r d \<noteq> []" by (simp add: split.simps [of r])
      with False s IH show ?thesis by (simp add: split_piece join_vector_Cons2 butlast_append)
    qed
  qed
qed

text \<open>Splitting at a character and joining are inverse up to the end of the text: \<open>split_string\<close> drops one
  trailing delimiter and keeps everything else, no piece holds the delimiter, and a list of pieces that
  do not hold it and do not end in an empty piece is split back.\<close>

theorem split_string_join_vector:
  "join_vector (split_string s d) [d] = (if s \<noteq> [] \<and> last s = d then butlast s else s) \<and>
   d \<notin> \<Union> (set ` set (split_string s d)) \<and>
   (list_all (\<lambda>x. d \<notin> set x) xs \<and> (xs = [] \<or> last xs \<noteq> []) \<longrightarrow>
      split_string (join_vector xs [d]) d = xs)"
  using join_split split_pieces split_join [of xs d] by (auto simp: split_string_def list_all_iff)

theorem split_string_join_vector_witness:
  "split_string (join_vector [u ''a'', [], u ''b''] (u '','')) 44 = [u ''a'', [], u ''b'']"
  using split_string_join_vector [of "[]" 44 "[u ''a'', [], u ''b'']"] by simp

text \<open>The overload of \<open>split_string\<close> with a string delimiter never returns once the delimiter
  occurs in the text, because it searches from the match it has just found; it only returns texts that
  need no splitting.\<close>

theorem split_string_str_diverges:
  "split_string_str s delimiter = (if find_from s delimiter 0 = None then Some [s] else None)"
proof (cases "find_from s delimiter 0")
  case None
  then show ?thesis by (simp add: split_string_str_def split_string_loop.simps)
next
  case (Some i)
  have "split_string_loop s delimiter prev j es \<noteq> Some r" if "j = 0 \<or> j = i" for prev j es r
  proof
    assume r: "split_string_loop s delimiter prev j es = Some r"
    have "s = s \<longrightarrow> delimiter = delimiter \<longrightarrow> \<not> (j = 0 \<or> j = i)"
    proof (rule split_string_loop.raw_induct
        [where P = "\<lambda>t d q k e y. t = s \<longrightarrow> d = delimiter \<longrightarrow> \<not> (k = 0 \<or> k = i)", OF _ r])
      fix sl :: "ustring \<Rightarrow> ustring \<Rightarrow> nat \<Rightarrow> nat \<Rightarrow> ustring list \<Rightarrow> ustring list option"
        and t d :: ustring and q k e y
      assume IH: "\<And>t d q k e y. sl t d q k e = Some y \<Longrightarrow> t = s \<longrightarrow> d = delimiter \<longrightarrow> \<not> (k = 0 \<or> k = i)"
        and step: "(case find_from t d k of None \<Rightarrow> Some (e @ [drop q t])
          | Some i \<Rightarrow> sl t d (i + length d) i (e @ [substr_of t q (sub64 i q)])) = Some y"
      show "t = s \<longrightarrow> d = delimiter \<longrightarrow> \<not> (k = 0 \<or> k = i)"
      proof (intro impI notI)
        assume a: "t = s" "d = delimiter" "k = 0 \<or> k = i"
        then have "find_from t d k = Some i"
          using find_from_SomeD [OF Some] Some by (auto intro!: find_from_eq_Some)
        with step a have "sl t d (i + length d) i (e @ [substr_of t q (sub64 i q)]) = Some y" by simp
        from IH [OF this] a show False by simp
      qed
    qed
    with that show False by simp
  qed
  with Some show ?thesis by (cases "split_string_str s delimiter") (auto simp: split_string_str_def)
qed

end
