(* ===== verification/TextWriter.thy ===== *)
theory TextWriter
  imports Utils
begin

text \<open>
  \<open>TextWriter\<close> (\<open>src/lib/text_writer.h\<close>, \<open>text_writer.cpp\<close>): a text that grows at its end, with
  indentation, tab stops, saved states, and placeholders, positions of the text that are written to
  later.  Positions and columns are \<open>unsigned long\<close> (\<open>64 word\<close>), indentation and tab stops \<open>unsigned int\<close>
  (\<open>32 word\<close>), so every addition and subtraction wraps as in the code.  \<open>boost::replace_all_copy\<close>, behind
  \<open>replace_string\<close>, is the parameter \<open>ras\<close> of the two operations that use it.
\<close>

section \<open>State\<close>

record TextCursor =
  tc_position :: "64 word"
  tc_column :: "64 word"
  tc_indentation :: "32 word"

record TextAndTextCursor = TextCursor +
  tc_text :: ustring

record PlaceholderTextCursor = TextCursor +
  tc_placeholder :: string
  tc_text_end :: ustring

record TextWriter =
  tw_text :: ustring
  tw_saved_placeholder_text_cursors :: "PlaceholderTextCursor list"
  tw_tabs :: "32 word list"
  tw_current_placeholders :: "string list"
  tw_placeholders :: "string \<rightharpoonup> TextCursor"
  tw_saved_text_cursors :: "TextAndTextCursor list"
  tw_position :: "64 word"
  tw_column :: "64 word"
  tw_indentation :: "32 word"

definition TextWriter_new :: TextWriter where
  "TextWriter_new =
     \<lparr>tw_text = [], tw_saved_placeholder_text_cursors = [], tw_tabs = [], tw_current_placeholders = [],
      tw_placeholders = Map.empty, tw_saved_text_cursors = [], tw_position = 0, tw_column = 0,
      tw_indentation = 0\<rparr>"

definition indentation_step :: "32 word" where
  "indentation_step = 4"

section \<open>Operations\<close>

definition indent :: "TextWriter \<Rightarrow> TextWriter" where
  "indent w = w\<lparr>tw_indentation := tw_indentation w + indentation_step\<rparr>"

definition unindent :: "TextWriter \<Rightarrow> TextWriter" where
  "unindent w = w\<lparr>tw_indentation := tw_indentation w - indentation_step\<rparr>"

text \<open>Appending text: what every write of the class does to text, column and position.\<close>

definition append_text :: "ustring \<Rightarrow> TextWriter \<Rightarrow> TextWriter" where
  "append_text t w = w\<lparr>tw_text := tw_text w @ t, tw_column := tw_column w + of_nat (length t),
     tw_position := tw_position w + of_nat (length t)\<rparr>"

text \<open>
  \<open>print_indentation\<close> counts with an \<open>int\<close>: an indentation of \<open>2 ^ 31\<close> or more (one \<open>unindent\<close> too many
  is enough) makes it overflow.
\<close>

definition print_indentation :: "(TextWriter, unit) exec" where
  "print_indentation w =
     (if 2 ^ 31 \<le> unat (tw_indentation w) then Inl (Undefined_behaviour ''int overflow'')
      else Inr ((), append_text (replicate (unat (tw_indentation w)) Space) w))"

definition add_tab :: "32 word \<Rightarrow> TextWriter \<Rightarrow> TextWriter" where
  "add_tab i w = w\<lparr>tw_tabs := tw_tabs w @ [i]\<rparr>"

text \<open>The loop of \<open>tab\<close> over the tab stops; \<open>diff\<close> is an \<open>int\<close>.\<close>

fun tab_loop :: "32 word list \<Rightarrow> TextWriter \<Rightarrow> TextWriter" where
  "tab_loop [] w = w"
| "tab_loop (t # ts) w =
     (if tw_column w < ucast t then
        let diff = sint (ucast (ucast t - tw_column w) :: 32 word) in
        w\<lparr>tw_text := tw_text w @ replicate (nat diff) Space, tw_column := tw_column w + word_of_int diff,
          tw_position := tw_position w + word_of_int diff\<rparr>
      else tab_loop ts (append_text [Space] w))"

definition tab :: "TextWriter \<Rightarrow> TextWriter" where
  "tab w = tab_loop (tw_tabs w) w"

definition clear_tabs :: "TextWriter \<Rightarrow> TextWriter" where
  "clear_tabs w = w\<lparr>tw_tabs := []\<rparr>"

definition newline :: "TextWriter \<Rightarrow> TextWriter" where
  "newline w = w\<lparr>tw_text := tw_text w @ [NewLine], tw_column := 0, tw_position := tw_position w + 1\<rparr>"

definition write_text :: "ustring \<Rightarrow> (TextWriter, unit) exec" where
  "write_text t =
     bind (gets tw_column) (\<lambda>c.
     bind (if c = 0 then print_indentation else ret ()) (\<lambda>_.
     modify (append_text t)))"

definition write_replaced ::
  "(ustring \<Rightarrow> ustring \<Rightarrow> ustring \<Rightarrow> ustring) \<Rightarrow> ustring \<Rightarrow> ustring \<Rightarrow> (TextWriter, unit) exec" where
  "write_replaced ras t replacement =
     bind (gets tw_column) (\<lambda>c.
     bind (if c = 0 then print_indentation else ret ()) (\<lambda>_.
     modify (append_text (ras t (u ''{0}'') replacement))))"

definition write_line :: "ustring \<Rightarrow> (TextWriter, unit) exec" where
  "write_line t = bind (write_text t) (\<lambda>_. modify newline)"

definition write_line_replaced ::
  "(ustring \<Rightarrow> ustring \<Rightarrow> ustring \<Rightarrow> ustring) \<Rightarrow> ustring \<Rightarrow> ustring \<Rightarrow> (TextWriter, unit) exec" where
  "write_line_replaced ras t replacement = bind (write_replaced ras t replacement) (\<lambda>_. modify newline)"

definition save_placeholder_text_cursor :: "string \<Rightarrow> ustring \<Rightarrow> TextWriter \<Rightarrow> TextWriter" where
  "save_placeholder_text_cursor p text_end w =
     w\<lparr>tw_saved_placeholder_text_cursors :=
        \<lparr>tc_position = tw_position w, tc_column = tw_column w, tc_indentation = tw_indentation w,
         tc_placeholder = p, tc_text_end = text_end\<rparr> # tw_saved_placeholder_text_cursors w\<rparr>"

definition begin_write_on_placeholder :: "string \<Rightarrow> (TextWriter, unit) exec" where
  "begin_write_on_placeholder p w =
     (case tw_placeholders w p of
        None \<Rightarrow> Inl (Invalid_argument (''Cannot find placeholder '' @ [CHR 0x27] @ p @ [CHR 0x27] @ ''.''))
      | Some c \<Rightarrow>
          if tw_current_placeholders w \<noteq> [] \<and> last (tw_current_placeholders w) = p
          then Inl (Invalid_argument
            (''Cannot begin write on an already begun placeholder write '' @ [CHR 0x27] @ p @ [CHR 0x27] @ ''.''))
          else if length (tw_text w) < unat (tc_position c) then
            (if tw_current_placeholders w = [] then Inl (Undefined_behaviour ''back of an empty vector'')
             else Inl (Invalid_argument
               (''Cannot begin writing on placeholder '' @ [CHR 0x27] @ p @ [CHR 0x27] @
                '', which begins after the current placeholder '' @ [CHR 0x27] @
                last (tw_current_placeholders w) @ [CHR 0x27] @ ''.'')))
          else
            let w' = save_placeholder_text_cursor p (drop (unat (tc_position c)) (tw_text w)) w in
            Inr ((), w'\<lparr>tw_position := tc_position c, tw_column := tc_column c,
              tw_indentation := tc_indentation c, tw_text := take (unat (tc_position c)) (tw_text w),
              tw_current_placeholders := tw_current_placeholders w @ [p]\<rparr>))"

definition restore_placeholder_text_cursor :: "64 word \<Rightarrow> (TextWriter, unit) exec" where
  "restore_placeholder_text_cursor diff_in_position w =
     (case tw_saved_placeholder_text_cursors w of
        [] \<Rightarrow> Inl (Undefined_behaviour ''top of an empty stack'')
      | c # cs \<Rightarrow> Inr ((), w\<lparr>tw_position := tc_position c + diff_in_position, tw_column := tc_column c,
          tw_indentation := tc_indentation c, tw_text := tw_text w @ tc_text_end c\<rparr>))"

definition end_write_on_placeholder :: "(TextWriter, unit) exec" where
  "end_write_on_placeholder w =
     (case tw_saved_placeholder_text_cursors w of
        [] \<Rightarrow> Inl (Domain_error ''You have ended all started placeholders.'')
      | c # cs \<Rightarrow>
          (case tw_placeholders w (tc_placeholder c) of
             None \<Rightarrow> Inl (Undefined_behaviour ''null pointer'')
           | Some p \<Rightarrow>
               bind (if tc_position p \<le> tc_position c
                     then restore_placeholder_text_cursor (tw_position w - tc_position p)
                     else restore_placeholder_text_cursor 0) (\<lambda>_.
               modify (\<lambda>w. w\<lparr>tw_placeholders := (tw_placeholders w)(tc_placeholder c := None),
                 tw_current_placeholders := removeAll (tc_placeholder c) (tw_current_placeholders w),
                 tw_saved_placeholder_text_cursors := cs\<rparr>)) w))"

definition tw_save :: "TextWriter \<Rightarrow> TextWriter" where
  "tw_save w = w\<lparr>tw_saved_text_cursors :=
     \<lparr>tc_position = tw_position w, tc_column = tw_column w, tc_indentation = tw_indentation w,
      tc_text = tw_text w\<rparr> # tw_saved_text_cursors w\<rparr>"

definition tw_restore :: "(TextWriter, unit) exec" where
  "tw_restore w =
     (case tw_saved_text_cursors w of
        [] \<Rightarrow> Inl (Domain_error ''You have restored all saves.'')
      | c # cs \<Rightarrow> Inr ((), w\<lparr>tw_position := tc_position c, tw_column := tc_column c, tw_text := tc_text c,
          tw_saved_text_cursors := cs\<rparr>))"

definition add_placeholder :: "string \<Rightarrow> (TextWriter, unit) exec" where
  "add_placeholder m w =
     (if tw_placeholders w m \<noteq> None
      then Inl (Invalid_argument (''The placeholder '' @ [CHR 0x27] @ m @ [CHR 0x27] @ '' is already added.''))
      else if tw_current_placeholders w \<noteq> []
      then Inl (Domain_error ''Cannot add a placeholder when writing to one.'')
      else Inr ((), w\<lparr>tw_placeholders := (tw_placeholders w)(m \<mapsto>
        \<lparr>tc_position = tw_position w, tc_column = tw_column w, tc_indentation = tw_indentation w\<rparr>)\<rparr>))"

section \<open>Layout of lines\<close>

definition write_lines :: "ustring list \<Rightarrow> (TextWriter, unit) exec" where
  "write_lines ts = fold (\<lambda>t m. bind m (\<lambda>_. write_line t)) ts (ret ())"

lemma append_text_simps [simp]:
  "tw_text (append_text t w) = tw_text w @ t"
  "tw_indentation (append_text t w) = tw_indentation w"
  "tw_position (append_text t w) = tw_position w + of_nat (length t)"
  "tw_saved_placeholder_text_cursors (append_text t w) = tw_saved_placeholder_text_cursors w"
  "tw_placeholders (append_text t w) = tw_placeholders w"
  "tw_current_placeholders (append_text t w) = tw_current_placeholders w"
  "tw_saved_text_cursors (append_text t w) = tw_saved_text_cursors w"
  by (simp_all add: append_text_def)

text \<open>
  What a step of writing may do: the text grows at its end, the position with it, and nothing else of
  the writer's bookkeeping changes.
\<close>

definition appends :: "TextWriter \<Rightarrow> TextWriter \<Rightarrow> bool" where
  "appends w w' \<longleftrightarrow> (\<exists>x. tw_text w' = tw_text w @ x \<and> tw_position w' = tw_position w + of_nat (length x)) \<and>
     tw_saved_placeholder_text_cursors w' = tw_saved_placeholder_text_cursors w \<and>
     tw_placeholders w' = tw_placeholders w \<and> tw_current_placeholders w' = tw_current_placeholders w \<and>
     tw_saved_text_cursors w' = tw_saved_text_cursors w"

lemma appends_refl [simp]: "appends w w"
  by (simp add: appends_def)

lemma appends_trans: "appends a b \<Longrightarrow> appends b c \<Longrightarrow> appends a c"
  by (auto simp: appends_def)

lemma appends_append_text [simp]: "appends w (append_text t w)"
  by (simp add: appends_def)

lemma appends_newline [simp]: "appends w (newline w)"
  by (simp add: appends_def newline_def)

lemma appends_indentation [simp]: "appends w (indent w)" "appends w (unindent w)"
  by (simp_all add: appends_def indent_def unindent_def)

lemma print_indentation_appends: "print_indentation w = Inr (x, w') \<Longrightarrow> appends w w'"
  by (auto simp: print_indentation_def split: if_splits)

lemma appends_further:
  "appends v w \<Longrightarrow> appends v (append_text t w)" "appends v w \<Longrightarrow> appends v (newline w)"
  by (rule appends_trans, assumption, simp)+

lemma after_indentation_appends:
  "bind (gets tw_column) (\<lambda>c. bind (if c = 0 then print_indentation else ret ()) (\<lambda>_. modify (append_text t))) w =
     Inr (x, w') \<Longrightarrow> appends w w'"
  by (auto simp: exec_simps elim!: bind_InrE split: if_splits dest!: print_indentation_appends
      intro: appends_further)

lemma write_text_appends: "write_text t w = Inr (x, w') \<Longrightarrow> appends w w'"
  "write_replaced ras t r w = Inr (y, w') \<Longrightarrow> appends w w'"
  unfolding write_text_def write_replaced_def by (fact after_indentation_appends)+

lemma write_line_appends: "write_line t w = Inr (x, w') \<Longrightarrow> appends w w'"
  unfolding write_line_def
  by (auto simp: exec_simps elim!: bind_InrE dest!: write_text_appends(1) intro: appends_further)

lemma write_line_at_start:
  assumes "tw_column w = 0" and "unat (tw_indentation w) < 2 ^ 31"
  shows "\<exists>w'. write_line t w = Inr ((), w') \<and> tw_column w' = 0 \<and> tw_indentation w' = tw_indentation w \<and>
    tw_text w' = tw_text w @ replicate (unat (tw_indentation w)) Space @ t @ [NewLine]"
  using assms
  by (auto simp: write_line_def write_text_def print_indentation_def exec_simps newline_def not_le)

lemma write_lines_snoc: "write_lines (ts @ [t]) = bind (write_lines ts) (\<lambda>_. write_line t)"
  by (simp add: write_lines_def)

lemma write_lines_appends: "write_lines ts w = Inr (x, w') \<Longrightarrow> appends w w'"
proof (induction ts arbitrary: w' x rule: rev_induct)
  case (snoc t ts)
  then obtain w1 y where "write_lines ts w = Inr (y, w1)" "write_line t w1 = Inr (x, w')"
    by (auto simp: write_lines_snoc elim!: bind_InrE)
  with snoc.IH write_line_appends show ?case by (blast intro: appends_trans)
qed (simp add: write_lines_def exec_simps)

lemma write_lines_at_start:
  assumes "tw_column w = 0" and "unat (tw_indentation w) < 2 ^ 31"
  shows "\<exists>w'. write_lines ts w = Inr ((), w') \<and> tw_column w' = 0 \<and> tw_indentation w' = tw_indentation w \<and>
    tw_text w' = tw_text w @ concat (map (\<lambda>t. replicate (unat (tw_indentation w)) Space @ t @ [NewLine]) ts)"
proof (induction ts rule: rev_induct)
  case Nil
  then show ?case using assms by (simp add: write_lines_def exec_simps)
next
  case (snoc t ts)
  then obtain w1 where w1: "write_lines ts w = Inr ((), w1)" "tw_column w1 = 0"
    "tw_indentation w1 = tw_indentation w"
    "tw_text w1 = tw_text w @ concat (map (\<lambda>t. replicate (unat (tw_indentation w)) Space @ t @ [NewLine]) ts)"
    by blast
  with write_line_at_start [of w1 t] assms show ?case by (auto simp: write_lines_snoc exec_simps)
qed

section \<open>Saved states\<close>

text \<open>The writer keeps the contract of saved cursors for its text, position and column.\<close>

interpretation tw_cursor: saved_cursor tw_save "\<lambda>w. case tw_restore w of Inl e \<Rightarrow> w | Inr (x, w') \<Rightarrow> w'"
  "\<lambda>w. (tw_position w, tw_column w, tw_text w)"
  "\<lambda>w. map (\<lambda>c. (tc_position c, tc_column c, tc_text c)) (tw_saved_text_cursors w)"
  by unfold_locales (auto simp: tw_save_def tw_restore_def)

section \<open>Placeholders\<close>

text \<open>
  The runs of a writer in which a placeholder is not begun while it is being written to.  \<open>tw_step\<close> is one
  call of a public operation that returns.
\<close>

inductive tw_step :: "TextWriter \<Rightarrow> TextWriter \<Rightarrow> bool" where
  write_step: "write_text t w = Inr (x, w') \<Longrightarrow> tw_step w w'"
| replaced_step: "write_replaced ras t r w = Inr (x, w') \<Longrightarrow> tw_step w w'"
| newline_step: "tw_step w (newline w)"
| indent_step: "tw_step w (indent w)"
| unindent_step: "tw_step w (unindent w)"
| add_tab_step: "tw_step w (add_tab i w)"
| clear_tabs_step: "tw_step w (clear_tabs w)"
| tab_step: "list_all (\<lambda>t. unat t < 2 ^ 31) (tw_tabs w) \<Longrightarrow> tw_step w (tab w)"
| save_step: "tw_step w (tw_save w)"
| restore_step: "tw_restore w = Inr (x, w') \<Longrightarrow> tw_step w w'"
| add_step: "add_placeholder p w = Inr (x, w') \<Longrightarrow> tw_step w w'"
| begin_step: "p \<notin> set (tw_current_placeholders w) \<Longrightarrow> length (tw_text w) < 2 ^ 64 \<Longrightarrow>
    begin_write_on_placeholder p w = Inr (x, w') \<Longrightarrow> tw_step w w'"
| end_step: "end_write_on_placeholder w = Inr (x, w') \<Longrightarrow> tw_step w w'"

inductive tw_reachable :: "TextWriter \<Rightarrow> bool" where
  start: "tw_reachable TextWriter_new"
| step: "tw_reachable w \<Longrightarrow> tw_step w w' \<Longrightarrow> tw_reachable w'"

definition open_names :: "TextWriter \<Rightarrow> string list" where
  "open_names w = map tc_placeholder (tw_saved_placeholder_text_cursors w)"

definition tw_inv :: "TextWriter \<Rightarrow> bool" where
  "tw_inv w \<longleftrightarrow>
     tw_position w = of_nat (length (tw_text w)) \<and>
     (\<forall>c \<in> set (tw_saved_text_cursors w). tc_position c = of_nat (length (tc_text c))) \<and>
     tw_current_placeholders w = rev (open_names w) \<and> distinct (open_names w) \<and>
     (\<forall>c \<in> set (tw_saved_placeholder_text_cursors w). \<exists>p. tw_placeholders w (tc_placeholder c) = Some p \<and>
        tc_position c = tc_position p + of_nat (length (tc_text_end c)) \<and> tc_position p \<le> tc_position c)"

lemma tw_inv_appends: "tw_inv w \<Longrightarrow> appends w w' \<Longrightarrow> tw_inv w'"
  by (auto simp: tw_inv_def appends_def open_names_def)

lemma tab_loop_appends:
  "list_all (\<lambda>t. unat t < 2 ^ 31) ts \<Longrightarrow> appends w (tab_loop ts w)"
proof (induction ts arbitrary: w)
  case (Cons t ts)
  show ?case
  proof (cases "tw_column w < ucast t")
    case True
    let ?d = "ucast (ucast t - tw_column w) :: 32 word"
    have t: "unat t < 2 ^ 31" using Cons.prems by simp
    then have "unat (ucast t :: 64 word) = unat t" by (simp add: unsigned_ucast_eq take_bit_nat_eq_self)
    then have "unat (ucast t - tw_column w) = unat t - unat (tw_column w)"
      using True by (simp add: unat_sub less_imp_le)
    with t have "unat (ucast t - tw_column w) < 2 ^ 31" by linarith
    then have "unat ?d < 2 ^ 31" by (simp add: unsigned_ucast_eq take_bit_nat_eq_self)
    then have "sint ?d = int (unat ?d)" by (rule sint_small)
    with True show ?thesis by (simp add: appends_def Let_def)
  next
    case False
    with Cons have "appends (append_text [Space] w) (tab_loop ts (append_text [Space] w))" by simp
    with False appends_trans [OF appends_append_text] show ?thesis by simp
  qed
qed simp

lemma tw_inv_restore: "tw_inv w \<Longrightarrow> tw_restore w = Inr (x, w') \<Longrightarrow> tw_inv w'"
  by (auto simp: tw_inv_def tw_restore_def open_names_def split: list.splits)

lemma tw_inv_save: "tw_inv w \<Longrightarrow> tw_inv (tw_save w)"
  by (auto simp: tw_inv_def tw_save_def open_names_def)

lemma tw_inv_add: "tw_inv w \<Longrightarrow> add_placeholder p w = Inr (x, w') \<Longrightarrow> tw_inv w'"
  by (auto simp: tw_inv_def add_placeholder_def open_names_def split: if_splits)

lemma tw_inv_begin:
  assumes "tw_inv w" "p \<notin> set (tw_current_placeholders w)" "length (tw_text w) < 2 ^ 64"
    "begin_write_on_placeholder p w = Inr (x, w')"
  shows "tw_inv w'"
proof -
  from assms(4) obtain c where c: "tw_placeholders w p = Some c" "unat (tc_position c) \<le> length (tw_text w)"
    and w': "w' = (save_placeholder_text_cursor p (drop (unat (tc_position c)) (tw_text w)) w)
      \<lparr>tw_position := tc_position c, tw_column := tc_column c,
       tw_indentation := tc_indentation c, tw_text := take (unat (tc_position c)) (tw_text w),
       tw_current_placeholders := tw_current_placeholders w @ [p]\<rparr>"
    by (auto simp: begin_write_on_placeholder_def Let_def split: option.splits if_splits)
  have "tw_position w = tc_position c + of_nat (length (drop (unat (tc_position c)) (tw_text w)))"
    using assms(1) c(2) by (simp add: tw_inv_def of_nat_diff)
  moreover have "tc_position c \<le> tw_position w"
    using assms(1,3) c(2) by (simp add: tw_inv_def word_le_nat_alt unat_of_nat)
  ultimately show ?thesis
    using assms(1,2) c unfolding w'
    by (auto simp: tw_inv_def open_names_def save_placeholder_text_cursor_def)
qed

lemma tw_inv_end:
  assumes "tw_inv w" "end_write_on_placeholder w = Inr (x, w')"
  shows "tw_inv w'"
proof -
  from assms(2) obtain c cs p where c: "tw_saved_placeholder_text_cursors w = c # cs"
    "tw_placeholders w (tc_placeholder c) = Some p"
    by (auto simp: end_write_on_placeholder_def split: list.splits option.splits)
  with assms(1) have "tc_position p \<le> tc_position c"
    "tc_position c = tc_position p + of_nat (length (tc_text_end c))" by (auto simp: tw_inv_def)
  with assms c show ?thesis
    by (auto simp: tw_inv_def end_write_on_placeholder_def restore_placeholder_text_cursor_def exec_simps
        open_names_def image_iff) metis
qed

lemma tw_inv_tabs [simp]: "tw_inv (w\<lparr>tw_tabs := ts\<rparr>) = tw_inv w"
  by (simp add: tw_inv_def open_names_def)

lemma tw_step_inv: "tw_step w w' \<Longrightarrow> tw_inv w \<Longrightarrow> tw_inv w'"
proof (induction rule: tw_step.induct)
  case (tab_step w)
  then show ?case using tab_loop_appends tw_inv_appends by (simp add: tab_def)
qed (auto intro: tw_inv_appends write_text_appends tw_inv_restore tw_inv_save tw_inv_add tw_inv_begin
    tw_inv_end simp: add_tab_def clear_tabs_def)

lemma tw_inv_new: "tw_inv TextWriter_new"
  by (simp add: tw_inv_def TextWriter_new_def open_names_def)

lemma tw_reachable_inv: "tw_reachable w \<Longrightarrow> tw_inv w"
  by (induction rule: tw_reachable.induct) (auto intro: tw_inv_new tw_step_inv)

text \<open>C33. Positions. In every run of a writer in which no placeholder is begun a second time while it is
  being written to, the position is the length of the text (modulo \<open>2 ^ 64\<close>), whatever was written,
  saved, restored and put into placeholders, and ending a placeholder fails only when none has been
  begun.\<close>

theorem writer_position_is_length:
  assumes "tw_reachable w"
  shows "tw_position w = of_nat (length (tw_text w)) \<and>
    (tw_saved_placeholder_text_cursors w \<noteq> [] \<longrightarrow> (\<exists>w'. end_write_on_placeholder w = Inr ((), w')))"
proof -
  have "tw_inv w" by (rule tw_reachable_inv [OF assms])
  then show ?thesis
    by (cases "tw_saved_placeholder_text_cursors w")
       (auto simp: tw_inv_def end_write_on_placeholder_def restore_placeholder_text_cursor_def exec_simps)
qed

lemma tw_reachable_example:
  "tw_reachable (newline TextWriter_new)"
  by (rule tw_reachable.step [OF tw_reachable.start tw_step.newline_step])

theorem writer_position_is_length_witness:
  "tw_position (newline TextWriter_new) = 1"
  using writer_position_is_length [OF tw_reachable_example] by (simp add: newline_def TextWriter_new_def)

lemma begin_write_succeeds:
  assumes "tw_placeholders w p = Some c" and "p \<notin> set (tw_current_placeholders w)"
    and "unat (tc_position c) \<le> length (tw_text w)"
  shows "begin_write_on_placeholder p w =
    Inr ((), (save_placeholder_text_cursor p (drop (unat (tc_position c)) (tw_text w)) w)
      \<lparr>tw_position := tc_position c, tw_column := tc_column c,
       tw_indentation := tc_indentation c, tw_text := take (unat (tc_position c)) (tw_text w),
       tw_current_placeholders := tw_current_placeholders w @ [p]\<rparr>)"
proof -
  have "\<not> (tw_current_placeholders w \<noteq> [] \<and> last (tw_current_placeholders w) = p)"
    using assms(2) by (metis last_in_set)
  with assms(1,3) show ?thesis
    unfolding begin_write_on_placeholder_def by (simp only: option.case if_False not_less [symmetric] Let_def)
qed

lemma placeholder_insert:
  assumes "tw_inv w" and "tw_placeholders w p = Some c" and "p \<notin> set (tw_current_placeholders w)"
    and "length (tw_text w) < 2 ^ 64" and "unat (tc_position c) \<le> length (tw_text w)"
    and "tc_column c = 0" and "unat (tc_indentation c) < 2 ^ 31"
  shows "\<exists>w'. bind (begin_write_on_placeholder p) (\<lambda>_. bind (write_lines ts) (\<lambda>_. end_write_on_placeholder)) w =
      Inr ((), w') \<and>
    (let n = unat (tc_position c);
         new = concat (map (\<lambda>t. replicate (unat (tc_indentation c)) Space @ t @ [NewLine]) ts) in
     tw_text w' = take n (tw_text w) @ new @ drop n (tw_text w) \<and>
     tw_position w' = tw_position w + of_nat (length new)) \<and>
    tw_column w' = tw_column w \<and> tw_indentation w' = tw_indentation w \<and>
    tw_current_placeholders w' = tw_current_placeholders w \<and> tw_placeholders w' = (tw_placeholders w)(p := None) \<and>
    tw_inv w'"
proof -
  let ?n = "unat (tc_position c)"
  let ?new = "concat (map (\<lambda>t. replicate (unat (tc_indentation c)) Space @ t @ [NewLine]) ts)"
  obtain w1 where begin1: "begin_write_on_placeholder p w = Inr ((), w1)"
    and w1: "tw_text w1 = take ?n (tw_text w)" "tw_position w1 = tc_position c" "tw_column w1 = 0"
    "tw_indentation w1 = tc_indentation c" "tw_placeholders w1 = tw_placeholders w"
    "tw_current_placeholders w1 = tw_current_placeholders w @ [p]"
    "tw_saved_placeholder_text_cursors w1 =
       \<lparr>tc_position = tw_position w, tc_column = tw_column w, tc_indentation = tw_indentation w,
        tc_placeholder = p, tc_text_end = drop ?n (tw_text w)\<rparr> # tw_saved_placeholder_text_cursors w"
    using begin_write_succeeds [OF assms(2,3,5)] assms(6)
    by (fastforce simp: save_placeholder_text_cursor_def)
  with assms(7) write_lines_at_start [of w1 ts] obtain w2 where
    lines: "write_lines ts w1 = Inr ((), w2)" and t2: "tw_text w2 = tw_text w1 @ ?new" by auto
  have ap: "appends w1 w2" using write_lines_appends [OF lines] .
  then have "tw_position w2 = tc_position c + of_nat (length ?new)"
    using t2 w1 by (auto simp: appends_def)
  moreover have "tc_position c \<le> tw_position w"
    using assms(1,4,5) by (simp add: tw_inv_def word_le_nat_alt unat_of_nat)
  ultimately have "\<exists>w'. end_write_on_placeholder w2 = Inr ((), w') \<and>
      tw_text w' = tw_text w2 @ drop ?n (tw_text w) \<and> tw_position w' = tw_position w + of_nat (length ?new) \<and>
      tw_column w' = tw_column w \<and> tw_indentation w' = tw_indentation w \<and>
      tw_current_placeholders w' = tw_current_placeholders w \<and> tw_placeholders w' = (tw_placeholders w)(p := None)"
    using ap w1 assms(2,3)
    by (auto simp: appends_def end_write_on_placeholder_def restore_placeholder_text_cursor_def exec_simps)
  moreover have "tw_inv w'" if "end_write_on_placeholder w2 = Inr ((), w')" for w'
    using tw_inv_end [OF tw_inv_appends [OF tw_inv_begin [OF assms(1,3,4) begin1] ap] that] .
  ultimately show ?thesis using begin1 lines t2 w1(1) by (auto simp: exec_simps Let_def)
qed


text \<open>A writer with the line \<open>{}\<close> split by a placeholder, for concrete runs.\<close>

definition example_writer :: TextWriter where
  "example_writer =
     \<lparr>tw_text = u ''{'' @ [NewLine] @ u ''}'' @ [NewLine], tw_saved_placeholder_text_cursors = [], tw_tabs = [],
      tw_current_placeholders = [],
      tw_placeholders = [''a'' \<mapsto> \<lparr>tc_position = 2, tc_column = 0, tc_indentation = 0\<rparr>,
        ''b'' \<mapsto> \<lparr>tc_position = 4, tc_column = 0, tc_indentation = 0\<rparr>],
      tw_saved_text_cursors = [], tw_position = 4, tw_column = 0, tw_indentation = 0\<rparr>"

lemma example_writer_reachable: "tw_reachable example_writer"
proof -
  let ?w1 = "append_text (u ''{'') TextWriter_new"
  have "tw_reachable ?w1"
    by (rule tw_reachable.step [OF tw_reachable.start tw_step.write_step [of "u ''{''" _ "()"]])
       (simp add: write_text_def print_indentation_def exec_simps TextWriter_new_def append_text_def)
  then have w2: "tw_reachable (newline ?w1)" by (rule tw_reachable.step [OF _ tw_step.newline_step])
  let ?w3 = "(newline ?w1)\<lparr>tw_placeholders := [''a'' \<mapsto> \<lparr>tc_position = 2, tc_column = 0, tc_indentation = 0\<rparr>]\<rparr>"
  have "tw_reachable ?w3"
    by (rule tw_reachable.step [OF w2 tw_step.add_step [of "''a''" _ "()"]])
       (simp add: add_placeholder_def newline_def TextWriter_new_def append_text_def)
  then have "tw_reachable (append_text (u ''}'') ?w3)"
    by (rule tw_reachable.step [OF _ tw_step.write_step [of "u ''}''" _ "()"]])
       (simp add: write_text_def print_indentation_def exec_simps TextWriter_new_def append_text_def newline_def)
  then have w4: "tw_reachable (newline (append_text (u ''}'') ?w3))"
    by (rule tw_reachable.step [OF _ tw_step.newline_step])
  show ?thesis
    by (rule tw_reachable.step [OF w4 tw_step.add_step [of "''b''" _ "()"]])
       (simp add: add_placeholder_def newline_def TextWriter_new_def append_text_def example_writer_def)
qed


text \<open>Placeholders do not move. After \<open>n\<close> bytes have been inserted at a placeholder, a placeholder that
  stands behind it still has its old position: what is then written to it lands \<open>n\<close> bytes too
  early.\<close>

theorem placeholders_do_not_move:
  assumes "tw_reachable w" and "tw_current_placeholders w = []"
    and "tw_placeholders w p = Some c" and "tw_placeholders w q = Some d" and "p \<noteq> q"
    and "length (tw_text w) + length x + 1 < 2 ^ 64" and "unat (tc_position d) \<le> length (tw_text w)"
    and "tc_position c \<le> tc_position d" and "tc_column c = 0" and "tc_column d = 0"
    and "tc_indentation c = 0" and "tc_indentation d = 0"
  shows "\<exists>w'. bind (begin_write_on_placeholder p) (\<lambda>_. bind (write_lines [x]) (\<lambda>_. bind end_write_on_placeholder (\<lambda>_.
      bind (begin_write_on_placeholder q) (\<lambda>_. bind (write_lines [y]) (\<lambda>_. end_write_on_placeholder))))) w =
      Inr ((), w') \<and>
    (let i = unat (tc_position c); j = unat (tc_position d);
         str = take i (tw_text w) @ x @ [NewLine] @ drop i (tw_text w) in
     tw_text w' = take j str @ y @ [NewLine] @ drop j str)"
proof -
  have i: "unat (tc_position c) \<le> length (tw_text w)"
    using assms(7,8) by (simp add: word_le_nat_alt)
  let ?insert = "\<lambda>p x. bind (begin_write_on_placeholder p) (\<lambda>_. bind (write_lines [x]) (\<lambda>_. end_write_on_placeholder))"
  from placeholder_insert [OF tw_reachable_inv [OF assms(1)] assms(3) _ _ i assms(9), of "[x]"] assms(2,6,11)
  obtain w1 where
    w1: "?insert p x w = Inr ((), w1)" "tw_text w1 = take (unat (tc_position c)) (tw_text w) @ x @ [NewLine] @
      drop (unat (tc_position c)) (tw_text w)"
      "tw_current_placeholders w1 = []" "tw_placeholders w1 = (tw_placeholders w)(p := None)" "tw_inv w1"
    by (auto simp: Let_def)
  have "length (tw_text w1) = length (tw_text w) + length x + 1" using w1(2) i by simp
  with placeholder_insert [OF w1(5) _ _ _ _ assms(10), of q "[y]"] assms(4-7,12) w1(3,4) obtain w2 where
    "?insert q y w1 = Inr ((), w2)"
    "tw_text w2 = take (unat (tc_position d)) (tw_text w1) @ y @ [NewLine] @ drop (unat (tc_position d)) (tw_text w1)"
    by (auto simp: Let_def)
  then have "bind (?insert p x) (\<lambda>_. ?insert q y) w = Inr ((), w2)" using w1(1) by (simp add: bind_Inr)
  then show ?thesis using \<open>tw_text w2 = _\<close> unfolding Let_def w1(2) [symmetric] by (simp add: bind_assoc)
qed

theorem placeholders_do_not_move_witness:
  "\<exists>w'. bind (begin_write_on_placeholder ''a'') (\<lambda>_. bind (write_lines [u ''x'']) (\<lambda>_. bind end_write_on_placeholder (\<lambda>_.
      bind (begin_write_on_placeholder ''b'') (\<lambda>_. bind (write_lines [u ''y'']) (\<lambda>_. end_write_on_placeholder)))))
      example_writer = Inr ((), w') \<and>
    tw_text w' = u ''{'' @ [NewLine] @ u ''x'' @ [NewLine] @ u ''y'' @ [NewLine] @ u ''}'' @ [NewLine]"
  using placeholders_do_not_move [OF example_writer_reachable, of "''a''"
      "\<lparr>tc_position = 2, tc_column = 0, tc_indentation = 0\<rparr>" "''b''"
      "\<lparr>tc_position = 4, tc_column = 0, tc_indentation = 0\<rparr>" "u ''x''" "u ''y''"]
  by (simp add: example_writer_def Let_def)

end
