(* ===== verification/TextAnnotater.thy ===== *)
theory TextAnnotater
  imports TextWriter
begin

text \<open>
  \<open>TextAnnotater\<close> (\<open>src/lib/text_annotater.h\<close>, \<open>text_annotater.cpp\<close>): a source text whose lines are
  printed with the annotations made to them below each line, over a \<open>TextWriter\<close>.  \<open>std::sort\<close> may
  order equal elements as it likes: it is the parameter \<open>srt\<close> of \<open>to_string\<close>.
\<close>

section \<open>State and operations\<close>

record Annotation =
  an_location :: Location
  an_text :: ustring

record TextAnnotater =
  ta_lines :: "ustring list"
  ta_annotations :: "nat \<rightharpoonup> Annotation list"

text \<open>
  What \<open>item\<close> holds after the loop over \<open>getline\<close>: a read that starts at the end of the stream but
  before the end was noticed clears it; otherwise it is the last line.
\<close>

definition last_item :: "ustring \<Rightarrow> ustring" where
  "last_item source =
     (if source = [] \<or> last source = NewLine then [] else last (split source NewLine))"

definition set_source :: "ustring \<Rightarrow> TextAnnotater" where
  "set_source source =
     \<lparr>ta_lines = split source NewLine @ (if last_item source = [] then [[]] else []),
      ta_annotations = Map.empty\<rparr>"

definition TextAnnotater_new :: "ustring \<Rightarrow> TextAnnotater" where
  "TextAnnotater_new source = set_source source"

definition annotate :: "ustring \<Rightarrow> Location \<Rightarrow> TextAnnotater \<Rightarrow> TextAnnotater" where
  "annotate str location ta =
     (let l = (if loc_end_of_source location then location\<lparr>loc_line := length (ta_lines ta)\<rparr> else location);
          a = \<lparr>an_location = l, an_text = str\<rparr> in
      case ta_annotations ta (loc_line l) of
        Some vec \<Rightarrow> ta\<lparr>ta_annotations := (ta_annotations ta)(loc_line l \<mapsto> vec @ [a])\<rparr>
      | None \<Rightarrow> ta\<lparr>ta_annotations := (ta_annotations ta)(loc_line l \<mapsto> [a])\<rparr>)"

text \<open>The comparison handed to \<open>std::sort\<close>.\<close>

definition annotation_less :: "Annotation \<Rightarrow> Annotation \<Rightarrow> bool" where
  "annotation_less a b =
     (if loc_end_of_source (an_location a) then False
      else if loc_end_of_source (an_location b) then True
      else if loc_line (an_location a) < loc_line (an_location b) then True
      else loc_column (an_location a) < loc_column (an_location b))"

text \<open>\<open>std::to_string\<close> of an unsigned number.\<close>

fun decimal :: "nat \<Rightarrow> ustring" where
  "decimal n = (if n < 10 then [Digit_0 + n] else decimal (n div 10) @ [Digit_0 + n mod 10])"

declare decimal.simps [simp del]

definition location_text :: "Location \<Rightarrow> ustring" where
  "location_text l = u '' ('' @ decimal (loc_line l) @ u '', '' @ decimal (loc_column l) @ u '', '' @
     decimal (loc_length l) @ u '')''"

primrec write_times :: "nat \<Rightarrow> ustring \<Rightarrow> (TextWriter, unit) exec" where
  "write_times 0 t = ret ()"
| "write_times (Suc n) t = bind (write_text t) (\<lambda>_. write_times n t)"

text \<open>A counting loop with an \<open>int\<close> counter up to an unsigned bound.\<close>

definition count_loop :: "nat \<Rightarrow> nat \<Rightarrow> ustring \<Rightarrow> (TextWriter, unit) exec" where
  "count_loop start bound t =
     (if 2 ^ 31 \<le> bound then throw (Undefined_behaviour ''int overflow'') else write_times (bound - start) t)"

definition underline_length :: "nat \<Rightarrow> Location \<Rightarrow> nat" where
  "underline_length sz l = min (loc_length l) (sub64 (sz + 1) (loc_column l))"

definition write_annotation :: "nat \<Rightarrow> Annotation \<Rightarrow> (TextWriter, unit) exec" where
  "write_annotation sz a =
     (let l = an_location a in
      bind (count_loop 1 (loc_column l) [Space]) (\<lambda>_.
      bind (count_loop 0 (underline_length sz l) [Tilde]) (\<lambda>_.
      bind (if \<not> loc_end_of_source l then write_text (location_text l)
            else bind (modify newline) (\<lambda>_. write_text (u ''END_OF_DOCUMENT:''))) (\<lambda>_.
      bind (modify newline) (\<lambda>_.
      bind (write_text (u ''!!! '' @ an_text a)) (\<lambda>_.
      bind (modify tw_save) (\<lambda>_. modify newline)))))))"

primrec write_annotations :: "nat \<Rightarrow> Annotation list \<Rightarrow> (TextWriter, unit) exec" where
  "write_annotations sz [] = ret ()"
| "write_annotations sz (a # as) = bind (write_annotation sz a) (\<lambda>_. write_annotations sz as)"

text \<open>The loop over the lines from line \<open>i\<close> on.\<close>

primrec lines_loop ::
  "((Annotation \<Rightarrow> Annotation \<Rightarrow> bool) \<Rightarrow> Annotation list \<Rightarrow> Annotation list) \<Rightarrow> TextAnnotater \<Rightarrow> nat \<Rightarrow>
   ustring list \<Rightarrow> (TextWriter, unit) exec" where
  "lines_loop srt ta i [] = ret ()"
| "lines_loop srt ta i (line # ls) =
     bind (write_text line) (\<lambda>_.
     bind (modify tw_save) (\<lambda>_.
     bind (modify newline) (\<lambda>_.
     bind (case ta_annotations ta (i + 1) of
             None \<Rightarrow> ret ()
           | Some as \<Rightarrow>
               write_annotations (length line)
                 (map (\<lambda>a. if loc_end_of_source (an_location a)
                           then a\<lparr>an_location := (an_location a)\<lparr>loc_line := length (ta_lines ta)\<rparr>\<rparr> else a)
                   (srt annotation_less as))) (\<lambda>_.
     lines_loop srt ta (i + 1) ls))))"

definition to_string ::
  "((Annotation \<Rightarrow> Annotation \<Rightarrow> bool) \<Rightarrow> Annotation list \<Rightarrow> Annotation list) \<Rightarrow> TextAnnotater \<Rightarrow>
   flash_error + ustring" where
  "to_string srt ta =
     (case bind (lines_loop srt ta 0 (ta_lines ta)) (\<lambda>_. tw_restore) TextWriter_new of
        Inl e \<Rightarrow> Inl e
      | Inr (x, w) \<Rightarrow> Inr (tw_text w))"

section \<open>Layout\<close>

text \<open>The lines an annotation and an annotated line are printed as.\<close>

definition annotation_lines :: "nat \<Rightarrow> Annotation \<Rightarrow> ustring list" where
  "annotation_lines sz a =
     (let l = an_location a;
          mark = replicate (loc_column l - 1) Space @ replicate (underline_length sz l) Tilde in
      (if loc_end_of_source l then [mark, u ''END_OF_DOCUMENT:''] else [mark @ location_text l]) @
      [u ''!!! '' @ an_text a])"

definition annotations_of ::
  "((Annotation \<Rightarrow> Annotation \<Rightarrow> bool) \<Rightarrow> Annotation list \<Rightarrow> Annotation list) \<Rightarrow> TextAnnotater \<Rightarrow>
   nat \<Rightarrow> Annotation list" where
  "annotations_of srt ta n = (case ta_annotations ta n of None \<Rightarrow> [] | Some as \<Rightarrow> srt annotation_less as)"

definition line_lines ::
  "((Annotation \<Rightarrow> Annotation \<Rightarrow> bool) \<Rightarrow> Annotation list \<Rightarrow> Annotation list) \<Rightarrow> TextAnnotater \<Rightarrow>
   nat \<times> ustring \<Rightarrow> ustring list" where
  "line_lines srt ta = (\<lambda>(i, line). line #
     concat (map (annotation_lines (length line)) (annotations_of srt ta (i + 1))))"

text \<open>
  The writer after complete lines: no indentation, and the last saved state is the text without its last
  line break.
\<close>

definition saved_text :: "TextWriter \<Rightarrow> ustring option" where
  "saved_text w = (case tw_saved_text_cursors w of [] \<Rightarrow> None | c # cs \<Rightarrow> Some (tc_text c))"

definition at_lines :: "ustring list \<Rightarrow> TextWriter \<Rightarrow> bool" where
  "at_lines ls w \<longleftrightarrow> tw_indentation w = 0 \<and> tw_text w = concat (map (\<lambda>l. l @ [NewLine]) ls) \<and>
     (ls \<noteq> [] \<longrightarrow> saved_text w = Some (butlast (tw_text w)))"

lemma write_text_plain: "tw_indentation w = 0 \<Longrightarrow> write_text t w = Inr ((), append_text t w)"
  by (simp add: write_text_def print_indentation_def exec_simps append_text_def)

lemma append_text_append: "append_text b (append_text a w) = append_text (a @ b) w"
  by (simp add: append_text_def add.assoc)

lemma write_times_plain:
  "tw_indentation w = 0 \<Longrightarrow> write_times n [c] w = Inr ((), append_text (replicate n c) w)"
proof (induction n arbitrary: w)
  case 0
  then show ?case by (simp add: exec_simps append_text_def)
next
  case (Suc n)
  then show ?case by (simp add: bind_def write_text_plain append_text_append)
qed

lemma count_loop_plain:
  "tw_indentation w = 0 \<Longrightarrow> bound < 2 ^ 31 \<Longrightarrow>
   count_loop start bound [c] w = Inr ((), append_text (replicate (bound - start) c) w)"
  by (simp add: count_loop_def write_times_plain)

lemma newline_simps [simp]:
  "tw_text (newline w) = tw_text w @ [NewLine]"
  "tw_indentation (newline w) = tw_indentation w"
  "saved_text (newline w) = saved_text w"
  by (simp_all add: newline_def saved_text_def)

lemma tw_save_simps [simp]:
  "tw_text (tw_save w) = tw_text w" "tw_indentation (tw_save w) = tw_indentation w"
  "saved_text (tw_save w) = Some (tw_text w)"
  by (simp_all add: tw_save_def saved_text_def)

lemma write_annotation_lines:
  assumes "at_lines ls w" and "loc_column (an_location a) < 2 ^ 31"
    and "underline_length sz (an_location a) < 2 ^ 31"
  shows "\<exists>w'. write_annotation sz a w = Inr ((), w') \<and> at_lines (ls @ annotation_lines sz a) w'"
  using assms
  by (auto simp: write_annotation_def Let_def bind_def exec_basic count_loop_plain write_text_plain at_lines_def
      annotation_lines_def butlast_append)

lemma write_annotations_lines:
  "\<lbrakk>at_lines ls w; \<forall>a \<in> set as. loc_column (an_location a) < 2 ^ 31 \<and> underline_length sz (an_location a) < 2 ^ 31\<rbrakk>
   \<Longrightarrow> \<exists>w'. write_annotations sz as w = Inr ((), w') \<and> at_lines (ls @ concat (map (annotation_lines sz) as)) w'"
proof (induction as arbitrary: ls w)
  case Nil
  then show ?case by (simp add: exec_simps)
next
  case (Cons a as)
  then obtain w1 where "write_annotation sz a w = Inr ((), w1)" "at_lines (ls @ annotation_lines sz a) w1"
    using write_annotation_lines [of ls w a sz] by auto
  with Cons.IH [of "ls @ annotation_lines sz a" w1] Cons.prems show ?case by (auto simp: bind_Inr)
qed

text \<open>
  The bounds the printing loops need: columns and underlines below \<open>2 ^ 31\<close>.
\<close>

definition printable :: "((Annotation \<Rightarrow> Annotation \<Rightarrow> bool) \<Rightarrow> Annotation list \<Rightarrow> Annotation list) \<Rightarrow>
    TextAnnotater \<Rightarrow> bool" where
  "printable srt ta \<longleftrightarrow> list_all (\<lambda>i. list_all (\<lambda>a. loc_column (an_location a) < 2 ^ 31 \<and>
     underline_length (length (ta_lines ta ! i)) (an_location a) < 2 ^ 31)
       (annotations_of srt ta (i + 1))) [0..<length (ta_lines ta)]"

lemma annotation_lines_line:
  "annotation_lines sz (if loc_end_of_source (an_location a)
     then a\<lparr>an_location := (an_location a)\<lparr>loc_line := n\<rparr>\<rparr> else a) = annotation_lines sz a"
  by (simp add: annotation_lines_def underline_length_def Let_def)

lemma line_block:
  assumes "at_lines out w"
    and "\<forall>a \<in> set (annotations_of srt ta (i + 1)).
      loc_column (an_location a) < 2 ^ 31 \<and> underline_length (length line) (an_location a) < 2 ^ 31"
  shows "\<exists>w'. lines_loop srt ta i (line # ls) w = lines_loop srt ta (i + 1) ls w' \<and>
    at_lines (out @ line_lines srt ta (i, line)) w'"
proof -
  let ?w = "newline (tw_save (append_text line w))"
  have w: "at_lines (out @ [line]) ?w" using assms(1) by (simp add: at_lines_def butlast_append)
  have start: "lines_loop srt ta i (line # ls) w =
      bind (case ta_annotations ta (i + 1) of None \<Rightarrow> ret () | Some as \<Rightarrow>
         write_annotations (length line) (map (\<lambda>a. if loc_end_of_source (an_location a)
           then a\<lparr>an_location := (an_location a)\<lparr>loc_line := length (ta_lines ta)\<rparr>\<rparr> else a)
         (srt annotation_less as))) (\<lambda>_. lines_loop srt ta (i + 1) ls) ?w"
    using assms(1) by (simp add: at_lines_def bind_Inr [OF write_text_plain] bind_modify)
  show ?thesis
  proof (cases "ta_annotations ta (i + 1)")
    case None
    with w show ?thesis unfolding start by (auto simp: bind_ret line_lines_def annotations_of_def)
  next
    case (Some as)
    let ?as = "map (\<lambda>a. if loc_end_of_source (an_location a)
      then a\<lparr>an_location := (an_location a)\<lparr>loc_line := length (ta_lines ta)\<rparr>\<rparr> else a) (srt annotation_less as)"
    have "\<forall>a \<in> set ?as. loc_column (an_location a) < 2 ^ 31 \<and> underline_length (length line) (an_location a) < 2 ^ 31"
      using assms(2) Some by (auto simp: annotations_of_def underline_length_def)
    from write_annotations_lines [OF w this] obtain w' where
      "write_annotations (length line) ?as ?w = Inr ((), w')"
      "at_lines ((out @ [line]) @ concat (map (annotation_lines (length line)) ?as)) w'" by blast
    with Some show ?thesis unfolding start
      by (auto simp: bind_Inr line_lines_def annotations_of_def comp_def annotation_lines_line cong: map_cong)
  qed
qed

lemma lines_loop_lines:
  assumes "printable srt ta"
  shows "\<lbrakk>at_lines out w; drop i (ta_lines ta) = ls\<rbrakk> \<Longrightarrow>
   \<exists>w'. lines_loop srt ta i ls w = Inr ((), w') \<and>
     at_lines (out @ concat (map (line_lines srt ta) (enumerate i ls))) w'"
proof (induction ls arbitrary: out w i)
  case Nil
  then show ?case by (auto simp: exec_simps)
next
  case (Cons line ls)
  then have i: "i < length (ta_lines ta)" "ta_lines ta ! i = line" "drop (i + 1) (ta_lines ta) = ls"
    by (auto simp: drop_Suc_Cons_eq) (metis drop_all list.simps(3) not_le, metis Cons.prems(2) hd_drop_conv_nth drop_all list.sel(1) list.simps(3) not_le)
  have "\<forall>a \<in> set (annotations_of srt ta (i + 1)).
      loc_column (an_location a) < 2 ^ 31 \<and> underline_length (length line) (an_location a) < 2 ^ 31"
    using assms i by (auto simp: printable_def list_all_iff)
  from line_block [where srt = srt and ta = ta and i = i and line = line, OF Cons.prems(1) this, of ls]
    Cons.IH [OF _ i(3)] show ?case by fastforce
qed

lemma join_lines: "ls \<noteq> [] \<Longrightarrow> join_vector ls [NewLine] = butlast (concat (map (\<lambda>l. l @ [NewLine]) ls))"
proof (induction ls)
  case (Cons l ls)
  then show ?case by (cases "ls = []") (auto simp: join_vector_Cons2 butlast_append)
qed simp

lemma to_string_lines:
  assumes "printable srt ta" and "ta_lines ta \<noteq> []"
  shows "to_string srt ta =
    Inr (join_vector (concat (map (line_lines srt ta) (enumerate 0 (ta_lines ta)))) [NewLine])"
proof -
  let ?ls = "concat (map (line_lines srt ta) (enumerate 0 (ta_lines ta)))"
  have "at_lines [] TextWriter_new" by (simp add: at_lines_def TextWriter_new_def)
  from lines_loop_lines [OF assms(1) this, of 0] obtain w where
    w: "lines_loop srt ta 0 (ta_lines ta) TextWriter_new = Inr ((), w)" "at_lines ?ls w" by auto
  have "?ls \<noteq> []" using assms(2) by (cases "ta_lines ta") (auto simp: line_lines_def)
  with w show ?thesis
    by (auto simp: to_string_def bind_Inr at_lines_def saved_text_def tw_restore_def join_lines split: list.splits)
qed

lemma ta_lines_nonempty: "ta_lines (TextAnnotater_new source) \<noteq> []"
  by (auto simp: TextAnnotater_new_def set_source_def last_item_def split.simps [of source])

lemma join_ta_lines: "join_vector (ta_lines (TextAnnotater_new source)) [NewLine] = source"
proof (cases "source = [] \<or> last source = NewLine")
  case True
  then have "join_vector (split source NewLine @ [[]]) [NewLine] = source"
  proof (cases "source = []")
    case False
    then have "split source NewLine \<noteq> []" by (simp add: split.simps [of source])
    with True False join_split [of source NewLine] show ?thesis
      by (simp add: join_vector_snoc) (metis append_butlast_last_id)
  qed simp
  with True show ?thesis by (simp add: TextAnnotater_new_def set_source_def last_item_def)
next
  case False
  have "split source NewLine \<noteq> []" using False by (simp add: split.simps [of source])
  moreover have "last (split source NewLine) \<noteq> []" using False split_last_piece by blast
  ultimately show ?thesis
    using False join_split [of source NewLine] by (simp add: TextAnnotater_new_def set_source_def last_item_def)
qed

text \<open>C35. The annotated text. Whatever order the sort gives the annotations of a line, the output is the lines
  of the source in order, each followed by its annotations: a mark below the annotated columns, cut at the
  end of the line, with the location, or an end-of-document mark, and the message.\<close>

theorem to_string_layout:
  assumes "printable srt ta" and "ta_lines ta \<noteq> []"
  shows "to_string srt ta =
    Inr (join_vector (concat (map (line_lines srt ta) (enumerate 0 (ta_lines ta)))) [NewLine])"
  using assms by (rule to_string_lines)

text \<open>The lines an annotater is made of are the source, and without annotations it prints the source
  back, byte for byte.\<close>

theorem to_string_without_annotations: "to_string srt (TextAnnotater_new source) = Inr source"
proof -
  let ?ta = "TextAnnotater_new source"
  have none: "annotations_of srt ?ta n = []" for n
    by (simp add: annotations_of_def TextAnnotater_new_def set_source_def)
  have "map (line_lines srt ?ta) (enumerate 0 ls) = map (\<lambda>l. [l]) ls" for ls
    by (rule nth_equalityI) (simp_all add: line_lines_def none nth_enumerate_eq)
  then have "to_string srt ?ta = Inr (join_vector (ta_lines ?ta) [NewLine])"
    using to_string_lines [of srt ?ta] none ta_lines_nonempty [of source]
    by (simp add: printable_def list_all_iff)
  then show ?thesis by (simp add: join_ta_lines)
qed

theorem to_string_layout_witness:
  "to_string (\<lambda>le as. as) (annotate (u ''bad'') \<lparr>loc_line = 2, loc_column = 2, loc_length = 9, loc_end_of_source = False\<rparr>
      (TextAnnotater_new (u ''a'' @ [10] @ u ''bcd''))) =
    Inr (u ''a'' @ [10] @ u ''bcd'' @ [10] @ u '' ~~ (2, 2, 9)'' @ [10] @ u ''!!! bad'')"
proof -
  let ?ta = "annotate (u ''bad'') \<lparr>loc_line = 2, loc_column = 2, loc_length = 9, loc_end_of_source = False\<rparr>
      (TextAnnotater_new (u ''a'' @ [10] @ u ''bcd''))"
  have lines: "ta_lines ?ta = [u ''a'', u ''bcd'']"
    by (simp add: annotate_def TextAnnotater_new_def set_source_def last_item_def split.simps)
  have as: "ta_annotations ?ta = [2 \<mapsto> [\<lparr>an_location = \<lparr>loc_line = 2, loc_column = 2, loc_length = 9,
      loc_end_of_source = False\<rparr>, an_text = u ''bad''\<rparr>]]"
    by (simp add: annotate_def TextAnnotater_new_def set_source_def)
  have "printable (\<lambda>le as. as) ?ta"
    unfolding printable_def annotations_of_def as lines by (simp add: underline_length_def)
  then have "to_string (\<lambda>le as. as) ?ta =
    Inr (join_vector (concat (map (line_lines (\<lambda>le as. as) ?ta) (enumerate 0 (ta_lines ?ta)))) [NewLine])"
    using to_string_layout [of "\<lambda>le as. as" ?ta] lines by simp
  then show ?thesis
    unfolding line_lines_def annotations_of_def as lines
    by (simp add: annotation_lines_def underline_length_def location_text_def decimal.simps join_vector_Cons
        numeral_eq_Suc)
qed

end
