(* ===== verification/GraphQlParser.thy ===== *)
theory GraphQlParser
  imports GraphQlNodes GraphQlLexing TextAnnotater
begin

text \<open>
  The base class of the GraphQL parsers (\<open>src/program/graphql/graphql_parser.h\<close>, \<open>graphql_parser_impl.h\<close>, and
  the diagnostics of \<open>program/diagnostic_impl.h\<close>).  The parsers of schemas and queries extend its record.

  Nodes come from a memory pool that is never initialised, and some of their members are read without having
  been written.  \<open>ps_zeroed\<close> says that the pool's memory holds zeros; reading such a member then gives
  \<open>false\<close> or a null pointer, and is undefined otherwise.
\<close>

section \<open>State\<close>

record GraphQlParser =
  ps_scanner :: GraphQlScanner
  ps_current_description :: ustring
  ps_current_value_token :: GraphQlToken
  ps_has_description :: "bool option"
  ps_directives :: "Directive list"
  ps_directive_definitions :: "DirectiveDefinition string_map"
  ps_diagnostics :: "DiagnosticMessage list"
  ps_types :: "Type list"
  ps_declarations :: "Declaration list"
  ps_zeroed :: bool

type_synonym ('x, 'a) parser = "('x GraphQlParser_scheme, 'a) exec"

text \<open>A call of the parser's scanner.\<close>

definition on_scanner :: "(GraphQlScanner, 'a) exec \<Rightarrow> ('x, 'a) parser" where
  "on_scanner m p =
     (case m (ps_scanner p) of Inl e \<Rightarrow> Inl e | Inr (x, s) \<Rightarrow> Inr (x, p\<lparr>ps_scanner := s\<rparr>))"

definition query_scanner :: "(GraphQlScanner \<Rightarrow> flash_error + 'a) \<Rightarrow> ('x, 'a) parser" where
  "query_scanner f p = (case f (ps_scanner p) of Inl e \<Rightarrow> Inl e | Inr x \<Rightarrow> Inr (x, p))"

definition read_uninitialised :: "'a \<Rightarrow> ('x, 'a) parser" where
  "read_uninitialised zero p =
     (if ps_zeroed p then Inr (zero, p) else Inl (Undefined_behaviour ''uninitialised member''))"

definition get_type :: "type_ref \<Rightarrow> ('x, Type) parser" where
  "get_type r p = (if r < length (ps_types p) then Inr (ps_types p ! r, p)
     else Inl (Undefined_behaviour ''dangling type''))"

definition set_type :: "type_ref \<Rightarrow> Type \<Rightarrow> ('x, unit) parser" where
  "set_type r t = modify (\<lambda>p. p\<lparr>ps_types := (ps_types p)[r := t]\<rparr>)"

definition new_type :: "Type \<Rightarrow> ('x, type_ref) parser" where
  "new_type t p = Inr (length (ps_types p), p\<lparr>ps_types := ps_types p @ [t]\<rparr>)"

definition change_type :: "type_ref \<Rightarrow> (Type \<Rightarrow> Type) \<Rightarrow> ('x, unit) parser" where
  "change_type r f = bind (get_type r) (\<lambda>t. set_type r (f t))"

definition get_declaration :: "declaration_ref \<Rightarrow> ('x, Declaration) parser" where
  "get_declaration r p = (if r < length (ps_declarations p) then Inr (ps_declarations p ! r, p)
     else Inl (Undefined_behaviour ''dangling declaration''))"

definition change_declaration :: "declaration_ref \<Rightarrow> (Declaration \<Rightarrow> Declaration) \<Rightarrow> ('x, unit) parser" where
  "change_declaration r f =
     modify (\<lambda>p. p\<lparr>ps_declarations := (ps_declarations p)[r := f (ps_declarations p ! r)]\<rparr>)"

definition new_declaration :: "Declaration \<Rightarrow> ('x, declaration_ref) parser" where
  "new_declaration d p = Inr (length (ps_declarations p), p\<lparr>ps_declarations := ps_declarations p @ [d]\<rparr>)"

text \<open>Following a pointer that may be null.\<close>

definition deref :: "'a option \<Rightarrow> ('x, 'a) parser" where
  "deref x = (case x of None \<Rightarrow> throw (Undefined_behaviour ''null pointer'') | Some y \<Rightarrow> ret y)"

section \<open>Tokens and nodes\<close>

definition TakeNextToken :: "('x, GraphQlToken) parser" where
  "TakeNextToken = on_scanner (take_next_token False True)"

definition parser_take_next_token :: "bool \<Rightarrow> bool \<Rightarrow> ('x, GraphQlToken) parser" where
  "parser_take_next_token treat_keyword_as_name skip_white_space =
     on_scanner (take_next_token treat_keyword_as_name skip_white_space)"

definition parser_get_token_value :: "('x, ustring) parser" where
  "parser_get_token_value = query_scanner get_value"

definition parser_get_string_value :: "('x, ustring) parser" where
  "parser_get_string_value = gets (\<lambda>p. get_string_value (ps_scanner p))"

definition current_token_location :: "GraphQlScanner \<Rightarrow> Location" where
  "current_token_location s =
     \<lparr>loc_line = gs_line s, loc_column = gs_start_column s, loc_length = get_token_length s,
      loc_end_of_source = False\<rparr>"

text \<open>The range of a new node: the constructors take \<open>unsigned int\<close>s.\<close>

definition CreateSyntax :: "SyntaxKind \<Rightarrow> ('x, Syntax) parser" where
  "CreateSyntax kind =
     gets (\<lambda>p. \<lparr>syntax_kind = kind, syntax_start = gs_start_position (ps_scanner p) mod 2 ^ 32,
                syntax_end = gs_position (ps_scanner p) mod 2 ^ 32\<rparr>)"

definition CreateName :: "ustring \<Rightarrow> ('x, Name) parser" where
  "CreateName identifier = bind (CreateSyntax S_Name) (\<lambda>s. ret (Syntax.extend s \<lparr>nm_identifier = identifier\<rparr>))"

definition finished_end :: "GraphQlScanner \<Rightarrow> nat" where
  "finished_end s = gs_start_position s + get_token_length s"

definition finish_syntax :: "Syntax \<Rightarrow> ('x, Syntax) parser" where
  "finish_syntax s = gets (\<lambda>p. s\<lparr>syntax_end := finished_end (ps_scanner p)\<rparr>)"

definition get_location_from_syntax :: "'y Syntax_scheme \<Rightarrow> ('x, Location) parser" where
  "get_location_from_syntax syntax = query_scanner (\<lambda>s. get_token_location s (Syntax.truncate syntax))"

section \<open>Diagnostics\<close>

definition add_diagnostic_at :: "Location \<Rightarrow> D \<Rightarrow> ustring list \<Rightarrow> ('x, unit) parser" where
  "add_diagnostic_at location d args =
     modify (\<lambda>p. p\<lparr>ps_diagnostics := ps_diagnostics p @ [create_diagnostic location d args]\<rparr>)"

definition add_diagnostic :: "D \<Rightarrow> ustring list \<Rightarrow> ('x, unit) parser" where
  "add_diagnostic d args =
     bind (gets (\<lambda>p. current_token_location (ps_scanner p))) (\<lambda>l. add_diagnostic_at l d args)"

definition add_diagnostic_for :: "'y Syntax_scheme \<Rightarrow> D \<Rightarrow> ustring list \<Rightarrow> ('x, unit) parser" where
  "add_diagnostic_for syntax d args =
     bind (get_location_from_syntax syntax) (\<lambda>l. add_diagnostic_at l d args)"

definition has_diagnostic_in_syntax :: "'y Syntax_scheme \<Rightarrow> D \<Rightarrow> ('x, bool) parser" where
  "has_diagnostic_in_syntax syntax d =
     bind (get_location_from_syntax syntax) (\<lambda>l.
     gets (\<lambda>p. list_ex (\<lambda>m. message_template (dm_template m) = message_template d \<and>
       loc_line (dm_location m) = loc_line l \<and> loc_column (dm_location m) = loc_column l \<and>
       loc_length (dm_location m) = loc_length l) (ps_diagnostics p)))"

text \<open>The scanner keeps its errors on a stack.\<close>

definition take_errors_from_scanner :: "('x, unit) parser" where
  "take_errors_from_scanner =
     modify (\<lambda>p. p\<lparr>ps_diagnostics := ps_diagnostics p @ gs_errors (ps_scanner p),
                   ps_scanner := (ps_scanner p)\<lparr>gs_errors := []\<rparr>\<rparr>)"

section \<open>Expected and optional tokens\<close>

definition token_text :: "GraphQlToken \<Rightarrow> ('x, ustring) parser" where
  "token_text t = (case map_of graphQlTokenToString t of
     Some str \<Rightarrow> ret str | None \<Rightarrow> throw (Out_of_range ''map::at''))"

definition parser_scan_expected :: "GraphQlToken \<Rightarrow> bool \<Rightarrow> bool \<Rightarrow> ('x, bool) parser" where
  "parser_scan_expected token treat_keyword_as_name skip_white_space =
     bind (on_scanner (scan_expected token treat_keyword_as_name skip_white_space)) (\<lambda>result.
     if result \<noteq> token then
       bind (if result = EndOfDocument
             then bind (token_text token) (\<lambda>t.
               add_diagnostic Expected_0_but_instead_reached_the_end_of_document [t])
             else bind (token_text token) (\<lambda>t.
               bind parser_get_token_value (\<lambda>v. add_diagnostic Expected_0_but_got_1 [t, v]))) (\<lambda>_.
       ret False)
     else ret True)"

definition scan_expected_or :: "GraphQlToken \<Rightarrow> D \<Rightarrow> bool \<Rightarrow> ('x, bool) parser" where
  "scan_expected_or token d treat_keyword_as_name =
     bind (on_scanner (scan_expected token treat_keyword_as_name True)) (\<lambda>result.
     if result \<noteq> token then
       bind parser_get_token_value (\<lambda>v. bind (add_diagnostic d [v]) (\<lambda>_. ret False))
     else ret True)"

definition parser_scan_optional :: "GraphQlToken \<Rightarrow> bool \<Rightarrow> ('x, bool) parser" where
  "parser_scan_optional token treat_keyword_as_name =
     bind (on_scanner (try_scan token treat_keyword_as_name True)) (\<lambda>result. ret (result = token))"

definition parser_skip_to :: "GraphQlToken list \<Rightarrow> ('x, GraphQlToken) parser" where
  "parser_skip_to ts = on_scanner (skip_to ts)"

section \<open>Numbers, locations, names of types and texts of values\<close>

text \<open>\<open>std::atoi\<close> on the text of an integer token.\<close>

definition atoi :: "ustring \<Rightarrow> flash_error + int" where
  "atoi str =
     (let neg = (str \<noteq> [] \<and> hd str = Minus);
          ds = takeWhile is_digit (if neg then tl str else str);
          n = foldl (\<lambda>a d. 10 * a + (int d - 48)) 0 ds;
          i = (if neg then - n else n)
      in if - (2 ^ 31) \<le> i \<and> i < 2 ^ 31 then Inr i else Inl (Undefined_behaviour ''atoi''))"

definition location_name :: "DirectiveLocation \<Rightarrow> ('x, ustring) parser" where
  "location_name l = (case map_of directiveLocationToString l of
     Some str \<Rightarrow> ret str | None \<Rightarrow> throw (Out_of_range ''map::at''))"


definition get_type_name :: "Type \<Rightarrow> ('x, ustring) parser" where
  "get_type_name t =
     bind (case ty_type t of
             T_Boolean \<Rightarrow> ret (u ''Boolean'')
           | T_Int \<Rightarrow> ret (u ''Int'')
           | T_Float \<Rightarrow> ret (u ''Float'')
           | T_String \<Rightarrow> ret (u ''String'')
           | T_ID \<Rightarrow> ret (u ''ID'')
           | T_Object \<Rightarrow> bind (deref (ty_name t)) (\<lambda>n. ret (nm_identifier n))
           | T_Enum \<Rightarrow> bind (deref (ty_name t)) (\<lambda>n. ret (nm_identifier n))
           | _ \<Rightarrow> throw (Logic_error ''Should not reach here.'')) (\<lambda>name.
     ret ((if ty_is_list_type t then u ''['' else []) @ name @
          (if ty_is_non_null t then u ''!'' else []) @
          (if ty_is_list_type t then u '']'' else []) @
          (if ty_is_non_null_list t then u ''!'' else [])))"

text \<open>
  The text of a value is written with a \<open>TextWriter\<close> of its own per call; every element is followed by
  a comma, and the writer goes back to before the last one.  The branch of objects falls through to the
  one of unknown values.
\<close>

definition int_text :: "int \<Rightarrow> ustring" where
  "int_text i = (if i < 0 then Minus # decimal (nat (- i)) else decimal (nat i))"

definition written :: "(TextWriter, unit) exec \<Rightarrow> flash_error + ustring" where
  "written m = (case m TextWriter_new of Inl e \<Rightarrow> Inl e | Inr (x, w) \<Rightarrow> Inr (tw_text w))"

fun get_value_string :: "Value \<Rightarrow> flash_error + ustring"
  and write_values :: "Value list \<Rightarrow> (TextWriter, unit) exec"
  and write_object_fields :: "ObjectField list \<Rightarrow> (TextWriter, unit) exec"
  and object_field_string :: "ObjectField \<Rightarrow> flash_error + ustring" where
  "get_value_string (ListValue s vs) =
     written (bind (write_text (u ''['')) (\<lambda>_. bind (write_values vs) (\<lambda>_. bind tw_restore (\<lambda>_.
       write_text (u '']'')))))"
| "get_value_string (BooleanValue s b) =
     written (write_text (if b then u ''true'' else u ''false''))"
| "get_value_string (NullValue s) = written (write_text (u ''null''))"
| "get_value_string (IntValue s i) = written (write_text (int_text i))"
| "get_value_string (FloatValue s str) = written (write_text str)"
| "get_value_string (EnumValue s str) = written (write_text str)"
| "get_value_string (StringValue s str) = written (write_text str)"
| "get_value_string (ObjectValue s fs) =
     written (bind (write_text (u ''{'')) (\<lambda>_. bind (write_object_fields fs) (\<lambda>_. bind tw_restore (\<lambda>_.
       bind (write_text (u ''}'')) (\<lambda>_. throw (Logic_error ''Unknown value.''))))))"
| "write_values [] = ret ()"
| "write_values (v # vs) =
     (case get_value_string v of
        Inl e \<Rightarrow> throw e
      | Inr t \<Rightarrow> bind (write_text t) (\<lambda>_. bind (modify tw_save) (\<lambda>_. bind (write_text (u '', '')) (\<lambda>_.
          write_values vs))))"
| "write_object_fields [] = ret ()"
| "write_object_fields (ObjectField s n v # fs) =
     bind (write_text (nm_identifier n @ u '': '')) (\<lambda>_.
     case object_field_string (ObjectField s n v) of
        Inl e \<Rightarrow> throw e
      | Inr t \<Rightarrow> bind (write_text t) (\<lambda>_. bind (modify tw_save) (\<lambda>_. bind (write_text (u '','')) (\<lambda>_.
          write_object_fields fs))))"
| "object_field_string (ObjectField s n (Some v)) = get_value_string v"
| "object_field_string (ObjectField s n None) = Inl (Undefined_behaviour ''null pointer'')"

definition parser_value_string :: "Value \<Rightarrow> ('x, ustring) parser" where
  "parser_value_string v = (case get_value_string v of Inl e \<Rightarrow> throw e | Inr t \<Rightarrow> ret t)"

end
