(* ===== verification/GraphQlSchema.thy ===== *)
theory GraphQlSchema
  imports GraphQlParser
begin

text \<open>
  The parser of schemas (\<open>src/program/graphql/graphql_schema.h\<close> and the parsing half of
  \<open>graphql_schema.cpp\<close>).  A method that returns a node or a null pointer returns an option.  Every loop and
  every recursion takes a token first or stops; the definitions carry fuel, and \<open>GraphQlSchemaParsing\<close> shows
  that twice the length of the source is enough.
\<close>

section \<open>State\<close>

text \<open>The pointers to the root types are not initialised by the constructor; \<open>None\<close> until one is written.\<close>

record GraphQlSchema = GraphQlParser +
  sc_definitions :: "Definition list"
  sc_query :: "declaration_ref option option"
  sc_mutation :: "declaration_ref option option"
  sc_subscription :: "declaration_ref option option"
  sc_symbols :: "Symbol string_map"
  sc_forward_type_references :: "type_ref list"
  sc_forward_interface_references :: "Name list"
  sc_interfaces :: "declaration_ref string_map"
  sc_objects_with_implementations :: "declaration_ref list"
  sc_unions :: "declaration_ref list"
  sc_duplicate_symbols :: "ustring list"

type_synonym 'a schema_parser = "(GraphQlSchema, 'a) exec"

text \<open>The flag \<open>has_description\<close> is not initialised by the constructor.\<close>

definition get_has_description :: "bool schema_parser" where
  "get_has_description =
     bind (gets ps_has_description) (\<lambda>h. case h of None \<Rightarrow> read_uninitialised False | Some b \<Rightarrow> ret b)"

definition description_if_any :: "ustring schema_parser" where
  "description_if_any =
     bind get_has_description (\<lambda>h. if h then gets ps_current_description else ret [])"

section \<open>Values and directives\<close>

definition schema_primary_tokens :: "GraphQlToken list" where
  "schema_primary_tokens =
     [DirectiveKeyword, EnumKeyword, InputKeyword, InterfaceKeyword, SchemaKeyword, TypeKeyword, UnionKeyword]"

definition token_is_primary :: "GraphQlToken \<Rightarrow> bool" where
  "token_is_primary t \<longleftrightarrow> t \<in> {DirectiveKeyword, EnumKeyword, InputKeyword, InterfaceKeyword, SchemaKeyword,
     TypeKeyword, UnionKeyword, EndOfDocument}"

definition skip_to_next_primary_token :: "unit schema_parser" where
  "skip_to_next_primary_token = bind (parser_skip_to schema_primary_tokens) (\<lambda>_. ret ())"

fun parse_value :: "nat \<Rightarrow> Value option schema_parser"
  and parse_values :: "nat \<Rightarrow> Value list \<Rightarrow> Value list schema_parser"
  and parse_object_fields :: "nat \<Rightarrow> ObjectField list \<Rightarrow> ObjectField list option schema_parser" where
  "parse_value 0 = throw Out_of_fuel"
| "parse_value (Suc n) =
     bind TakeNextToken (\<lambda>token.
     bind (modify (\<lambda>p. p\<lparr>ps_current_value_token := token\<rparr>)) (\<lambda>_.
     if token = OpenBracket then
       bind (CreateSyntax S_ListValue) (\<lambda>s.
       bind (parse_values n []) (\<lambda>vs.
       bind (gets ps_current_value_token) (\<lambda>current.
       bind (if current \<noteq> CloseBracket
             then bind parser_get_token_value (\<lambda>v. add_diagnostic Expected_0_but_got_1 [u '']'', v])
             else ret ()) (\<lambda>_.
       bind (finish_syntax s) (\<lambda>s. ret (Some (ListValue s vs)))))))
     else if token = CloseBracket then ret None
     else if token = NullKeyword then bind (CreateSyntax S_NullValue) (\<lambda>s. ret (Some (NullValue s)))
     else if token = G_StringValue then
       bind (CreateSyntax S_StringValue) (\<lambda>s.
       bind parser_get_token_value (\<lambda>v. ret (Some (StringValue s v))))
     else if token = IntegerLiteral then
       bind (CreateSyntax S_IntValue) (\<lambda>s.
       bind parser_get_token_value (\<lambda>v.
       case atoi v of Inl e \<Rightarrow> throw e | Inr i \<Rightarrow> ret (Some (IntValue s i))))
     else if token = FloatLiteral then
       bind (CreateSyntax S_FloatValue) (\<lambda>s.
       bind parser_get_token_value (\<lambda>v. ret (Some (FloatValue s v))))
     else if token = TrueKeyword then
       bind (CreateSyntax S_BooleanValue) (\<lambda>s. ret (Some (BooleanValue s True)))
     else if token = FalseKeyword then
       bind (CreateSyntax S_BooleanValue) (\<lambda>s. ret (Some (BooleanValue s False)))
     else if token = G_Name then
       bind parser_get_token_value (\<lambda>v.
       bind (CreateSyntax S_EnumValue) (\<lambda>s. ret (Some (EnumValue s v))))
     else if token = OpenBrace then
       bind (CreateSyntax S_ObjectValue) (\<lambda>s.
       bind (parse_object_fields n []) (\<lambda>fs.
       case fs of
         None \<Rightarrow> ret None
       | Some fs \<Rightarrow> bind (finish_syntax s) (\<lambda>s. ret (Some (ObjectValue s fs)))))
     else
       bind parser_get_token_value (\<lambda>v.
       bind (add_diagnostic Expected_value_instead_got_0 [v]) (\<lambda>_.
       bind (parser_skip_to [G_Name, CloseParen]) (\<lambda>_. ret None)))))"
| "parse_values 0 values = throw Out_of_fuel"
| "parse_values (Suc n) values =
     bind (parse_value n) (\<lambda>v.
     case v of None \<Rightarrow> ret values | Some v \<Rightarrow> parse_values n (values @ [v]))"
| "parse_object_fields 0 ofs = throw Out_of_fuel"
| "parse_object_fields (Suc n) ofs =
     bind (parser_take_next_token True True) (\<lambda>token.
     if token = CloseBrace \<or> token = EndOfDocument then ret (Some ofs)
     else if token \<noteq> G_Name then
       bind (add_diagnostic Expected_object_field_name []) (\<lambda>_.
       bind (parser_skip_to [CloseBrace, G_Name]) (\<lambda>t.
       if t = G_Name then parse_object_fields n ofs else ret (Some ofs)))
     else
       bind parser_get_token_value (\<lambda>name.
       bind (CreateSyntax S_ObjectField) (\<lambda>s.
       bind (CreateName name) (\<lambda>nm.
       bind (parser_scan_expected Colon False True) (\<lambda>ok.
       if \<not> ok then ret None
       else bind (parse_value n) (\<lambda>v. parse_object_fields n (ofs @ [ObjectField s nm v])))))))"

fun parse_arguments_after_open_paren :: "nat \<Rightarrow> Argument string_map \<Rightarrow> Argument string_map schema_parser" where
  "parse_arguments_after_open_paren 0 arguments = throw Out_of_fuel"
| "parse_arguments_after_open_paren (Suc n) arguments =
     bind (parser_take_next_token True True) (\<lambda>token.
     if token = CloseParen then ret arguments
     else
       bind parser_get_token_value (\<lambda>token_value.
       bind (CreateName token_value) (\<lambda>name.
       bind (CreateSyntax S_Argument) (\<lambda>s.
       bind (parser_scan_expected Colon False True) (\<lambda>ok.
       if \<not> ok then bind (parser_skip_to [CloseBrace]) (\<lambda>_. ret arguments)
       else
         bind (parse_value n) (\<lambda>v.
         case map_of arguments token_value of
           None \<Rightarrow>
             parse_arguments_after_open_paren n
               (emplace token_value (Syntax.extend s \<lparr>ar_name = name, ar_value = v\<rparr>) arguments)
         | Some other \<Rightarrow>
             bind (has_diagnostic_in_syntax (ar_name other) Duplicate_argument_0) (\<lambda>has.
             bind (if \<not> has then add_diagnostic_for (ar_name other) Duplicate_argument_0 [token_value]
                   else ret ()) (\<lambda>_.
             bind (add_diagnostic_for name Duplicate_argument_0 [token_value]) (\<lambda>_.
             parse_arguments_after_open_paren n arguments)))))))))"

fun parse_directives_loop ::
  "nat \<Rightarrow> DirectiveLocation \<Rightarrow> ustring option \<Rightarrow> Directive string_map \<Rightarrow> Directive string_map schema_parser" where
  "parse_directives_loop 0 location parent directives = throw Out_of_fuel"
| "parse_directives_loop (Suc n) location parent directives =
     bind (parser_scan_optional At False) (\<lambda>found.
     if \<not> found then ret directives
     else
       bind (parser_take_next_token True False) (\<lambda>token.
       if token \<noteq> G_Name then
         bind parser_get_token_value (\<lambda>v.
         bind (add_diagnostic Expected_name_but_instead_got_0 [v]) (\<lambda>_.
         bind skip_to_next_primary_token (\<lambda>_. ret directives)))
       else
         bind (CreateSyntax S_Directive) (\<lambda>s.
         bind parser_get_token_value (\<lambda>name.
         bind (CreateName name) (\<lambda>nm.
         bind (parser_scan_optional OpenParen False) (\<lambda>paren.
         bind (if paren then parse_arguments_after_open_paren n [] else ret []) (\<lambda>arguments.
         let directive = Syntax.extend (s\<lparr>syntax_start := sub64 (syntax_start s) 1\<rparr>)
               \<lparr>di_name = nm, di_arguments = arguments, di_parent_directive_definition = parent,
                di_location = location\<rparr> in
         bind (modify (\<lambda>p. p\<lparr>ps_directives := ps_directives p @ [directive]\<rparr>)) (\<lambda>_.
         if map_of directives name = None
         then parse_directives_loop n location parent (emplace name directive directives)
         else bind (add_diagnostic Duplicate_argument_0 [name]) (\<lambda>_.
           parse_directives_loop n location parent directives)))))))))"

definition parse_directives :: "nat \<Rightarrow> DirectiveLocation \<Rightarrow> ustring option \<Rightarrow> Directive string_map schema_parser" where
  "parse_directives n location parent = parse_directives_loop n location parent []"

section \<open>Types and arguments\<close>

definition annotation_type :: "GraphQlToken \<Rightarrow> TypeEnum option" where
  "annotation_type token =
     (if token = IntKeyword then Some T_Int
      else if token = FloatKeyword then Some T_Float
      else if token = StringKeyword then Some T_String
      else if token = BooleanKeyword then Some T_Boolean
      else if token = IDKeyword then Some T_ID
      else if token = G_Name then Some T_Object
      else None)"

definition finish_type :: "type_ref \<Rightarrow> type_ref option schema_parser" where
  "finish_type r =
     bind (gets (\<lambda>p. finished_end (ps_scanner p))) (\<lambda>e.
     bind (change_type r (\<lambda>t. t\<lparr>syntax_end := e\<rparr>)) (\<lambda>_. ret (Some r)))"

definition parse_type_annotation :: "bool \<Rightarrow> ustring option \<Rightarrow> type_ref option schema_parser" where
  "parse_type_annotation in_input_location parent =
     bind TakeNextToken (\<lambda>first.
     bind (CreateSyntax S_Type) (\<lambda>s.
     bind (if first = OpenBracket then TakeNextToken else ret first) (\<lambda>token.
     case annotation_type token of
       None \<Rightarrow>
         bind parser_get_token_value (\<lambda>v.
         bind (add_diagnostic Expected_type_annotation_instead_got_0 [v]) (\<lambda>_. ret None))
     | Some te \<Rightarrow>
         bind (if token = G_Name then bind parser_get_token_value (\<lambda>v. bind (CreateName v) (\<lambda>nm. ret (Some nm)))
               else ret None) (\<lambda>name.
         bind (new_type (Syntax.extend s
           \<lparr>ty_type = te, ty_is_non_null = False, ty_is_list_type = (first = OpenBracket),
            ty_is_non_null_list = False, ty_in_input_location = in_input_location, ty_name = name,
            ty_parent_directive_definition = parent\<rparr>)) (\<lambda>r.
         bind (if token = G_Name
               then modify (\<lambda>p. p\<lparr>sc_forward_type_references := sc_forward_type_references p @ [r]\<rparr>)
               else ret ()) (\<lambda>_.
         bind (parser_scan_optional Exclamation False) (\<lambda>non_null.
         bind (change_type r (\<lambda>t. t\<lparr>ty_is_non_null := non_null\<rparr>)) (\<lambda>_.
         bind (if first = OpenBracket then ret True else read_uninitialised False) (\<lambda>is_list.
         if is_list then
           bind (parser_scan_expected CloseBracket False True) (\<lambda>ok.
           if \<not> ok then ret None
           else
             bind (parser_scan_optional Exclamation False) (\<lambda>non_null_list.
             bind (change_type r (\<lambda>t. t\<lparr>ty_is_non_null_list := non_null_list\<rparr>)) (\<lambda>_. finish_type r)))
         else finish_type r))))))))) "

fun parse_arguments_definition_after_open_paren ::
  "nat \<Rightarrow> ustring option \<Rightarrow> InputValueDefinition string_map \<Rightarrow> InputValueDefinition string_map schema_parser" where
  "parse_arguments_definition_after_open_paren 0 parent arguments = throw Out_of_fuel"
| "parse_arguments_definition_after_open_paren (Suc n) parent arguments =
     bind (parser_take_next_token True True) (\<lambda>token.
     if token = G_StringValue then
       bind parser_get_string_value (\<lambda>d.
       bind (modify (\<lambda>p. p\<lparr>ps_current_description := d, ps_has_description := Some True\<rparr>)) (\<lambda>_.
       parse_arguments_definition_after_open_paren n parent arguments))
     else
       bind (CreateSyntax S_InputValueDefinition) (\<lambda>s.
       bind get_has_description (\<lambda>h.
       bind (if h then bind (gets ps_current_description) (\<lambda>d.
               bind (modify (\<lambda>p. p\<lparr>ps_has_description := Some False\<rparr>)) (\<lambda>_. ret d))
             else ret []) (\<lambda>description.
       if token = CloseParen then ret arguments
       else if token = EndOfDocument then ret arguments
       else if token \<noteq> G_Name then
         bind (add_diagnostic Expected_name_of_argument []) (\<lambda>_. ret arguments)
       else
         bind parser_get_token_value (\<lambda>name.
         bind (CreateName name) (\<lambda>nm.
         bind (parser_scan_expected Colon False True) (\<lambda>ok.
         if \<not> ok then ret arguments
         else
           bind (parse_type_annotation True parent) (\<lambda>ty.
           bind (parse_directives n ARGUMENT_DEFINITION parent) (\<lambda>ds.
           if map_of arguments name = None then
             parse_arguments_definition_after_open_paren n parent
               (emplace name (Syntax.extend s
                 \<lparr>iv_name = nm, iv_description = description, iv_type = ty, iv_directives = ds\<rparr>) arguments)
           else
             bind (add_diagnostic Duplicate_argument_0 [name]) (\<lambda>_.
             parse_arguments_definition_after_open_paren n parent arguments)))))))))) "

section \<open>Definitions\<close>

text \<open>
  Entering a name into the table of symbols; the second definition of a name is reported, and the
  first one too, once.
\<close>

definition declare_symbol :: "Name \<Rightarrow> declaration_ref \<Rightarrow> SymbolKind \<Rightarrow> unit schema_parser" where
  "declare_symbol name r kind =
     bind (gets (\<lambda>p. map_of (sc_symbols p) (nm_identifier name))) (\<lambda>found.
     case found of
       None \<Rightarrow> modify (\<lambda>p. p\<lparr>sc_symbols := emplace (nm_identifier name)
         \<lparr>sy_name = nm_identifier name, sy_declaration = r, sy_kind = kind\<rparr> (sc_symbols p)\<rparr>)
     | Some sy \<Rightarrow>
         bind (add_diagnostic_for name Duplicate_type_0 [nm_identifier name]) (\<lambda>_.
         bind (gets sc_duplicate_symbols) (\<lambda>dups.
         if nm_identifier name \<notin> set dups then
           bind (get_declaration (sy_declaration sy)) (\<lambda>d.
           bind (deref (dc_name d)) (\<lambda>n.
           bind (add_diagnostic_for n Duplicate_type_0 [sy_name sy]) (\<lambda>_.
           modify (\<lambda>p. p\<lparr>sc_duplicate_symbols := nm_identifier name # sc_duplicate_symbols p\<rparr>))))
         else ret ())))"

definition parse_object_name :: "declaration_ref \<Rightarrow> SymbolKind \<Rightarrow> Name option schema_parser" where
  "parse_object_name r kind =
     bind (scan_expected_or G_Name Expected_type_name_instead_got_0 True) (\<lambda>ok.
     if \<not> ok then ret None
     else
       bind parser_get_token_value (\<lambda>token_value.
       bind (CreateName token_value) (\<lambda>name.
       bind (declare_symbol name r kind) (\<lambda>_. ret (Some name)))))"

definition parse_input_object_name :: "declaration_ref \<Rightarrow> Name option schema_parser" where
  "parse_input_object_name r =
     bind (scan_expected_or G_Name Expected_type_name_instead_got_0 False) (\<lambda>ok.
     if \<not> ok then ret None
     else
       bind parser_get_token_value (\<lambda>token_value.
       bind (CreateName token_value) (\<lambda>name.
       bind (declare_symbol name r SL_InputObject) (\<lambda>_. ret (Some name)))))"

fun parse_fields_definition_after_open_brace ::
  "nat \<Rightarrow> FieldDefinition string_map \<Rightarrow> ustring list \<Rightarrow> ustring \<Rightarrow> FieldDefinition string_map option schema_parser"
  where
  "parse_fields_definition_after_open_brace 0 fs names description = throw Out_of_fuel"
| "parse_fields_definition_after_open_brace (Suc n) fs names description =
     bind (parser_take_next_token True True) (\<lambda>field_token.
     if field_token = EndOfDocument then
       bind (add_diagnostic Expected_0_but_instead_reached_the_end_of_document [u ''}'']) (\<lambda>_. ret None)
     else if field_token = CloseBrace \<and> fs \<noteq> [] then ret (Some fs)
     else if field_token = G_StringValue then
       bind parser_get_string_value (\<lambda>d. parse_fields_definition_after_open_brace n fs names d)
     else if field_token \<noteq> G_Name then
       (if field_token = InvalidString then
          bind take_errors_from_scanner (\<lambda>_. parse_fields_definition_after_open_brace n fs names description)
        else bind (add_diagnostic Expected_field_definition []) (\<lambda>_. ret None))
     else
       bind (CreateSyntax S_FieldDefinition) (\<lambda>s.
       bind parser_get_token_value (\<lambda>name.
       bind (if name \<in> set names then add_diagnostic Duplicate_field_0 [name] else ret ()) (\<lambda>_.
       bind (CreateName name) (\<lambda>nm.
       bind (parser_scan_optional OpenParen False) (\<lambda>paren.
       bind (if paren then parse_arguments_definition_after_open_paren n None [] else ret []) (\<lambda>arguments.
       bind (parser_scan_expected Colon False True) (\<lambda>ok.
       if \<not> ok then ret None
       else
         bind (parse_type_annotation False None) (\<lambda>ty.
         case ty of
           None \<Rightarrow> ret None
         | Some ty \<Rightarrow>
             bind (parse_directives n FIELD_DEFINITION None) (\<lambda>ds.
             parse_fields_definition_after_open_brace n
               (emplace name (Syntax.extend s \<lparr>fdf_name = nm, fdf_description = description,
                  fdf_arguments = arguments, fdf_type = ty, fdf_directives = ds\<rparr>) fs)
               (name # names) []))))))))))"

definition parse_fields_definition :: "nat \<Rightarrow> FieldDefinition string_map option schema_parser" where
  "parse_fields_definition n =
     bind (parser_scan_expected OpenBrace False True) (\<lambda>ok.
     if \<not> ok then ret None else parse_fields_definition_after_open_brace n [] [] [])"

text \<open>The fields of an input object, with the names of the required ones.\<close>

fun parse_input_fields_loop ::
  "nat \<Rightarrow> declaration_ref \<Rightarrow> InputFieldDefinition string_map \<Rightarrow> InputFieldDefinition string_map option schema_parser"
  where
  "parse_input_fields_loop 0 r fs = throw Out_of_fuel"
| "parse_input_fields_loop (Suc n) r fs =
     bind (CreateSyntax S_InputFieldDefinition) (\<lambda>s.
     bind (parser_take_next_token True True) (\<lambda>field_token.
     if field_token = EndOfDocument then
       bind (add_diagnostic Expected_0_but_instead_reached_the_end_of_document [u ''}'']) (\<lambda>_. ret None)
     else if field_token = CloseBrace \<and> fs \<noteq> [] then ret (Some fs)
     else if field_token = G_StringValue then parse_input_fields_loop n r fs
     else if field_token \<noteq> G_Name then
       (if field_token = InvalidString then
          bind take_errors_from_scanner (\<lambda>_. parse_input_fields_loop n r fs)
        else bind (add_diagnostic Expected_field_definition []) (\<lambda>_. ret None))
     else
       bind parser_get_token_value (\<lambda>name.
       bind (CreateName name) (\<lambda>nm.
       bind (parser_scan_expected Colon False True) (\<lambda>ok.
       if \<not> ok then ret None
       else
         bind (parse_type_annotation True None) (\<lambda>ty.
         case ty of
           None \<Rightarrow> ret None
         | Some ty \<Rightarrow>
             bind (get_type ty) (\<lambda>t.
             bind (if ty_is_non_null t \<or> ty_is_non_null_list t
                   then change_declaration r (\<lambda>d. d\<lparr>dc_body := (case dc_body d of
                     InputObject_body f required \<Rightarrow> InputObject_body f (required @ [name]) | b \<Rightarrow> b)\<rparr>)
                   else ret ()) (\<lambda>_.
             bind (parse_directives n INPUT_FIELD_DEFINITION None) (\<lambda>ds.
             parse_input_fields_loop n r
               (emplace name (Syntax.extend s \<lparr>ifd_name = nm, ifd_type = ty, ifd_directives = ds\<rparr>) fs))))))))))"

definition parse_input_fields_definition ::
  "nat \<Rightarrow> declaration_ref \<Rightarrow> InputFieldDefinition string_map option schema_parser" where
  "parse_input_fields_definition n r =
     bind (parser_scan_expected OpenBrace False True) (\<lambda>ok.
     if \<not> ok then ret None else parse_input_fields_loop n r [])"

fun parse_implementations :: "nat \<Rightarrow> Name string_map \<Rightarrow> Name string_map option schema_parser" where
  "parse_implementations 0 implementations = throw Out_of_fuel"
| "parse_implementations (Suc n) implementations =
     bind TakeNextToken (\<lambda>token.
     if token = EndOfDocument then
       bind (add_diagnostic Unexpected_end_of_implementations []) (\<lambda>_. ret None)
     else if token \<noteq> G_Name then
       bind (add_diagnostic Expected_name_of_interface []) (\<lambda>_. ret None)
     else
       bind parser_get_token_value (\<lambda>token_value.
       bind (CreateName token_value) (\<lambda>name.
       bind (gets (\<lambda>p. map_of (sc_symbols p) token_value)) (\<lambda>found.
       bind (case found of
               None \<Rightarrow> modify (\<lambda>p. p\<lparr>sc_forward_interface_references :=
                 sc_forward_interface_references p @ [name]\<rparr>)
             | Some sy \<Rightarrow>
                 if sy_kind sy \<noteq> SL_Interface then add_diagnostic Expected_name_of_interface [] else ret ()) (\<lambda>_.
       bind TakeNextToken (\<lambda>post_token.
       if post_token = OpenBrace then ret (Some (emplace token_value name implementations))
       else if post_token = Ampersand then parse_implementations n (emplace token_value name implementations)
       else
         bind parser_get_token_value (\<lambda>v.
         bind (add_diagnostic Expected_0_but_got_1 [u ''{'', v]) (\<lambda>_.
         bind (on_scanner skip_block) (\<lambda>_. ret None)))))))))"

definition create_declaration :: "SyntaxKind \<Rightarrow> DeclarationBody \<Rightarrow> declaration_ref schema_parser" where
  "create_declaration kind body =
     bind (CreateSyntax kind) (\<lambda>s.
     new_declaration (Syntax.extend s \<lparr>dc_name = None, dc_description = [], dc_directives = [], dc_body = body\<rparr>))"

definition parse_interface_definition :: "nat \<Rightarrow> declaration_ref option schema_parser" where
  "parse_interface_definition n =
     bind (create_declaration S_Interface (Interface_body None)) (\<lambda>r.
     bind (parse_object_name r SL_Interface) (\<lambda>name.
     bind description_if_any (\<lambda>description.
     bind (change_declaration r (\<lambda>d. d\<lparr>dc_name := name, dc_description := description\<rparr>)) (\<lambda>_.
     case name of
       None \<Rightarrow> ret None
     | Some nm \<Rightarrow>
         bind (parse_directives n INTERFACE None) (\<lambda>ds.
         bind (change_declaration r (\<lambda>d. d\<lparr>dc_directives := ds\<rparr>)) (\<lambda>_.
         bind (parse_fields_definition n) (\<lambda>fs.
         bind (change_declaration r (\<lambda>d. d\<lparr>dc_body := Interface_body fs\<rparr>)) (\<lambda>_.
         bind (modify (\<lambda>p. p\<lparr>sc_interfaces := emplace (nm_identifier nm) r (sc_interfaces p)\<rparr>)) (\<lambda>_.
         ret (Some r))))))))))"

definition parse_object :: "nat \<Rightarrow> declaration_ref option schema_parser" where
  "parse_object n =
     bind (create_declaration S_Object (Object_body None None)) (\<lambda>r.
     bind (parse_object_name r SL_Object) (\<lambda>name.
     bind description_if_any (\<lambda>description.
     bind (change_declaration r (\<lambda>d. d\<lparr>dc_name := name, dc_description := description\<rparr>)) (\<lambda>_.
     case name of
       None \<Rightarrow> ret None
     | Some nm \<Rightarrow>
         bind (parse_directives n OBJECT None) (\<lambda>ds.
         bind (change_declaration r (\<lambda>d. d\<lparr>dc_directives := ds\<rparr>)) (\<lambda>_.
         bind (parser_scan_optional ImplementsKeyword False) (\<lambda>implements.
         if implements then
           bind (parse_implementations n []) (\<lambda>is.
           case is of
             None \<Rightarrow> ret None
           | Some is \<Rightarrow>
               bind (change_declaration r (\<lambda>d. d\<lparr>dc_body := Object_body None (Some is)\<rparr>)) (\<lambda>_.
               bind (parse_fields_definition_after_open_brace n [] [] []) (\<lambda>fs.
               bind (change_declaration r (\<lambda>d. d\<lparr>dc_body := Object_body fs (Some is)\<rparr>)) (\<lambda>_.
               bind (modify (\<lambda>p. p\<lparr>sc_objects_with_implementations :=
                 sc_objects_with_implementations p @ [r]\<rparr>)) (\<lambda>_.
               ret (if fs = None then None else Some r))))))
         else
           bind (parse_fields_definition n) (\<lambda>fs.
           bind (change_declaration r (\<lambda>d. d\<lparr>dc_body := Object_body fs None\<rparr>)) (\<lambda>_.
           ret (if fs = None then None else Some r))))))))))"

definition parse_input_object :: "nat \<Rightarrow> declaration_ref option schema_parser" where
  "parse_input_object n =
     bind (create_declaration S_InputObject (InputObject_body None [])) (\<lambda>r.
     bind (parse_input_object_name r) (\<lambda>name.
     bind description_if_any (\<lambda>description.
     bind (change_declaration r (\<lambda>d. d\<lparr>dc_name := name, dc_description := description\<rparr>)) (\<lambda>_.
     case name of
       None \<Rightarrow> ret None
     | Some nm \<Rightarrow>
         bind (parse_directives n INPUT_OBJECT None) (\<lambda>ds.
         bind (change_declaration r (\<lambda>d. d\<lparr>dc_directives := ds\<rparr>)) (\<lambda>_.
         bind (parse_input_fields_definition n r) (\<lambda>fs.
         bind (change_declaration r (\<lambda>d. d\<lparr>dc_body := (case dc_body d of
           InputObject_body f required \<Rightarrow> InputObject_body fs required | b \<Rightarrow> b)\<rparr>)) (\<lambda>_.
         ret (if fs = None then None else Some r)))))))))"

definition is_valid_enum_value :: "GraphQlToken \<Rightarrow> bool" where
  "is_valid_enum_value token \<longleftrightarrow>
     token = G_Name \<or>
     token \<notin> {TrueKeyword, FalseKeyword, NullKeyword, Unknown} \<and>
     token \<in> {MutationKeyword, QueryKeyword, SubscriptionKeyword, DirectiveKeyword, EnumKeyword, FragmentKeyword,
       InputKeyword, InterfaceKeyword, SchemaKeyword, TypeKeyword, UnionKeyword, IDKeyword, IntKeyword,
       FloatKeyword, StringKeyword, BooleanKeyword, NullKeyword, TrueKeyword, FalseKeyword, ImplementsKeyword}"

text \<open>The values of an enum; the description of a value is lost, because it is cleared on every turn.\<close>

fun parse_enum_values :: "nat \<Rightarrow> declaration_ref \<Rightarrow> EnumValueDefinition string_map \<Rightarrow> bool schema_parser"
  where
  "parse_enum_values 0 r vals = throw Out_of_fuel"
| "parse_enum_values (Suc n) r vals =
     bind TakeNextToken (\<lambda>token.
     if token = CloseBrace \<and> vals \<noteq> [] then ret True
     else if token = G_StringValue then parse_enum_values n r vals
     else if token = EndOfDocument then
       bind (add_diagnostic Expected_0_but_instead_reached_the_end_of_document [u ''enum value'']) (\<lambda>_. ret False)
     else if \<not> is_valid_enum_value token then
       bind parser_get_token_value (\<lambda>v.
       bind (add_diagnostic Expected_enum_value_but_instead_got_0 [v]) (\<lambda>_.
       bind (parser_skip_to [CloseBrace]) (\<lambda>_. ret True)))
     else
       bind parser_get_token_value (\<lambda>token_value.
       bind (CreateName token_value) (\<lambda>nm.
       bind (parse_directives n ENUM_VALUE None) (\<lambda>ds.
       let vals' = emplace token_value (Name.extend nm \<lparr>ev_description = [], ev_directives = ds\<rparr>) vals in
       bind (change_declaration r (\<lambda>d. d\<lparr>dc_body := Enum_body vals'\<rparr>)) (\<lambda>_.
       parse_enum_values n r vals')))))"

definition parse_enum :: "nat \<Rightarrow> declaration_ref option schema_parser" where
  "parse_enum n =
     bind (parser_scan_expected G_Name False True) (\<lambda>ok.
     if \<not> ok then ret None
     else
       bind (create_declaration S_EnumTypeDefinition (Enum_body [])) (\<lambda>r.
       bind parser_get_token_value (\<lambda>enum_name.
       bind (CreateName enum_name) (\<lambda>nm.
       bind (change_declaration r (\<lambda>d. d\<lparr>dc_name := Some nm\<rparr>)) (\<lambda>_.
       bind (declare_symbol nm r SL_Enum) (\<lambda>_.
       bind (parse_directives n ENUM None) (\<lambda>ds.
       bind (change_declaration r (\<lambda>d. d\<lparr>dc_directives := ds\<rparr>)) (\<lambda>_.
       bind (parser_scan_expected OpenBrace False True) (\<lambda>ok.
       if \<not> ok then ret None
       else
         bind (parse_enum_values n r []) (\<lambda>ok. ret (if ok then Some r else None)))))))))))"

text \<open>The members of a union behind the first.\<close>

fun parse_union_members :: "nat \<Rightarrow> Name string_map \<Rightarrow> Name string_map option schema_parser" where
  "parse_union_members 0 members = throw Out_of_fuel"
| "parse_union_members (Suc n) members =
     bind (on_scanner (modify save)) (\<lambda>_.
     bind TakeNextToken (\<lambda>token.
     if token \<noteq> Pipe then
       (if token_is_primary token then bind (on_scanner revert) (\<lambda>_. ret (Some members))
        else bind skip_to_next_primary_token (\<lambda>_. ret None))
     else
       bind (parser_scan_expected G_Name False True) (\<lambda>ok.
       if \<not> ok then bind skip_to_next_primary_token (\<lambda>_. ret None)
       else
         bind parser_get_token_value (\<lambda>name.
         bind (CreateName name) (\<lambda>nm. parse_union_members n (emplace name nm members))))))"

definition parse_union_after_union_keyword :: "nat \<Rightarrow> declaration_ref option schema_parser" where
  "parse_union_after_union_keyword n =
     bind (create_declaration S_Union (Union_body [])) (\<lambda>r.
     bind (parser_scan_expected G_Name False True) (\<lambda>ok.
     if \<not> ok then bind skip_to_next_primary_token (\<lambda>_. ret None)
     else
       bind parser_get_token_value (\<lambda>token_value.
       bind (CreateName token_value) (\<lambda>nm.
       bind (change_declaration r (\<lambda>d. d\<lparr>dc_name := Some nm\<rparr>)) (\<lambda>_.
       bind (parse_directives n UNION None) (\<lambda>ds.
       bind (change_declaration r (\<lambda>d. d\<lparr>dc_directives := ds\<rparr>)) (\<lambda>_.
       bind (parser_scan_expected Equal False True) (\<lambda>ok.
       if \<not> ok then bind skip_to_next_primary_token (\<lambda>_. ret None)
       else
         bind (parser_scan_optional Pipe False) (\<lambda>_.
         bind (parser_scan_expected G_Name False True) (\<lambda>ok.
         if \<not> ok then bind skip_to_next_primary_token (\<lambda>_. ret None)
         else
           bind parser_get_token_value (\<lambda>member.
           bind (CreateName member) (\<lambda>member_nm.
           bind (parse_union_members n [(member, member_nm)]) (\<lambda>members.
           case members of
             None \<Rightarrow> ret None
           | Some ms \<Rightarrow>
               bind (change_declaration r (\<lambda>d. d\<lparr>dc_body := Union_body ms\<rparr>)) (\<lambda>_.
               bind (modify (\<lambda>p. p\<lparr>sc_symbols := emplace token_value
                 \<lparr>sy_name = token_value, sy_declaration = r, sy_kind = SL_Union\<rparr> (sc_symbols p),
                 sc_unions := sc_unions p @ [r]\<rparr>)) (\<lambda>_. ret (Some r))))))))))))))))"

text \<open>The locations of a directive behind the first.\<close>

fun parse_directive_locations ::
  "nat \<Rightarrow> DirectiveLocation list \<Rightarrow> DirectiveLocation list option schema_parser" where
  "parse_directive_locations 0 ls = throw Out_of_fuel"
| "parse_directive_locations (Suc n) ls =
     bind (on_scanner (modify save)) (\<lambda>_.
     bind TakeNextToken (\<lambda>token.
     if token_is_primary token then bind (on_scanner revert) (\<lambda>_. ret (Some ls))
     else if token \<noteq> Pipe then
       bind parser_get_token_value (\<lambda>v.
       bind (add_diagnostic Expected_0_but_got_1 [u ''|'', v]) (\<lambda>_.
       bind skip_to_next_primary_token (\<lambda>_. ret None)))
     else
       bind (on_scanner scan_directive_location) (\<lambda>l.
       if l = DL_Unknown then
         bind (add_diagnostic Expected_directive_location []) (\<lambda>_.
         bind skip_to_next_primary_token (\<lambda>_. ret None))
       else if l = DL_EndOfDocument then
         bind (add_diagnostic_at
           \<lparr>loc_line = 0, loc_column = 0, loc_length = 0, loc_end_of_source = True\<rparr>
           Expected_directive_location_but_instead_reached_the_end_of_document []) (\<lambda>_. ret None)
       else parse_directive_locations n (List.insert l ls))))"

definition parse_directive_definition_after_directive_keyword :: "nat \<Rightarrow> DirectiveDefinition option schema_parser"
  where
  "parse_directive_definition_after_directive_keyword n =
     bind (parser_scan_expected At False True) (\<lambda>ok.
     if \<not> ok then bind skip_to_next_primary_token (\<lambda>_. ret None)
     else
       bind (parser_take_next_token True False) (\<lambda>token.
       if token \<noteq> G_Name then
         bind (token_text token) (\<lambda>t.
         bind (add_diagnostic Expected_name_but_instead_got_0 [t]) (\<lambda>_.
         bind skip_to_next_primary_token (\<lambda>_. ret None)))
       else
         bind (CreateSyntax S_DirectiveDefinition) (\<lambda>s.
         bind description_if_any (\<lambda>description.
         bind parser_get_token_value (\<lambda>v.
         bind (CreateName v) (\<lambda>nm.
         bind (parser_scan_optional OpenParen False) (\<lambda>paren.
         bind (if paren then parse_arguments_definition_after_open_paren n (Some v) [] else ret []) (\<lambda>arguments.
         bind (parser_scan_expected OnKeyword False True) (\<lambda>ok.
         if \<not> ok then bind (parser_skip_to [CloseBrace]) (\<lambda>_. ret None)
         else
           bind (parser_scan_optional Pipe False) (\<lambda>_.
           bind (on_scanner scan_directive_location) (\<lambda>l.
           if l = DL_Unknown then
             bind (add_diagnostic Expected_directive_location []) (\<lambda>_.
             bind skip_to_next_primary_token (\<lambda>_. ret None))
           else
             bind (parse_directive_locations n [l]) (\<lambda>ls.
             case ls of
               None \<Rightarrow> ret None
             | Some ls \<Rightarrow>
                 let definition' = Syntax.extend s \<lparr>dd_name = nm, dd_description = description,
                       dd_arguments = arguments, dd_locations = ls\<rparr> in
                 bind (modify (\<lambda>p. p\<lparr>ps_directive_definitions :=
                   emplace v definition' (ps_directive_definitions p)\<rparr>)) (\<lambda>_. ret (Some definition'))))))))))))))"

section \<open>The schema definition\<close>

datatype RootType = Query_root | Mutation_root | Subscription_root

primrec root_name :: "RootType \<Rightarrow> ustring" where
  "root_name Query_root = u ''query''"
| "root_name Mutation_root = u ''mutation''"
| "root_name Subscription_root = u ''subscription''"

definition root_of_token :: "GraphQlToken \<Rightarrow> RootType option" where
  "root_of_token token =
     (if token = QueryKeyword then Some Query_root
      else if token = MutationKeyword then Some Mutation_root
      else if token = SubscriptionKeyword then Some Subscription_root
      else None)"

primrec root_key :: "RootType \<Rightarrow> Schema \<Rightarrow> Name option" where
  "root_key Query_root s = sm_query_key s"
| "root_key Mutation_root s = sm_mutation_key s"
| "root_key Subscription_root s = sm_subscription_key s"

primrec set_root :: "RootType \<Rightarrow> Name \<Rightarrow> Name option \<Rightarrow> Schema \<Rightarrow> Schema" where
  "set_root Query_root k v s = s\<lparr>sm_query_key := Some k, sm_query := v\<rparr>"
| "set_root Mutation_root k v s = s\<lparr>sm_mutation_key := Some k, sm_mutation := v\<rparr>"
| "set_root Subscription_root k v s = s\<lparr>sm_subscription_key := Some k, sm_subscription := v\<rparr>"

definition parse_schema_field_after_colon :: "Name option schema_parser" where
  "parse_schema_field_after_colon =
     bind (parser_scan_expected Colon False True) (\<lambda>ok.
     if \<not> ok then ret None
     else
       bind (parser_scan_expected G_Name False True) (\<lambda>ok.
       if \<not> ok then bind skip_to_next_primary_token (\<lambda>_. ret None)
       else bind parser_get_token_value (\<lambda>v. bind (CreateName v) (\<lambda>nm. ret (Some nm)))))"

text \<open>The loop over the fields of a schema definition; \<open>dups\<close> are the root types already reported twice.\<close>

fun parse_schema_fields :: "nat \<Rightarrow> Schema \<Rightarrow> RootType list \<Rightarrow> Schema schema_parser" where
  "parse_schema_fields 0 schema dups = throw Out_of_fuel"
| "parse_schema_fields (Suc n) schema dups =
     bind TakeNextToken (\<lambda>token.
     if token = EndOfDocument \<or> token = CloseBrace then ret schema
     else case root_of_token token of
       None \<Rightarrow>
         bind (add_diagnostic A_schema_definition_can_only_contain_query_mutation_and_subscription_fields []) (\<lambda>_.
         bind parse_schema_field_after_colon (\<lambda>_. parse_schema_fields n schema dups))
     | Some root \<Rightarrow>
         (case root_key root schema of
            None \<Rightarrow>
              bind (CreateName (root_name root)) (\<lambda>key.
              bind parse_schema_field_after_colon (\<lambda>v. parse_schema_fields n (set_root root key v schema) dups))
          | Some key \<Rightarrow>
              bind (add_diagnostic Duplicate_field_0 [root_name root]) (\<lambda>_.
              bind parse_schema_field_after_colon (\<lambda>_.
              if root \<notin> set dups then
                bind (add_diagnostic_for key Duplicate_field_0 [root_name root]) (\<lambda>_.
                parse_schema_fields n schema (root # dups))
              else parse_schema_fields n schema dups))))"

definition create_schema :: "Directive string_map \<Rightarrow> Schema schema_parser" where
  "create_schema ds =
     bind (CreateSyntax S_Schema) (\<lambda>s.
     ret (Syntax.extend s \<lparr>sm_directives = ds, sm_query = None, sm_mutation = None, sm_subscription = None,
       sm_query_key = None, sm_mutation_key = None, sm_subscription_key = None\<rparr>))"

definition parse_schema :: "nat \<Rightarrow> Schema option schema_parser" where
  "parse_schema n =
     bind (parse_directives n SCHEMA None) (\<lambda>ds.
     bind (parser_scan_expected OpenBrace False True) (\<lambda>ok.
     if \<not> ok then bind (on_scanner skip_block) (\<lambda>_. ret None)
     else
       bind (create_schema ds) (\<lambda>schema.
       bind (parse_schema_fields n schema []) (\<lambda>schema. ret (Some schema)))))"

definition parse_primary_token :: "nat \<Rightarrow> GraphQlToken \<Rightarrow> Definition option schema_parser" where
  "parse_primary_token n token =
     (let declaration = (\<lambda>m. bind m (\<lambda>r. ret (map_option Declaration_definition r))) in
      if token = DirectiveKeyword then
        bind (parse_directive_definition_after_directive_keyword n) (\<lambda>d. ret (map_option Directive_definition d))
      else if token = EnumKeyword then declaration (parse_enum n)
      else if token = InterfaceKeyword then declaration (parse_interface_definition n)
      else if token = InputKeyword then declaration (parse_input_object n)
      else if token = SchemaKeyword then
        bind (parse_schema n) (\<lambda>s. ret (map_option Schema_definition s))
      else if token = TypeKeyword then declaration (parse_object n)
      else if token = UnionKeyword then declaration (parse_union_after_union_keyword n)
      else bind (add_diagnostic Expected_type_definition []) (\<lambda>_. ret None))"

text \<open>The main loop; the last schema definition counts.\<close>

definition schema_of :: "Definition \<Rightarrow> Schema option \<Rightarrow> Schema option" where
  "schema_of d schema = (case d of Schema_definition s \<Rightarrow> Some s | _ \<Rightarrow> schema)"

fun parse_definitions :: "nat \<Rightarrow> GraphQlToken \<Rightarrow> Schema option \<Rightarrow> Schema option schema_parser" where
  "parse_definitions 0 token schema = throw Out_of_fuel"
| "parse_definitions (Suc n) token schema =
     (if token = EndOfDocument then ret schema
      else if token = G_StringValue then
        bind parser_get_string_value (\<lambda>d.
        bind (modify (\<lambda>p. p\<lparr>ps_has_description := Some True, ps_current_description := d\<rparr>)) (\<lambda>_.
        bind TakeNextToken (\<lambda>token. parse_definitions n token schema)))
      else
        bind (parse_primary_token n token) (\<lambda>type_definition.
        bind (modify (\<lambda>p. p\<lparr>ps_has_description := Some False\<rparr>)) (\<lambda>_.
        bind (case type_definition of
                None \<Rightarrow> bind (on_scanner skip_block) (\<lambda>_. ret schema)
              | Some d \<Rightarrow>
                  bind (modify (\<lambda>p. p\<lparr>sc_definitions := sc_definitions p @ [d]\<rparr>)) (\<lambda>_. ret (schema_of d schema)))
          (\<lambda>schema.
        bind TakeNextToken (\<lambda>token. parse_definitions n token schema)))))"

definition GraphQlSchema_init :: "bool \<Rightarrow> ustring \<Rightarrow> GraphQlSchema" where
  "GraphQlSchema_init zeroed source =
     \<lparr>ps_scanner = GraphQlScanner_new source, ps_current_description = [], ps_current_value_token = Unknown,
      ps_has_description = None, ps_directives = [], ps_directive_definitions = [], ps_diagnostics = [],
      ps_types = [], ps_declarations = [], ps_zeroed = zeroed,
      sc_definitions = [], sc_query = None, sc_mutation = None, sc_subscription = None, sc_symbols = [],
      sc_forward_type_references = [], sc_forward_interface_references = [], sc_interfaces = [],
      sc_objects_with_implementations = [], sc_unions = [], sc_duplicate_symbols = []\<rparr>"

text \<open>The parsing half of the constructor: it ends with the schema definition, or a fresh one.\<close>

definition parse_document :: "nat \<Rightarrow> Schema schema_parser" where
  "parse_document n =
     bind TakeNextToken (\<lambda>token.
     bind (parse_definitions n token None) (\<lambda>schema.
     case schema of Some s \<Rightarrow> ret s | None \<Rightarrow> create_schema []))"

end
