(* ===== verification/GraphQlSchemaChecks.thy ===== *)
theory GraphQlSchemaChecks
  imports GraphQlSchema
begin

text \<open>
  The checks of a parsed schema (the second half of \<open>src/program/graphql/graphql_schema.cpp\<close>): root types,
  forward references, directives and their arguments, implementations of interfaces, members of unions.
  \<open>check_recursive_directives\<close> follows the types of the fields of input objects, which may be circular; it
  carries fuel, the depth of its calls.
\<close>

section \<open>Root types\<close>

definition find_symbol :: "ustring \<Rightarrow> Symbol option schema_parser" where
  "find_symbol name = gets (\<lambda>p. map_of (sc_symbols p) name)"

text \<open>
  The pointer to the name of a root type is not initialised where the schema definition does not have
  the field; its key is set together with it.
\<close>

primrec root_value :: "RootType \<Rightarrow> Schema \<Rightarrow> Name option" where
  "root_value Query_root s = sm_query s"
| "root_value Mutation_root s = sm_mutation s"
| "root_value Subscription_root s = sm_subscription s"

primrec root_default :: "RootType \<Rightarrow> ustring" where
  "root_default Query_root = u ''Query''"
| "root_default Mutation_root = u ''Mutation''"
| "root_default Subscription_root = u ''Subscription''"

primrec set_root_object :: "RootType \<Rightarrow> declaration_ref option \<Rightarrow> GraphQlSchema \<Rightarrow> GraphQlSchema" where
  "set_root_object Query_root r p = p\<lparr>sc_query := Some r\<rparr>"
| "set_root_object Mutation_root r p = p\<lparr>sc_mutation := Some r\<rparr>"
| "set_root_object Subscription_root r p = p\<lparr>sc_subscription := Some r\<rparr>"

definition set_root_type :: "RootType \<Rightarrow> Schema \<Rightarrow> unit schema_parser" where
  "set_root_type root schema =
     bind (if root_key root schema = None then read_uninitialised None else ret (root_value root schema)) (\<lambda>name.
     case name of
       Some nm \<Rightarrow>
         bind (find_symbol (nm_identifier nm)) (\<lambda>found.
         case found of
           Some sy \<Rightarrow> modify (set_root_object root (Some (sy_declaration sy)))
         | None \<Rightarrow> add_diagnostic Type_0_is_not_defined [nm_identifier nm])
     | None \<Rightarrow>
         bind (find_symbol (root_default root)) (\<lambda>found.
         case found of
           Some sy \<Rightarrow> modify (set_root_object root (Some (sy_declaration sy)))
         | None \<Rightarrow>
             if root = Query_root
             then add_diagnostic_at \<lparr>loc_line = 0, loc_column = 0, loc_length = 0, loc_end_of_source = True\<rparr>
               No_query_root_operation_type_defined []
             else modify (set_root_object root None)))"

definition set_root_types :: "Schema \<Rightarrow> unit schema_parser" where
  "set_root_types schema =
     bind (set_root_type Query_root schema) (\<lambda>_.
     bind (set_root_type Mutation_root schema) (\<lambda>_. set_root_type Subscription_root schema))"

section \<open>Forward references\<close>

text \<open>
  \<open>kind & S_InputTypeWithDirectives\<close> is never zero for the kind of a type (26 and 15 have a bit in common), so
  the early return of \<open>check_recursive_directives\<close> is never taken.
\<close>

fun check_recursive_directives :: "nat \<Rightarrow> ustring \<Rightarrow> type_ref \<Rightarrow> type_ref \<Rightarrow> unit schema_parser"
  and check_recursive_fields :: "nat \<Rightarrow> ustring \<Rightarrow> type_ref \<Rightarrow> InputFieldDefinition string_map \<Rightarrow> unit schema_parser" where
  "check_recursive_directives 0 parent location ty = throw Out_of_fuel"
| "check_recursive_directives (Suc n) parent location ty =
     bind (get_type ty) (\<lambda>t.
     bind (get_type location) (\<lambda>l.
     bind (deref (ty_name t)) (\<lambda>nm.
     bind (find_symbol (nm_identifier nm)) (\<lambda>found.
     bind (deref found) (\<lambda>sy.
     bind (get_declaration (sy_declaration sy)) (\<lambda>d.
     let report = add_diagnostic_for l Cannot_annotate_with_a_type_that_recursively_references_the_directive_0
           [u ''@'' @ parent];
         own = (if map_of (dc_directives d) parent \<noteq> None then report else ret ()) in
     case dc_body d of
       InputObject_body fs required \<Rightarrow>
         bind own (\<lambda>_. bind (deref fs) (\<lambda>fs. check_recursive_fields n parent location fs))
     | Enum_body vals \<Rightarrow>
         bind own (\<lambda>_.
         for_each (\<lambda>(k, v). if map_of (ev_directives v) parent \<noteq> None then report else ret ()) vals)
     | _ \<Rightarrow> throw (Undefined_behaviour ''static_cast'')))))))"
| "check_recursive_fields n parent location [] = ret ()"
| "check_recursive_fields n parent location ((k, f) # fs) =
     bind (get_type location) (\<lambda>l.
     bind (if map_of (ifd_directives f) parent \<noteq> None
           then add_diagnostic_for l Cannot_annotate_with_a_type_that_recursively_references_the_directive_0
             [u ''@'' @ parent]
           else ret ()) (\<lambda>_.
     bind (get_type (ifd_type f)) (\<lambda>t.
     bind (if ty_type t = T_Object then check_recursive_directives n parent location (ifd_type f) else ret ()) (\<lambda>_.
     check_recursive_fields n parent location fs))))"

definition check_forward_reference :: "nat \<Rightarrow> type_ref \<Rightarrow> unit schema_parser" where
  "check_forward_reference n r =
     bind (get_type r) (\<lambda>t.
     bind (deref (ty_name t)) (\<lambda>nm.
     bind (find_symbol (nm_identifier nm)) (\<lambda>found.
     case found of
       None \<Rightarrow> add_diagnostic_for nm Type_0_is_not_defined [nm_identifier nm]
     | Some sy \<Rightarrow>
         let check_parent = (case ty_parent_directive_definition t of
               None \<Rightarrow> ret () | Some parent \<Rightarrow> check_recursive_directives n parent r r) in
         if symbol_bits (sy_kind sy) AND symbol_bits SL_Enum > 0 then
           bind (change_type r (\<lambda>t. t\<lparr>ty_type := T_Enum\<rparr>)) (\<lambda>_. check_parent)
         else
           bind (if symbol_bits (sy_kind sy) AND Input_kinds > 0 then
                   bind (if \<not> ty_in_input_location t
                         then add_diagnostic_for nm Cannot_add_an_input_type_to_an_output_location [nm_identifier nm]
                         else ret ()) (\<lambda>_. check_parent)
                 else ret ()) (\<lambda>_.
           if symbol_bits (sy_kind sy) AND Output_kinds > 0 \<and> ty_in_input_location t
           then add_diagnostic_for nm Cannot_add_an_output_type_to_an_input_location [nm_identifier nm]
           else ret ()))))"

definition check_forward_references :: "nat \<Rightarrow> unit schema_parser" where
  "check_forward_references n =
     bind (gets sc_forward_type_references) (for_each (check_forward_reference n))"

section \<open>Values\<close>

definition is_required :: "Type \<Rightarrow> bool" where
  "is_required t \<longleftrightarrow> ty_is_non_null t \<or> ty_is_non_null_list t"

definition not_assignable :: "Value \<Rightarrow> Type \<Rightarrow> unit schema_parser" where
  "not_assignable v t =
     bind (get_location_from_syntax (value_syntax v)) (\<lambda>l.
     bind (parser_value_string v) (\<lambda>vs.
     bind (get_type_name t) (\<lambda>tn. add_diagnostic_at l The_value_0_is_not_assignable_to_type_1 [vs, tn])))"

text \<open>
  A list is checked by clearing the list marks of the type, checking the elements against it, and setting
  the marks back.
\<close>

fun check_value :: "Value \<Rightarrow> type_ref \<Rightarrow> unit schema_parser"
  and check_values :: "Value list \<Rightarrow> type_ref \<Rightarrow> unit schema_parser"
  and check_object_fields ::
    "Value \<Rightarrow> ustring \<Rightarrow> InputFieldDefinition string_map \<Rightarrow> ObjectField string_map \<Rightarrow> ObjectField list \<Rightarrow>
     ObjectField string_map schema_parser" where
  "check_value (NullValue s) r =
     bind (get_type r) (\<lambda>t.
     if \<not> ty_is_list_type t \<and> ty_is_non_null t \<or> ty_is_non_null_list t
     then bind (get_location_from_syntax s) (\<lambda>l. bind (get_type_name t) (\<lambda>tn.
       add_diagnostic_at l The_value_0_is_not_assignable_to_type_1 [u ''null'', tn]))
     else ret ())"
| "check_value (ListValue s vs) r =
     bind (get_type r) (\<lambda>t.
     if \<not> ty_is_list_type t then not_assignable (ListValue s vs) t
     else
       bind (change_type r (\<lambda>t. t\<lparr>ty_is_list_type := False, ty_is_non_null_list := False\<rparr>)) (\<lambda>_.
       bind (check_values vs r) (\<lambda>_.
       change_type r (\<lambda>t'. t'\<lparr>ty_is_list_type := True, ty_is_non_null_list := ty_is_non_null_list t\<rparr>))))"
| "check_value (StringValue s str) r =
     bind (get_type r) (\<lambda>t.
     if type_bits (ty_type t) AND T_StringType = 0 \<or> ty_is_list_type t
     then not_assignable (StringValue s str) t else ret ())"
| "check_value (IntValue s i) r =
     bind (get_type r) (\<lambda>t.
     if type_bits (ty_type t) AND T_IntegerType = 0 \<or> ty_is_list_type t
     then not_assignable (IntValue s i) t else ret ())"
| "check_value (FloatValue s str) r =
     bind (get_type r) (\<lambda>t.
     if ty_type t \<noteq> T_Float \<or> ty_is_list_type t then not_assignable (FloatValue s str) t else ret ())"
| "check_value (BooleanValue s b) r =
     bind (get_type r) (\<lambda>t.
     if ty_type t \<noteq> T_Boolean \<or> ty_is_list_type t then not_assignable (BooleanValue s b) t else ret ())"
| "check_value (EnumValue s str) r =
     bind (get_type r) (\<lambda>t.
     if ty_type t \<noteq> T_Enum \<or> ty_is_list_type t then not_assignable (EnumValue s str) t else ret ())"
| "check_value (ObjectValue s ofs) r =
     bind (get_type r) (\<lambda>t.
     bind (if ty_type t \<noteq> T_Object \<or> ty_is_list_type t then not_assignable (ObjectValue s ofs) t else ret ()) (\<lambda>_.
     bind (deref (ty_name t)) (\<lambda>nm.
     bind (find_symbol (nm_identifier nm)) (\<lambda>found.
     case found of
       None \<Rightarrow> add_diagnostic Type_0_is_not_defined [nm_identifier nm]
     | Some sy \<Rightarrow>
         if sy_kind sy \<noteq> SL_InputObject then ret ()
         else
           bind (get_declaration (sy_declaration sy)) (\<lambda>d.
           case dc_body d of
             InputObject_body fs required \<Rightarrow>
               bind (if ofs = [] then ret [] else bind (deref fs) (\<lambda>fds. bind (deref (dc_name d)) (\<lambda>dn.
                 check_object_fields (ObjectValue s ofs) (nm_identifier dn) fds [] ofs))) (\<lambda>checked.
               bind (deref fs) (\<lambda>fds.
               if length checked < length fds then
                 for_each (\<lambda>(k, f).
                   bind (get_type (ifd_type f)) (\<lambda>ft.
                   if is_required ft \<and> map_of checked k = None
                   then add_diagnostic_for s Missing_required_field_0 [nm_identifier (ifd_name f)]
                   else ret ())) fds
               else ret ()))
           | _ \<Rightarrow> throw (Undefined_behaviour ''static_cast'')))))) "
| "check_values [] r = ret ()"
| "check_values (v # vs) r = bind (check_value v r) (\<lambda>_. check_values vs r)"
| "check_object_fields v name fds checked [] = ret checked"
| "check_object_fields v name fds checked (ObjectField s fn fv # ofs) =
     (case map_of fds (nm_identifier fn) of
        None \<Rightarrow>
          bind (add_diagnostic_for (value_syntax v) Field_0_does_not_exist_on_type_1 [nm_identifier fn, name]) (\<lambda>_.
          check_object_fields v name fds checked ofs)
      | Some fd \<Rightarrow>
          (case map_of checked (nm_identifier fn) of
             Some (ObjectField s' fn' fv') \<Rightarrow>
               bind (add_diagnostic_for s Duplicate_field_0 [nm_identifier fn]) (\<lambda>_.
               bind (has_diagnostic_in_syntax s' Duplicate_field_0) (\<lambda>has.
               bind (if \<not> has then add_diagnostic_for s' Duplicate_field_0 [nm_identifier fn] else ret ()) (\<lambda>_.
               check_object_fields v name fds checked ofs)))
           | None \<Rightarrow>
               bind (case fv of
                       None \<Rightarrow> throw (Undefined_behaviour ''null pointer'')
                     | Some fv \<Rightarrow> check_value fv (ifd_type fd)) (\<lambda>_.
               check_object_fields v name fds
                 (emplace (nm_identifier fn) (ObjectField s fn fv) checked) ofs)))"

section \<open>Directives\<close>

definition check_directive_argument ::
  "Directive \<Rightarrow> ustring list \<Rightarrow> InputValueDefinition \<Rightarrow> ustring list schema_parser" where
  "check_directive_argument directive checked definition' =
     (let argument = nm_identifier (iv_name definition') in
      case map_of (di_arguments directive) argument of
        None \<Rightarrow>
          bind (deref (iv_type definition')) (\<lambda>r.
          bind (get_type r) (\<lambda>t.
          bind (if is_required t then add_diagnostic_for directive Missing_required_argument_0 [argument] else ret ())
            (\<lambda>_. ret checked)))
      | Some a \<Rightarrow>
          bind (deref (ar_value a)) (\<lambda>v.
          bind (deref (iv_type definition')) (\<lambda>r.
          bind (check_value v r) (\<lambda>_. ret (List.insert argument checked)))))"

primrec check_directive_arguments ::
  "Directive \<Rightarrow> ustring list \<Rightarrow> InputValueDefinition string_map \<Rightarrow> ustring list schema_parser" where
  "check_directive_arguments directive checked [] = ret checked"
| "check_directive_arguments directive checked (d # ds) =
     bind (check_directive_argument directive checked (snd d)) (\<lambda>checked.
     check_directive_arguments directive checked ds)"

text \<open>The arguments that are left over are reported where they were checked (the test is inverted).\<close>

definition check_directive_reference :: "Directive \<Rightarrow> unit schema_parser" where
  "check_directive_reference directive =
     (let name = nm_identifier (di_name directive) in
      bind (gets (\<lambda>p. map_of (ps_directive_definitions p) name)) (\<lambda>found.
      case found of
        None \<Rightarrow> add_diagnostic_for directive Undefined_directive_0 [name]
      | Some definition' \<Rightarrow>
          bind (if di_parent_directive_definition directive = Some name
                then add_diagnostic_for directive Directive_cannot_reference_itself [] else ret ()) (\<lambda>_.
          bind (if di_location directive \<notin> set (dd_locations definition')
                then bind (location_name (di_location directive)) (\<lambda>l.
                  add_diagnostic_for directive The_directive_0_does_not_support_the_location_1 [u ''@'' @ name, l])
                else ret ()) (\<lambda>_.
          bind (check_directive_arguments directive [] (dd_arguments definition')) (\<lambda>checked.
          if length checked < length (di_arguments directive) then
            for_each (\<lambda>(k, a). if nm_identifier (ar_name a) \<in> set checked
              then add_diagnostic Unknown_argument_0 [] else ret ()) (di_arguments directive)
          else ret ())))))"

definition check_directive_references :: "unit schema_parser" where
  "check_directive_references = bind (gets ps_directives) (for_each check_directive_reference)"

section \<open>Implementations\<close>

definition type_mismatch :: "Type \<Rightarrow> Type \<Rightarrow> ustring \<Rightarrow> bool schema_parser" where
  "type_mismatch object_type interface_type interface_name =
     bind (get_location_from_syntax object_type) (\<lambda>l.
     bind (get_type_name object_type) (\<lambda>on.
     bind (get_type_name interface_type) (\<lambda>inm.
     bind (add_diagnostic_at l Type_0_does_not_match_type_1_from_the_interface_2 [on, inm, interface_name]) (\<lambda>_.
     ret False))))"

text \<open>One field of an interface; the result says whether the loop over the fields goes on.\<close>

definition check_interface_field ::
  "Declaration \<Rightarrow> FieldDefinition string_map \<Rightarrow> ustring \<Rightarrow> ustring \<times> FieldDefinition \<Rightarrow> bool schema_parser" where
  "check_interface_field object fs interface_name = (\<lambda>(k, f).
     let field = nm_identifier (fdf_name f) in
     case map_of fs field of
       None \<Rightarrow>
         bind (deref (dc_name object)) (\<lambda>nm.
         bind (add_diagnostic_for nm The_field_0_in_interface_1_is_not_implemented [field, interface_name]) (\<lambda>_.
         ret True))
     | Some g \<Rightarrow>
         bind (get_type (fdf_type g)) (\<lambda>object_type.
         bind (get_type (fdf_type f)) (\<lambda>interface_type.
         if ty_type object_type \<noteq> ty_type interface_type
         then type_mismatch object_type interface_type interface_name
         else if type_bits (ty_type object_type) AND T_SymbolicType \<noteq> 0 then
           bind (deref (ty_name object_type)) (\<lambda>a.
           bind (deref (ty_name interface_type)) (\<lambda>b.
           if nm_identifier a \<noteq> nm_identifier b
           then type_mismatch object_type interface_type interface_name else ret True))
         else ret True)))"

definition interface_fields :: "Declaration \<Rightarrow> FieldDefinition string_map schema_parser" where
  "interface_fields d = (case dc_body d of
     Interface_body fs \<Rightarrow> deref fs | _ \<Rightarrow> throw (Undefined_behaviour ''static_cast''))"

definition check_implementation :: "Declaration \<Rightarrow> FieldDefinition string_map option \<Rightarrow> ustring \<times> Name \<Rightarrow> unit schema_parser"
  where
  "check_implementation object fs = (\<lambda>(interface_name, nm).
     bind (gets (\<lambda>p. map_of (sc_interfaces p) interface_name)) (\<lambda>found.
     case found of
       None \<Rightarrow> add_diagnostic_for nm Interface_0_is_not_defined [interface_name]
     | Some r \<Rightarrow>
         (case fs of
            None \<Rightarrow> ret ()
          | Some fs \<Rightarrow>
              bind (get_declaration r) (\<lambda>d.
              bind (interface_fields d) (\<lambda>ifs.
              for_each_while (check_interface_field object fs interface_name) ifs)))))"

definition check_object_implementation :: "declaration_ref \<Rightarrow> unit schema_parser" where
  "check_object_implementation r =
     bind (get_declaration r) (\<lambda>object.
     case dc_body object of
       Object_body fs is \<Rightarrow> bind (deref is) (\<lambda>is. for_each (check_implementation object fs) is)
     | _ \<Rightarrow> throw (Undefined_behaviour ''static_cast''))"

definition check_object_implementations :: "unit schema_parser" where
  "check_object_implementations = bind (gets sc_objects_with_implementations) (for_each check_object_implementation)"

section \<open>Unions\<close>

definition check_union_member :: "ustring \<times> Name \<Rightarrow> unit schema_parser" where
  "check_union_member = (\<lambda>(k, name).
     bind (find_symbol (nm_identifier name)) (\<lambda>found.
     case found of
       None \<Rightarrow> add_diagnostic_for name Type_0_is_not_defined [nm_identifier name]
     | Some sy \<Rightarrow>
         if sy_kind sy \<noteq> SL_Object then add_diagnostic_for name Only_objects_are_allowed_as_members_in_a_union []
         else ret ()))"

definition check_union :: "declaration_ref \<Rightarrow> unit schema_parser" where
  "check_union r =
     bind (get_declaration r) (\<lambda>d.
     case dc_body d of
       Union_body members \<Rightarrow> for_each check_union_member members
     | _ \<Rightarrow> throw (Undefined_behaviour ''static_cast''))"

definition check_union_members :: "unit schema_parser" where
  "check_union_members = bind (gets sc_unions) (for_each check_union)"

section \<open>The constructor\<close>

definition check_schema :: "nat \<Rightarrow> Schema \<Rightarrow> unit schema_parser" where
  "check_schema depth schema =
     bind (set_root_types schema) (\<lambda>_.
     bind (check_forward_references depth) (\<lambda>_.
     bind check_directive_references (\<lambda>_.
     bind check_object_implementations (\<lambda>_. check_union_members))))"

text \<open>
  The constructor, for a depth of calls that the stack has room for.  The parser's fuel is computed from
  the source.
\<close>

definition GraphQlSchema_new :: "nat \<Rightarrow> bool \<Rightarrow> ustring \<Rightarrow> flash_error + GraphQlSchema" where
  "GraphQlSchema_new depth zeroed source =
     (case bind (parse_document (2 * length source + 2)) (check_schema depth) (GraphQlSchema_init zeroed source) of
        Inl e \<Rightarrow> Inl e
      | Inr (x, p) \<Rightarrow> Inr p)"

end
