(* ===== verification/GraphQlParserSteps.thy ===== *)
theory GraphQlParserSteps
  imports GraphQlParser
begin

text \<open>
  What every method of a GraphQL parser does to the state, proved once for the parsers of schemas and of
  queries.  The scanner only moves forward.  A parser states how its state may change from a state to a later
  one (a relation that contains the changes the base class makes), and what of the state its calls rely on;
  the locale \<open>parser_steps\<close> then gives a judgement on methods that is proved by following the structure of
  their definitions with a set of introduction rules (\<open>good_intros\<close>).
\<close>

section \<open>Scanner operations move forward\<close>

definition moves :: "GraphQlScanner \<Rightarrow> GraphQlScanner \<Rightarrow> bool" where
  "moves s t \<longleftrightarrow> gs_source t = gs_source s \<and> gs_position s \<le> gs_position t"

lemma moves_refl [simp]: "moves s s"
  by (simp add: moves_def)

lemma moves_trans: "moves r s \<Longrightarrow> moves s t \<Longrightarrow> moves r t"
  by (auto simp: moves_def)

lemma moves_cr: "moves s t \<Longrightarrow> final_carriage_return t = final_carriage_return s"
  by (simp add: moves_def final_carriage_return_def)

definition left :: "GraphQlScanner \<Rightarrow> nat" where
  "left s = source_size s - gs_position s"

lemma moves_left: "moves s t \<Longrightarrow> left t \<le> left s"
  by (auto simp: moves_def left_def source_size_def)

named_theorems scanner_moves \<open>forward moves of the scanner's operations\<close>

lemma wp_take_moves:
  "wp (take_next_token k w)
     (\<lambda>token t. moves s t \<and> (token \<noteq> EndOfDocument \<longrightarrow> left t < left s)) (\<lambda>_. final_carriage_return s) s"
proof (cases "take_next_token k w s")
  case (Inl e)
  then show ?thesis using take_next_token_total [of s k w] by (auto simp: wp_def)
next
  case (Inr r)
  then obtain token t where r: "take_next_token k w s = Inr (token, t)" by (cases r) auto
  then show ?thesis
    using take_next_token_frame [OF r] take_next_token_progress [OF r] by (auto simp: wp_def moves_def left_def)
qed

lemma take_moves [scanner_moves]: "wp (take_next_token k w) (\<lambda>_. moves s) (\<lambda>_. final_carriage_return s) s"
  by (rule wp_mono [OF wp_take_moves]) auto

lemma wp_scan_expected_moves:
  "token \<noteq> EndOfDocument \<Longrightarrow>
   wp (scan_expected token k w) (\<lambda>r t. moves s t \<and> (r = token \<longrightarrow> left t < left s)) (\<lambda>_. final_carriage_return s) s"
  unfolding scan_expected_def wp_simps
  by (rule wp_mono [OF wp_take_moves]) (auto simp: wp_simps)

lemma moves_save [simp]: "moves s (save s)" "left (save s) = left s"
  "final_carriage_return (save s) = final_carriage_return s"
  by (simp_all add: moves_def save_def left_def source_size_def final_carriage_return_def)

lemma moves_save_iff [simp]: "moves (save s) t = moves s t"
  by (simp add: moves_def save_def)

text \<open>Going back to a cursor that was saved just before.\<close>

lemma wp_revert_after:
  assumes "gs_saved_text_cursors t = gs_saved_text_cursors (save s)" and "moves s t"
  shows "wp revert (\<lambda>_ r. moves s r \<and> left r = left s) E t"
proof -
  have "gs_saved_text_cursors t \<noteq> []" using assms(1) by (simp add: save_def)
  moreover have "gs_position (reverted t) = gs_position s"
    using gs_cursor.revert_after(1) [OF assms(1)] by (simp add: cursor_of_def)
  ultimately show ?thesis
    using assms(2) reverted_source [of t] by (auto simp: wp_def revert_reverted moves_def left_def source_size_def)
qed

lemma wp_save_take:
  "wp (take_next_token k w) (\<lambda>token t. moves s t \<and> gs_saved_text_cursors t = gs_saved_text_cursors (save s) \<and>
     (token \<noteq> EndOfDocument \<longrightarrow> left t < left s)) (\<lambda>_. final_carriage_return s) (save s)"
  using wp_take_moves [of k w "save s"] take_next_token_frame(2) [of k w "save s"]
  by (auto simp: wp_def split: sum.splits)

lemma wp_try_scan_moves:
  assumes "token \<noteq> EndOfDocument"
  shows "wp (try_scan token k w) (\<lambda>r t. moves s t \<and> (r = token \<longrightarrow> left t < left s))
    (\<lambda>_. final_carriage_return s) s"
proof -
  have "wp (if x = token then ret token else bind revert (\<lambda>_. ret x))
      (\<lambda>r t. moves s t \<and> (r = token \<longrightarrow> left t < left s)) (\<lambda>_. final_carriage_return s) t"
    if "moves s t" "gs_saved_text_cursors t = gs_saved_text_cursors (save s)"
      "x \<noteq> EndOfDocument \<longrightarrow> left t < left s" for x t
    using assms that wp_mono [OF wp_revert_after [OF that(2,1)], of "\<lambda>_. moves s" "\<lambda>_. final_carriage_return s"]
    by (auto simp: wp_simps)
  then show ?thesis
    unfolding try_scan_def wp_bind wp_modify by (intro wp_mono [OF wp_save_take]) auto
qed

lemma skip_to_moves [scanner_moves]: "wp (skip_to ts) (\<lambda>_. moves s) (\<lambda>_. final_carriage_return s) s"
proof (induction ts s rule: skip_to.induct)
  case (1 ts s)
  show ?case
  proof (cases "take_next_token False True (save s)")
    case (Inl e)
    then show ?thesis
      using wp_save_take [of False True s] by (simp add: wp_def skip_to.simps [of ts s])
  next
    case (Inr r)
    then obtain token t where r: "take_next_token False True (save s) = Inr (token, t)" by (cases r) auto
    then have t: "moves s t" "gs_saved_text_cursors t = gs_saved_text_cursors (save s)"
      using wp_save_take [of False True s] by (auto simp: wp_def)
    have rev: "wp revert (\<lambda>_. moves s) (\<lambda>_. final_carriage_return s) t"
      by (rule wp_mono [OF wp_revert_after [OF t(2,1)]]) auto
    have IH: "wp (skip_to ts) (\<lambda>_. moves s) (\<lambda>_. final_carriage_return s) t"
      if "token \<noteq> EndOfDocument" "token \<notin> set ts"
      by (rule wp_mono [OF 1 [OF r refl that]]) (auto simp: moves_cr [OF t(1)] intro: moves_trans [OF t(1)])
    show ?thesis
      using r t rev IH by (auto simp: wp_def skip_to.simps [of ts s] bind_def ret_def split: sum.splits)
  qed
qed

lemma skip_block_loop_moves: "wp (skip_block_loop m b) (\<lambda>_. moves s) (\<lambda>_. final_carriage_return s) s"
proof (induction m b s rule: skip_block_loop.induct)
  case (1 m b s)
  show ?case
  proof (cases "take_next_token False True s")
    case (Inl e)
    then show ?thesis
      using wp_take_moves [of False True s] by (simp add: wp_def skip_block_loop.simps [of m b s])
  next
    case (Inr r)
    then obtain token t where r: "take_next_token False True s = Inr (token, t)" by (cases r) auto
    then have t: "moves s t" using wp_take_moves [of False True s] by (auto simp: wp_def)
    have mono: "wp mm (\<lambda>_. moves s) (\<lambda>_. final_carriage_return s) t"
      if "wp mm (\<lambda>_. moves t) (\<lambda>_. final_carriage_return t) t" for mm :: "(GraphQlScanner, unit) exec"
      by (rule wp_mono [OF that]) (auto simp: moves_cr [OF t] intro: moves_trans [OF t])
    show ?thesis
      using r t mono [OF 1 [OF r refl _ refl refl]]
      by (auto simp: wp_post skip_block_loop.simps [of m b s] post_simps Let_def)
  qed
qed

lemma skip_block_moves [scanner_moves]: "wp skip_block (\<lambda>_. moves s) (\<lambda>_. final_carriage_return s) s"
  unfolding skip_block_def by (rule skip_block_loop_moves)

lemma scan_directive_location_moves [scanner_moves]:
  "wp scan_directive_location (\<lambda>_. moves s) (\<lambda>_. final_carriage_return s) s"
proof -
  have "wp directive_location_loop (\<lambda>_. skips (set_token_start_position s))
      (\<lambda>_. final_carriage_return (set_token_start_position s)) (set_token_start_position s)"
    by (rule directive_location_loop_wp) (simp add: cursor_simps)
  then have "wp directive_location_loop (\<lambda>_. moves s) (\<lambda>_. final_carriage_return s) (set_token_start_position s)"
    by (rule wp_mono) (auto simp: skips_def moves_def cursor_simps final_carriage_return_def)
  then show ?thesis by (simp add: wp_def scan_directive_location_def)
qed

section \<open>Calls without fuel\<close>

lemma TakeNextToken_parser: "TakeNextToken = parser_take_next_token False True"
  by (simp add: TakeNextToken_def parser_take_next_token_def)

lemma wp_on_scanner:
  "wp (on_scanner m) Q E p = wp m (\<lambda>x s. Q x (p\<lparr>ps_scanner := s\<rparr>)) E (ps_scanner p)"
  by (simp add: wp_def on_scanner_def split: sum.split)

lemma line_entry_no_fuel: "line_entry s i \<noteq> Inl Out_of_fuel"
  by (simp add: line_entry_def)

lemma no_fuel_intros:
  "x \<noteq> Inl e \<Longrightarrow> (\<And>y. x = Inr y \<Longrightarrow> f y \<noteq> Inl e) \<Longrightarrow> (case x of Inl a \<Rightarrow> Inl a | Inr y \<Rightarrow> f y) \<noteq> Inl e"
  "(b \<Longrightarrow> z \<noteq> Inl e) \<Longrightarrow> (\<not> b \<Longrightarrow> z' \<noteq> Inl e) \<Longrightarrow> (if b then z else z') \<noteq> Inl e"
  by (auto split: sum.split)

lemma search_for_line_no_fuel: "search_for_line s start end' position \<noteq> Inl Out_of_fuel"
proof (induction s start end' position rule: search_for_line.induct)
  case (1 s start end' position)
  show ?case
    unfolding search_for_line.simps [of s start end' position] Let_def
    by (intro no_fuel_intros line_entry_no_fuel "1.IH"(1) [OF _ refl] "1.IH"(2) [OF _ refl]; assumption?) simp_all
qed

lemma atoi_no_fuel: "atoi v \<noteq> Inl Out_of_fuel"
  by (simp add: atoi_def Let_def)

section \<open>The contract of a parser\<close>

named_theorems good_intros \<open>the judgement on the primitives\<close>

text \<open>
  \<open>grow p q\<close> says how a call may change the state, \<open>holds A\<close> what a caller knows of the state, and calls keep.
  Moving the scanner and the members of the base class that no node points to may always change.
\<close>

locale parser_steps =
  fixes grow :: "'x GraphQlParser_scheme \<Rightarrow> 'x GraphQlParser_scheme \<Rightarrow> bool"
    and holds :: "'h \<Rightarrow> 'x GraphQlParser_scheme \<Rightarrow> bool"
  assumes grow_refl [simp]: "grow p p"
    and grow_trans: "grow p q \<Longrightarrow> grow q r \<Longrightarrow> grow p r"
    and grow_moves: "grow p q \<Longrightarrow> moves (ps_scanner p) (ps_scanner q)"
    and grow_scanner: "moves (ps_scanner p) s \<Longrightarrow> grow p (p\<lparr>ps_scanner := s\<rparr>)"
    and grow_value_token: "grow p (p\<lparr>ps_current_value_token := t\<rparr>)"
    and grow_directives: "grow p (p\<lparr>ps_directives := ds\<rparr>)"
    and grow_diagnostics: "grow p (p\<lparr>ps_diagnostics := ps_diagnostics p @ ms\<rparr>)"
    and holds_grow: "holds A p \<Longrightarrow> grow p q \<Longrightarrow> holds A q"
begin

lemma grow_left: "grow p q \<Longrightarrow> left (ps_scanner q) \<le> left (ps_scanner p)"
  by (simp add: grow_moves moves_left)

lemma grow_cr: "grow p q \<Longrightarrow> final_carriage_return (ps_scanner q) = final_carriage_return (ps_scanner p)"
  by (simp add: grow_moves moves_cr)

text \<open>
  \<open>good A n P m\<close>: in a state where \<open>A\<close> holds and less than half of \<open>n\<close> characters are left,
  \<open>m\<close> does not run out of fuel (unless the source ends in a carriage return), the state grows, and if the
  result satisfies \<open>P\<close> characters have been read.
\<close>

definition good :: "'h \<Rightarrow> nat \<Rightarrow> ('a \<Rightarrow> bool) \<Rightarrow> ('x, 'a) parser \<Rightarrow> bool" where
  "good A n P m \<longleftrightarrow> (\<forall>p. holds A p \<longrightarrow> 2 * left (ps_scanner p) < n \<longrightarrow>
     wp m (\<lambda>x q. grow p q \<and> (P x \<longrightarrow> left (ps_scanner q) < left (ps_scanner p)))
       (\<lambda>e. e = Out_of_fuel \<longrightarrow> final_carriage_return (ps_scanner p)) p)"

lemma goodD:
  "good A n P m \<Longrightarrow> holds A p \<Longrightarrow> 2 * left (ps_scanner p) < n \<Longrightarrow>
   wp m (\<lambda>x q. grow p q \<and> (P x \<longrightarrow> left (ps_scanner q) < left (ps_scanner p)))
     (\<lambda>e. e = Out_of_fuel \<longrightarrow> final_carriage_return (ps_scanner p)) p"
  by (simp add: good_def)

lemma good_weaken: "good A n P m \<Longrightarrow> k \<le> n \<Longrightarrow> (\<And>x. Q x \<Longrightarrow> P x) \<Longrightarrow> good A k Q m"
  unfolding good_def by (auto elim!: wp_mono)

lemma good_forget: "good A n P m \<Longrightarrow> good A n (\<lambda>_. False) m"
  by (rule good_weaken) auto

lemma good_0 [simp]: "good A 0 P m"
  by (simp add: good_def)

text \<open>Sequencing; a first call that reads characters pays for two units of fuel.\<close>

lemma good_progress:
  assumes m: "good A n P m"
    and yes: "\<And>x. P x \<Longrightarrow> good A (n - 2) (\<lambda>_. False) (f x)"
    and no: "\<And>x. \<not> P x \<Longrightarrow> good A n Q (f x)"
  shows "good A n Q (bind m f)"
  unfolding good_def wp_bind
proof (intro allI impI)
  fix p assume p: "holds A p" "2 * left (ps_scanner p) < n"
  let ?E = "\<lambda>e. e = Out_of_fuel \<longrightarrow> final_carriage_return (ps_scanner p)"
  have "wp (f x) (\<lambda>y r. grow p r \<and> (Q y \<longrightarrow> left (ps_scanner r) < left (ps_scanner p))) ?E q"
    if q: "grow p q" "P x \<longrightarrow> left (ps_scanner q) < left (ps_scanner p)" for x q
  proof (cases "P x")
    case True
    with q p show ?thesis
      by (intro wp_mono [OF goodD [OF yes [OF True] holds_grow [OF p(1) q(1)]]])
        (auto simp: grow_cr dest: grow_left intro: grow_trans)
  next
    case False
    with q p grow_left [OF q(1)] show ?thesis
      by (intro wp_mono [OF goodD [OF no [OF False] holds_grow [OF p(1) q(1)]]])
        (auto simp: grow_cr intro: grow_trans)
  qed
  then show "wp m (\<lambda>x. wp (f x) (\<lambda>y r. grow p r \<and> (Q y \<longrightarrow> left (ps_scanner r) < left (ps_scanner p))) ?E) ?E p"
    by (intro wp_mono [OF goodD [OF m p]]) auto
qed

lemma good_bind [good_intros]:
  assumes "good A n (\<lambda>_. False) m" and "\<And>x. good A n Q (f x)"
  shows "good A n Q (bind m f)"
  by (rule good_progress [OF assms(1)]) (simp_all add: assms(2))

lemma good_ret [good_intros]: "good A n (\<lambda>_. False) (ret x)"
  by (simp add: good_def wp_simps)

lemma good_ret_not: "\<not> P x \<Longrightarrow> good A n P (ret x)"
  by (simp add: good_def wp_simps)

lemma good_throw: "e \<noteq> Out_of_fuel \<Longrightarrow> good A n P (throw e)"
  by (simp add: good_def wp_simps)

lemma good_gets [good_intros]: "good A n (\<lambda>_. False) (gets f)"
  by (simp add: good_def wp_simps)

lemma good_modify: "(\<And>p. grow p (g p)) \<Longrightarrow> good A n (\<lambda>_. False) (modify g)"
  by (simp add: good_def wp_simps)

lemma good_modify_holds: "(\<And>p. holds A p \<Longrightarrow> grow p (g p)) \<Longrightarrow> good A n (\<lambda>_. False) (modify g)"
  by (simp add: good_def wp_simps)

lemma good_if [good_intros]:
  "(b \<Longrightarrow> good A n P m) \<Longrightarrow> (\<not> b \<Longrightarrow> good A n P m') \<Longrightarrow> good A n P (if b then m else m')"
  by simp

lemma good_case_option [good_intros]:
  "(x = None \<Longrightarrow> good A n P m) \<Longrightarrow> (\<And>y. x = Some y \<Longrightarrow> good A n P (f y)) \<Longrightarrow>
   good A n P (case x of None \<Rightarrow> m | Some y \<Rightarrow> f y)"
  by (cases x) auto

lemma good_case_prod [good_intros]:
  "(\<And>y z. x = (y, z) \<Longrightarrow> good A n P (f y z)) \<Longrightarrow> good A n P (case x of (y, z) \<Rightarrow> f y z)"
  by (cases x) auto

lemma good_case_body [good_intros]:
  assumes "\<And>fs is. b = Object_body fs is \<Longrightarrow> good A n P (f1 fs is)"
    and "\<And>fs. b = Interface_body fs \<Longrightarrow> good A n P (f2 fs)"
    and "\<And>fs required. b = InputObject_body fs required \<Longrightarrow> good A n P (f3 fs required)"
    and "\<And>vals. b = Enum_body vals \<Longrightarrow> good A n P (f4 vals)"
    and "\<And>members. b = Union_body members \<Longrightarrow> good A n P (f5 members)"
  shows "good A n P (case b of Object_body fs is \<Rightarrow> f1 fs is | Interface_body fs \<Rightarrow> f2 fs
    | InputObject_body fs required \<Rightarrow> f3 fs required | Enum_body vals \<Rightarrow> f4 vals | Union_body members \<Rightarrow> f5 members)"
  using assms by (cases b) auto

lemma good_for_each [good_intros]:
  "(\<And>x. good A n (\<lambda>_. False) (f x)) \<Longrightarrow> good A n (\<lambda>_. False) (for_each f xs)"
  by (induction xs) (simp_all add: good_ret good_bind)

lemma good_Let [good_intros]: "good A n P (f x) \<Longrightarrow> good A n P (let y = x in f y)"
  by simp

subsection \<open>The parser's primitives\<close>

text \<open>Calls of the scanner that fail only where the source ends in a carriage return.\<close>

lemma good_on_scanner:
  assumes "\<And>s. wp m (\<lambda>x t. moves s t \<and> (P x \<longrightarrow> left t < left s)) (\<lambda>_. final_carriage_return s) s"
  shows "good A n P (on_scanner m)"
  unfolding good_def
proof (intro allI impI)
  fix p :: "'x GraphQlParser_scheme"
  show "wp (on_scanner m) (\<lambda>x q. grow p q \<and> (P x \<longrightarrow> left (ps_scanner q) < left (ps_scanner p)))
      (\<lambda>e. e = Out_of_fuel \<longrightarrow> final_carriage_return (ps_scanner p)) p"
    using assms [of "ps_scanner p"] by (auto simp: wp_def on_scanner_def grow_scanner split: sum.splits)
qed

lemma good_on_scanner_moves:
  "(\<And>s. wp m (\<lambda>_. moves s) (\<lambda>_. final_carriage_return s) s) \<Longrightarrow> good A n (\<lambda>_. False) (on_scanner m)"
  by (rule good_on_scanner) simp

lemma good_scanner_ops [good_intros]:
  "good A n (\<lambda>_. False) (on_scanner skip_block)"
  "good A n (\<lambda>_. False) (on_scanner scan_directive_location)"
  "good A n (\<lambda>_. False) (parser_skip_to ts)"
  by (auto simp: parser_skip_to_def intro!: good_on_scanner_moves scanner_moves)

lemma good_take: "good A n (\<lambda>token. token \<noteq> EndOfDocument) (parser_take_next_token k w)"
  unfolding parser_take_next_token_def by (rule good_on_scanner) (rule wp_take_moves)

lemma good_TakeNextToken: "good A n (\<lambda>token. token \<noteq> EndOfDocument) TakeNextToken"
  unfolding TakeNextToken_parser by (rule good_take)

lemma good_query_scanner: "(\<And>s. f s \<noteq> Inl Out_of_fuel) \<Longrightarrow> good A n (\<lambda>_. False) (query_scanner f)"
  by (auto simp: good_def wp_def query_scanner_def split: sum.splits)

lemma good_token_value [good_intros]: "good A n (\<lambda>_. False) parser_get_token_value"
  unfolding parser_get_token_value_def
  by (rule good_query_scanner) (simp add: get_value_def substr_def)

lemma good_location [good_intros]: "good A n (\<lambda>_. False) (get_location_from_syntax x)"
  unfolding get_location_from_syntax_def
proof (rule good_query_scanner)
  fix s
  show "get_token_location s (Syntax.truncate x) \<noteq> Inl Out_of_fuel"
    using search_for_line_no_fuel
    by (cases "search_for_line s 0 (sub64 (length (gs_position_to_line_list s)) 1) (syntax_start x)")
      (auto simp: get_token_location_def Syntax.truncate_def)
qed

lemma good_quiet [good_intros]:
  "good A n (\<lambda>_. False) (modify (\<lambda>p. p\<lparr>ps_current_value_token := t\<rparr>))"
  "good A n (\<lambda>_. False) (modify (\<lambda>p. p\<lparr>ps_directives := ps_directives p @ [directive]\<rparr>))"
  "good A n (\<lambda>_. False) parser_get_string_value"
  "good A n (\<lambda>_. False) (CreateSyntax kind)"
  "good A n (\<lambda>_. False) (finish_syntax x)"
  "good A n (\<lambda>_. False) (add_diagnostic_at l d args)"
  by (auto simp: parser_get_string_value_def CreateSyntax_def finish_syntax_def add_diagnostic_at_def
      intro: good_intros good_modify grow_diagnostics grow_value_token grow_directives)

lemma good_diagnostics [good_intros]:
  "good A n (\<lambda>_. False) (add_diagnostic d args)"
  "good A n (\<lambda>_. False) (add_diagnostic_for x d args)"
  "good A n (\<lambda>_. False) (has_diagnostic_in_syntax x d)"
  unfolding add_diagnostic_def add_diagnostic_for_def has_diagnostic_in_syntax_def by (intro good_intros)+

lemma good_CreateName [good_intros]: "good A n (\<lambda>_. False) (CreateName i)"
  unfolding CreateName_def by (intro good_intros)

lemma good_token_text [good_intros]: "good A n (\<lambda>_. False) (token_text t)"
  unfolding token_text_def by (intro good_intros good_throw) simp_all

lemma good_deref [good_intros]: "good A n (\<lambda>_. False) (deref x)"
  unfolding deref_def by (intro good_intros good_throw) simp_all

lemma good_read_uninitialised [good_intros]: "good A n (\<lambda>_. False) (read_uninitialised z)"
  by (simp add: good_def wp_def read_uninitialised_def)

lemma good_get_declaration [good_intros]: "good A n (\<lambda>_. False) (get_declaration r)"
  by (simp add: good_def wp_def get_declaration_def)

lemma good_get_type [good_intros]: "good A n (\<lambda>_. False) (get_type r)"
  by (simp add: good_def wp_def get_type_def)

lemma good_take_errors [good_intros]: "good A n (\<lambda>_. False) take_errors_from_scanner"
  unfolding take_errors_from_scanner_def
proof (rule good_modify)
  fix p :: "'x GraphQlParser_scheme"
  have "moves (ps_scanner p) ((ps_scanner p)\<lparr>gs_errors := []\<rparr>)" by (simp add: moves_def)
  then show "grow p (p\<lparr>ps_diagnostics := ps_diagnostics p @ gs_errors (ps_scanner p),
      ps_scanner := (ps_scanner p)\<lparr>gs_errors := []\<rparr>\<rparr>)"
    using grow_trans [OF grow_diagnostics grow_scanner, of p "gs_errors (ps_scanner p)"] by simp
qed

lemma good_location_name [good_intros]: "good A n (\<lambda>_. False) (location_name l)"
  unfolding location_name_def by (intro good_intros good_throw) simp_all

lemma good_type_name [good_intros]: "good A n (\<lambda>_. False) (get_type_name t)"
  unfolding get_type_name_def by (cases "ty_type t") (auto intro!: good_intros good_throw)

text \<open>A token that was expected and found, or optional and there, has been read.\<close>

lemma good_scan_result:
  assumes "good A n (\<lambda>r. r = token) m" and "\<And>r. good A n (\<lambda>_. False) (g r)"
  shows "good A n (\<lambda>ok. ok) (bind m (\<lambda>r. if r \<noteq> token then bind (g r) (\<lambda>_. ret False) else ret True))"
  by (rule good_progress [OF assms(1)])
    (auto intro: good_bind [OF assms(2)] good_ret_not good_intros)

lemma good_scan_expected:
  "token \<noteq> EndOfDocument \<Longrightarrow> good A n (\<lambda>ok. ok) (parser_scan_expected token k w)"
  unfolding parser_scan_expected_def
  by (intro good_scan_result good_on_scanner wp_scan_expected_moves good_intros) simp_all

lemma good_scan_expected_or:
  "token \<noteq> EndOfDocument \<Longrightarrow> good A n (\<lambda>ok. ok) (scan_expected_or token d k)"
proof -
  have eq: "scan_expected_or token d k = bind (on_scanner (scan_expected token k True)) (\<lambda>r.
      if r \<noteq> token then bind (bind parser_get_token_value (\<lambda>v. add_diagnostic d [v])) (\<lambda>_. ret False)
      else ret True)" for d :: D
    by (simp add: scan_expected_or_def bind_assoc cong: if_cong)
  show ?thesis if "token \<noteq> EndOfDocument"
    unfolding eq by (intro good_scan_result good_on_scanner wp_scan_expected_moves good_intros) (use that in simp_all)
qed

lemma good_scan_optional:
  "token \<noteq> EndOfDocument \<Longrightarrow> good A n (\<lambda>found. found) (parser_scan_optional token k)"
  unfolding parser_scan_optional_def
  by (rule good_progress [OF good_on_scanner [OF wp_try_scan_moves]]) (auto intro: good_ret_not good_intros)

text \<open>Where the progress does not matter.\<close>

lemmas good_tokens [good_intros] =
  good_take [THEN good_forget] good_TakeNextToken [THEN good_forget]

lemma good_scans [good_intros]:
  "good A n (\<lambda>_. False) (parser_scan_expected Colon k w)"
  "good A n (\<lambda>_. False) (parser_scan_expected G_Name k w)"
  "good A n (\<lambda>_. False) (parser_scan_expected OpenBrace k w)"
  "good A n (\<lambda>_. False) (parser_scan_expected CloseBracket k w)"
  "good A n (\<lambda>_. False) (parser_scan_expected At k w)"
  "good A n (\<lambda>_. False) (parser_scan_expected Equal k w)"
  "good A n (\<lambda>_. False) (parser_scan_expected OnKeyword k w)"
  "good A n (\<lambda>_. False) (scan_expected_or G_Name d k)"
  "good A n (\<lambda>_. False) (parser_scan_optional At k)"
  "good A n (\<lambda>_. False) (parser_scan_optional OpenParen k)"
  "good A n (\<lambda>_. False) (parser_scan_optional Exclamation k)"
  "good A n (\<lambda>_. False) (parser_scan_optional Pipe k)"
  "good A n (\<lambda>_. False) (parser_scan_optional ImplementsKeyword k)"
  "good A n (\<lambda>_. False) (parser_scan_expected CloseParen k w)"
  "good A n (\<lambda>_. False) (parser_scan_optional G_Name k)"
  "good A n (\<lambda>_. False) (parser_scan_optional Colon k)"
  "good A n (\<lambda>_. False) (parser_scan_optional Comma k)"
  "good A n (\<lambda>_. False) (parser_scan_optional Equal k)"
  "good A n (\<lambda>_. False) (parser_scan_optional OpenBrace k)"
  "good A n (\<lambda>_. False) (parser_scan_optional OpenBracket k)"
  by (rule good_forget, rule good_scan_expected good_scan_expected_or good_scan_optional, simp)+

text \<open>A call that reads at least one character pays for the fuel of the calls behind it.\<close>

lemma good_token_first:
  assumes "\<And>token. token \<noteq> EndOfDocument \<Longrightarrow> good A (n - 2) (\<lambda>_. False) (f token)"
    and "good A n Q (f EndOfDocument)"
  shows "good A n Q (bind (parser_take_next_token k w) f)"
  by (rule good_progress [OF good_take]) (use assms in auto)

lemma good_atoi [good_intros]:
  "(\<And>i. good A n (\<lambda>_. False) (f i)) \<Longrightarrow>
   good A n (\<lambda>_. False) (case atoi v of Inl e \<Rightarrow> throw e | Inr i \<Rightarrow> f i)"
  using atoi_no_fuel [of v] by (cases "atoi v") (auto intro: good_throw)

text \<open>
  Looking at the next token, and going back to before it where it satisfies \<open>C\<close>: the scanner then stands where
  it stood, although between the two it has moved.
\<close>

lemma good_lookahead:
  assumes eod: "C EndOfDocument"
    and go: "\<And>token. token \<noteq> EndOfDocument \<Longrightarrow> \<not> C token \<Longrightarrow> good A (n - 2) (\<lambda>_. False) (g token)"
  shows "good A n (\<lambda>_. False) (bind (on_scanner (modify save)) (\<lambda>_. bind TakeNextToken (\<lambda>token.
     if C token then bind (on_scanner revert) (\<lambda>_. ret x) else g token)))"
  unfolding good_def
proof (intro allI impI)
  fix p assume p: "holds A p" "2 * left (ps_scanner p) < n"
  let ?s = "ps_scanner p" and ?body = "\<lambda>token. if C token then bind (on_scanner revert) (\<lambda>_. ret x) else g token"
  let ?Q = "\<lambda>y q. grow p q \<and> (False \<longrightarrow> left (ps_scanner q) < left (ps_scanner p))"
  let ?E = "\<lambda>e. e = Out_of_fuel \<longrightarrow> final_carriage_return ?s"
  have "wp (?body token) ?Q ?E (p\<lparr>ps_scanner := t\<rparr>)"
    if t: "moves ?s t" "gs_saved_text_cursors t = gs_saved_text_cursors (save ?s)"
      "token \<noteq> EndOfDocument \<longrightarrow> left t < left ?s" for token t
  proof (cases "C token")
    case True
    have "wp revert (\<lambda>_ r. moves ?s r \<and> left r = left ?s) (\<lambda>_. False) t"
      by (rule wp_revert_after) (use t in auto)
    then show ?thesis
      using True by (auto simp: wp_def bind_def on_scanner_def ret_def grow_scanner split: sum.splits)
  next
    case False
    then have token: "token \<noteq> EndOfDocument" using eod by auto
    have grow: "grow p (p\<lparr>ps_scanner := t\<rparr>)" using t(1) by (rule grow_scanner)
    have "2 * left (ps_scanner (p\<lparr>ps_scanner := t\<rparr>)) < n - 2" using t(3) token p(2) by auto
    from wp_mono [OF goodD [OF go [OF token False] holds_grow [OF p(1) grow] this], of ?Q ?E] False
    show ?thesis using t(1) by (auto simp: moves_cr intro: grow_trans [OF grow])
  qed
  then have "wp (take_next_token False True) (\<lambda>token t. wp (?body token) ?Q ?E (p\<lparr>ps_scanner := t\<rparr>)) ?E (save ?s)"
    by (intro wp_mono [OF wp_save_take]) auto
  then show "wp (bind (on_scanner (modify save)) (\<lambda>_. bind TakeNextToken ?body)) ?Q ?E p"
    by (simp add: wp_bind TakeNextToken_def wp_on_scanner wp_modify)
qed

end

end
