(* ===== verification/GraphQlSchemaParsing.thy ===== *)
theory GraphQlSchemaParsing
  imports GraphQlSchemaChecks GraphQlParserSteps
begin

text \<open>
  Parsing a schema ends and leaves a well-formed store.  Every parsing method moves its scanner forward only,
  and keeps that references point to nodes of the right kind; a loop takes a token on every turn.  Both are
  facts about single methods, so they are proved by following the structure of the definitions with a set
  of introduction rules (\<open>good_intros\<close>).
\<close>

section \<open>References into the stores\<close>

primrec body_kind :: "DeclarationBody \<Rightarrow> SymbolKind" where
  "body_kind (Object_body fs is) = SL_Object"
| "body_kind (Interface_body fs) = SL_Interface"
| "body_kind (InputObject_body fs required) = SL_InputObject"
| "body_kind (Enum_body vals) = SL_Enum"
| "body_kind (Union_body members) = SL_Union"

definition has_body :: "GraphQlSchema \<Rightarrow> declaration_ref \<Rightarrow> SymbolKind \<Rightarrow> bool" where
  "has_body p r k \<longleftrightarrow> r < length (ps_declarations p) \<and> body_kind (dc_body (ps_declarations p ! r)) = k"

definition has_name :: "GraphQlSchema \<Rightarrow> type_ref \<Rightarrow> bool" where
  "has_name p r \<longleftrightarrow> r < length (ps_types p) \<and> ty_name (ps_types p ! r) \<noteq> None"

text \<open>
  The invariant of the tables: a symbol is filed under its name and points to a declaration of the class its
  kind says, so do the other tables, and the types to be resolved later have a name.
\<close>

definition schema_ok :: "GraphQlSchema \<Rightarrow> bool" where
  "schema_ok p \<longleftrightarrow>
     list_all (has_name p) (sc_forward_type_references p) \<and>
     distinct (map fst (sc_symbols p)) \<and>
     list_all (\<lambda>(k, sy). sy_name sy = k \<and> has_body p (sy_declaration sy) (sy_kind sy)) (sc_symbols p) \<and>
     list_all (\<lambda>(k, r). has_body p r SL_Interface) (sc_interfaces p) \<and>
     list_all (\<lambda>r. has_body p r SL_Object) (sc_objects_with_implementations p) \<and>
     list_all (\<lambda>r. has_body p r SL_Union) (sc_unions p)"

text \<open>The stores grow, and nodes keep their class and name.\<close>

definition stores_grow :: "GraphQlSchema \<Rightarrow> GraphQlSchema \<Rightarrow> bool" where
  "stores_grow p q \<longleftrightarrow>
     (\<forall>r. has_name p r \<longrightarrow> has_name q r) \<and> (\<forall>r k. has_body p r k \<longrightarrow> has_body q r k)"

text \<open>What every parsing method does to the state.\<close>

definition grows :: "GraphQlSchema \<Rightarrow> GraphQlSchema \<Rightarrow> bool" where
  "grows p q \<longleftrightarrow> moves (ps_scanner p) (ps_scanner q) \<and> stores_grow p q \<and> (schema_ok p \<longrightarrow> schema_ok q)"

lemma grows_refl [simp]: "grows p p"
  by (simp add: grows_def stores_grow_def)

lemma grows_trans: "grows p q \<Longrightarrow> grows q r \<Longrightarrow> grows p r"
  by (auto simp: grows_def stores_grow_def intro: moves_trans)

lemmas grows_defs = grows_def stores_grow_def schema_ok_def list_all_iff has_name_def has_body_def

text \<open>Changes of the state that touch neither the scanner nor the tables nor the stores.\<close>

lemma grows_updates [simp]:
  "grows p (p\<lparr>ps_current_description := d\<rparr>)"
  "grows p (p\<lparr>ps_current_value_token := t\<rparr>)"
  "grows p (p\<lparr>ps_has_description := h\<rparr>)"
  "grows p (p\<lparr>ps_current_description := d, ps_has_description := h\<rparr>)"
  "grows p (p\<lparr>ps_has_description := h, ps_current_description := d\<rparr>)"
  "grows p (p\<lparr>ps_directives := ds\<rparr>)"
  "grows p (p\<lparr>ps_directive_definitions := dd\<rparr>)"
  "grows p (p\<lparr>ps_diagnostics := dm\<rparr>)"
  "grows p (p\<lparr>sc_definitions := defs\<rparr>)"
  "grows p (p\<lparr>sc_forward_interface_references := fi\<rparr>)"
  "grows p (p\<lparr>sc_duplicate_symbols := dup\<rparr>)"
  by (simp_all add: grows_defs)

lemma grows_scanner: "moves (ps_scanner p) s \<Longrightarrow> grows p (p\<lparr>ps_scanner := s\<rparr>)"
  by (simp add: grows_defs)

section \<open>The judgement\<close>

text \<open>A caller relies on declarations of a class; the judgement is the one of \<open>parser_steps\<close>.\<close>

definition holds :: "(declaration_ref \<times> SymbolKind) set \<Rightarrow> GraphQlSchema \<Rightarrow> bool" where
  "holds A p \<longleftrightarrow> (\<forall>(r, k) \<in> A. has_body p r k)"

lemma holds_grows: "holds A p \<Longrightarrow> grows p q \<Longrightarrow> holds A q"
  by (fastforce simp: holds_def grows_def stores_grow_def)

interpretation sp: parser_steps grows holds
proof unfold_locales
  show "moves (ps_scanner p) (ps_scanner q)" if "grows p q" for p q using that by (simp add: grows_def)
qed (auto simp: grows_scanner intro: grows_trans holds_grows)

abbreviation good :: "(declaration_ref \<times> SymbolKind) set \<Rightarrow> nat \<Rightarrow> ('a \<Rightarrow> bool) \<Rightarrow> 'a schema_parser \<Rightarrow> bool" where
  "good \<equiv> sp.good"

lemma good_skip_to_next_primary_token [good_intros]: "good A n (\<lambda>_. False) skip_to_next_primary_token"
  unfolding skip_to_next_primary_token_def by (intro good_intros)

lemma good_description [good_intros]:
  "good A n (\<lambda>_. False) get_has_description"
  "good A n (\<lambda>_. False) description_if_any"
  unfolding description_if_any_def get_has_description_def by (intro good_intros)+

section \<open>Tables and stores\<close>

lemma set_insert_key: "set (insert_key k v m) = insert (k, v) (set m)"
  by (induction k v m rule: insert_key.induct) auto

lemma list_all_emplace: "list_all P m \<Longrightarrow> P (k, v) \<Longrightarrow> list_all P (emplace k v m)"
  by (auto simp: emplace_def list_all_iff set_insert_key)

lemma distinct_emplace: "distinct (map fst m) \<Longrightarrow> distinct (map fst (emplace k v m))"
proof -
  have "fst ` set (insert_key k v m) = insert k (fst ` set m)" by (simp add: set_insert_key)
  moreover have "distinct (map fst m) \<Longrightarrow> k \<notin> fst ` set m \<Longrightarrow> distinct (map fst (insert_key k v m))"
    by (induction k v m rule: insert_key.induct) (auto simp: set_insert_key)
  ultimately show "distinct (map fst m) \<Longrightarrow> distinct (map fst (emplace k v m))"
    by (simp add: emplace_def map_of_eq_None_iff)
qed

lemma holdsD: "holds A p \<Longrightarrow> (r, k) \<in> A \<Longrightarrow> has_body p r k"
  by (auto simp: holds_def)

text \<open>A state with the same scanner, stores and tables, up to entries that satisfy the invariant.\<close>

lemma has_updates [simp]:
  "has_name (p\<lparr>sc_symbols := ss\<rparr>) = has_name p" "has_body (p\<lparr>sc_symbols := ss\<rparr>) = has_body p"
  "has_name (p\<lparr>sc_interfaces := is\<rparr>) = has_name p" "has_body (p\<lparr>sc_interfaces := is\<rparr>) = has_body p"
  "has_name (p\<lparr>sc_objects_with_implementations := os\<rparr>) = has_name p"
  "has_body (p\<lparr>sc_objects_with_implementations := os\<rparr>) = has_body p"
  "has_name (p\<lparr>sc_unions := us\<rparr>) = has_name p" "has_body (p\<lparr>sc_unions := us\<rparr>) = has_body p"
  "has_name (p\<lparr>sc_forward_type_references := ts\<rparr>) = has_name p"
  "has_body (p\<lparr>sc_forward_type_references := ts\<rparr>) = has_body p"
  by (simp_all add: fun_eq_iff has_name_def has_body_def)

lemma good_tables:
  "(r, k) \<in> A \<Longrightarrow> good A n (\<lambda>_. False) (modify (\<lambda>p. p\<lparr>sc_symbols :=
     emplace i \<lparr>sy_name = i, sy_declaration = r, sy_kind = k\<rparr> (sc_symbols p)\<rparr>))"
  "(r, SL_Interface) \<in> A \<Longrightarrow> good A n (\<lambda>_. False) (modify (\<lambda>p. p\<lparr>sc_interfaces := emplace i r (sc_interfaces p)\<rparr>))"
  "(r, SL_Object) \<in> A \<Longrightarrow> good A n (\<lambda>_. False) (modify (\<lambda>p. p\<lparr>sc_objects_with_implementations :=
     sc_objects_with_implementations p @ [r]\<rparr>))"
  "(r, SL_Union) \<in> A \<Longrightarrow> good A n (\<lambda>_. False) (modify (\<lambda>p. p\<lparr>sc_symbols :=
     emplace i \<lparr>sy_name = i, sy_declaration = r, sy_kind = SL_Union\<rparr> (sc_symbols p), sc_unions := sc_unions p @ [r]\<rparr>))"
  by (rule sp.good_modify_holds; simp add: grows_def stores_grow_def schema_ok_def list_all_emplace distinct_emplace holdsD)+

lemma good_change_declaration:
  assumes "(r, k) \<in> A" and "\<And>d. body_kind (dc_body d) = k \<Longrightarrow> body_kind (dc_body (f d)) = k"
  shows "good A n (\<lambda>_. False) (change_declaration r f)"
  unfolding change_declaration_def
proof (rule sp.good_modify_holds)
  fix p assume "holds A p"
  then have r: "has_body p r k" using assms(1) by (rule holdsD)
  let ?q = "p\<lparr>ps_declarations := (ps_declarations p)[r := f (ps_declarations p ! r)]\<rparr>"
  have "has_body ?q i j = has_body p i j" for i j
    using r assms(2) [of "ps_declarations p ! r"] by (auto simp: has_body_def nth_list_update)
  moreover have "has_name ?q i = has_name p i" for i
    by (simp add: has_name_def)
  ultimately show "grows p ?q" by (simp add: grows_def stores_grow_def schema_ok_def list_all_iff)
qed

lemma grows_new_declaration:
  "grows p (p\<lparr>ps_declarations := ps_declarations p @ [d]\<rparr>)"
  "has_body (p\<lparr>ps_declarations := ps_declarations p @ [d]\<rparr>) (length (ps_declarations p)) (body_kind (dc_body d))"
proof -
  let ?q = "p\<lparr>ps_declarations := ps_declarations p @ [d]\<rparr>"
  have "has_body p i j \<Longrightarrow> has_body ?q i j" "has_name p i = has_name ?q i" for i j
    by (auto simp: has_body_def has_name_def nth_append)
  then show "grows p ?q" by (auto simp: grows_def stores_grow_def schema_ok_def list_all_iff)
  show "has_body ?q (length (ps_declarations p)) (body_kind (dc_body d))" by (simp add: has_body_def)
qed

lemma good_create_declaration:
  assumes "\<And>r. good (insert (r, body_kind body) A) n Q (f r)"
  shows "good A n Q (bind (create_declaration kind body) f)"
  unfolding sp.good_def
proof (intro allI impI)
  fix p assume p: "holds A p" "2 * left (ps_scanner p) < n"
  obtain d where d: "create_declaration kind body p =
      Inr (length (ps_declarations p), p\<lparr>ps_declarations := ps_declarations p @ [d]\<rparr>)" "dc_body d = body"
    by (simp add: create_declaration_def bind_def CreateSyntax_def gets_def new_declaration_def Syntax.extend_def)
  let ?q = "p\<lparr>ps_declarations := ps_declarations p @ [d]\<rparr>" and ?r = "length (ps_declarations p)"
  have "holds (insert (?r, body_kind body) A) ?q"
    using holds_grows [OF p(1) grows_new_declaration(1)] grows_new_declaration(2) [of p d] d(2)
    by (auto simp: holds_def)
  from sp.goodD [OF assms this] p(2)
  have "wp (f ?r) (\<lambda>x q. grows p q \<and> (Q x \<longrightarrow> left (ps_scanner q) < left (ps_scanner p)))
      (\<lambda>e. e = Out_of_fuel \<longrightarrow> final_carriage_return (ps_scanner p)) ?q"
    by (auto elim!: wp_mono intro: grows_trans [OF grows_new_declaration(1)])
  then show "wp (bind (create_declaration kind body) f)
      (\<lambda>x q. grows p q \<and> (Q x \<longrightarrow> left (ps_scanner q) < left (ps_scanner p)))
      (\<lambda>e. e = Out_of_fuel \<longrightarrow> final_carriage_return (ps_scanner p)) p"
    by (simp add: wp_def bind_def d(1))
qed

lemma good_declare_symbol:
  "(r, k) \<in> A \<Longrightarrow> good A n (\<lambda>_. False) (declare_symbol name r k)"
  unfolding declare_symbol_def by (intro good_intros good_tables sp.good_modify) simp_all

lemma good_change_type:
  assumes "\<And>t. ty_name (f t) = ty_name t"
  shows "good A n (\<lambda>_. False) (change_type r f)"
  unfolding sp.good_def
proof (intro allI impI)
  fix p :: GraphQlSchema
  let ?q = "p\<lparr>ps_types := (ps_types p)[r := f (ps_types p ! r)]\<rparr>"
  have "has_name ?q i = has_name p i" for i
    using assms by (cases "i = r") (auto simp: has_name_def)
  moreover have "has_body ?q i j = has_body p i j" for i j
    by (simp add: has_body_def)
  ultimately have "grows p ?q" by (simp add: grows_def stores_grow_def schema_ok_def list_all_iff)
  then show "wp (change_type r f) (\<lambda>x q. grows p q \<and> (False \<longrightarrow> left (ps_scanner q) < left (ps_scanner p)))
      (\<lambda>e. e = Out_of_fuel \<longrightarrow> final_carriage_return (ps_scanner p)) p"
    by (simp add: wp_def bind_def change_type_def get_type_def set_type_def modify_def)
qed

lemma good_finish_type [good_intros]: "good A n (\<lambda>_. False) (finish_type r)"
  unfolding finish_type_def by (intro good_intros good_change_type) simp

text \<open>A new type, which is to be resolved later if it has a name.\<close>

lemma good_new_type:
  assumes "b \<Longrightarrow> ty_name t \<noteq> None" and "\<And>r. good A n (\<lambda>_. False) (f r)"
  shows "good A n (\<lambda>_. False) (bind (new_type t) (\<lambda>r.
     bind (if b then modify (\<lambda>p. p\<lparr>sc_forward_type_references := sc_forward_type_references p @ [r]\<rparr>) else ret ())
       (\<lambda>_. f r)))"
proof -
  let ?m = "\<lambda>p. Inr (length (ps_types p), p\<lparr>ps_types := ps_types p @ [t], sc_forward_type_references :=
    sc_forward_type_references p @ (if b then [length (ps_types p)] else [])\<rparr>) :: flash_error + nat \<times> GraphQlSchema"
  have "good A n (\<lambda>_. False) ?m"
    unfolding sp.good_def
  proof (intro allI impI)
    fix p :: GraphQlSchema
    let ?q = "p\<lparr>ps_types := ps_types p @ [t], sc_forward_type_references :=
      sc_forward_type_references p @ (if b then [length (ps_types p)] else [])\<rparr>"
    have "has_name p i \<Longrightarrow> has_name ?q i" "b \<Longrightarrow> has_name ?q (length (ps_types p))" for i
      using assms(1) by (auto simp: has_name_def nth_append)
    moreover have "has_body ?q i j = has_body p i j" for i j
      by (simp add: has_body_def)
    ultimately have "grows p ?q" by (auto simp: grows_def stores_grow_def schema_ok_def list_all_iff)
    then show "wp ?m (\<lambda>x q. grows p q \<and> (False \<longrightarrow> left (ps_scanner q) < left (ps_scanner p)))
        (\<lambda>e. e = Out_of_fuel \<longrightarrow> final_carriage_return (ps_scanner p)) p"
      by (simp add: wp_def)
  qed
  then have "good A n (\<lambda>_. False) (bind ?m f)" by (rule sp.good_bind) (rule assms(2))
  moreover have "bind ?m f = bind (new_type t) (\<lambda>r.
     bind (if b then modify (\<lambda>p. p\<lparr>sc_forward_type_references := sc_forward_type_references p @ [r]\<rparr>) else ret ())
       (\<lambda>_. f r))"
    by (simp add: fun_eq_iff bind_def new_type_def modify_def ret_def)
  ultimately show ?thesis by simp
qed


section \<open>Values, directives and types\<close>

lemma good_parse_values:
  "(\<forall>A k. k \<le> n \<longrightarrow> good A k (\<lambda>v. v \<noteq> None) (parse_value n)) \<and>
   (\<forall>A k vs. k \<le> n - 1 \<longrightarrow> good A k (\<lambda>_. False) (parse_values n vs)) \<and>
   (\<forall>A k ofs. k \<le> n \<longrightarrow> good A k (\<lambda>_. False) (parse_object_fields n ofs))"
proof (induction n)
  case 0
  then show ?case by simp
next
  case (Suc n)
  have v: "good A k (\<lambda>v. v \<noteq> None) (parse_value n)" if "k \<le> n" for A k
    using Suc.IH that by blast
  have vs: "good A k (\<lambda>_. False) (parse_values n vs)" if "k \<le> n - 1" for A k vs
    using Suc.IH that by blast
  have ofs: "good A k (\<lambda>_. False) (parse_object_fields n ofs)" if "k \<le> n" for A k ofs
    using Suc.IH that by blast
  have "good A k (\<lambda>v. v \<noteq> None) (parse_value (Suc n))" if k: "k \<le> Suc n" for A k
    unfolding parse_value.simps TakeNextToken_parser
    by (rule sp.good_token_first, (intro good_intros sp.good_modify vs ofs; use k in simp),
        simp, intro sp.good_bind good_intros sp.good_modify sp.good_ret_not) simp_all
  moreover have "good A k (\<lambda>_. False) (parse_values (Suc n) xs)" if k: "k \<le> n" for A k xs
    unfolding parse_values.simps
    by (rule sp.good_progress [OF v [OF k]]) (use k in \<open>auto intro: good_intros vs split: option.split\<close>)
  moreover have "good A k (\<lambda>_. False) (parse_object_fields (Suc n) fs)" if k: "k \<le> Suc n" for A k fs
    unfolding parse_object_fields.simps
    by (rule sp.good_token_first, (intro good_intros ofs v [THEN sp.good_forget]; use k in simp)) (simp add: sp.good_ret)
  ultimately show ?case by simp
qed

lemma good_parse_value [good_intros]: "k \<le> n \<Longrightarrow> good A k (\<lambda>_. False) (parse_value n)"
  using good_parse_values [of n] by (blast intro: sp.good_forget)

lemma good_arguments [good_intros]:
  "k \<le> n \<Longrightarrow> good A k (\<lambda>_. False) (parse_arguments_after_open_paren n arguments)"
proof (induction n arbitrary: A k arguments)
  case 0
  then show ?case by simp
next
  case (Suc n)
  let ?scan = "parser_scan_expected Colon False True :: bool schema_parser"
  have colon: "good A k (\<lambda>_. False) (bind ?scan f)"
    if "good A (k - 2) (\<lambda>_. False) (f True)" "good A k (\<lambda>_. False) (f False)" for A k and f :: "bool \<Rightarrow> Argument string_map schema_parser"
    by (rule sp.good_progress [OF sp.good_scan_expected]) (use that in auto)
  show ?case
    unfolding parse_arguments_after_open_paren.simps
    by (intro good_intros colon Suc.IH; use Suc.prems in \<open>simp\<close>)
qed


lemma good_directives_loop:
  "k \<le> n \<Longrightarrow> good A k (\<lambda>_. False) (parse_directives_loop n location parent ds)"
proof (induction n arbitrary: A k ds)
  case 0
  then show ?case by simp
next
  case (Suc n)
  have mod: "good A k (\<lambda>_. False) (modify (\<lambda>p. p\<lparr>ps_directives := ps_directives p @ [d]\<rparr>))" for A k d
    by (rule sp.good_modify) simp
  show ?case
    unfolding parse_directives_loop.simps
    by (rule sp.good_progress [OF sp.good_scan_optional], simp)
      (use Suc.prems in \<open>auto intro!: good_intros Suc.IH mod\<close>)
qed

lemma good_parse_directives [good_intros]: "k \<le> n \<Longrightarrow> good A k (\<lambda>_. False) (parse_directives n location parent)"
  unfolding parse_directives_def by (rule good_directives_loop)

lemma good_type_annotation [good_intros]: "good A n (\<lambda>_. False) (parse_type_annotation input parent)"
proof -
  have name: "good A n (\<lambda>_. False) (bind (if token = G_Name
        then bind parser_get_token_value (\<lambda>v. bind (CreateName v) (\<lambda>nm. ret (Some nm))) else ret None) f)"
    if "\<And>x. (token = G_Name \<longleftrightarrow> x \<noteq> None) \<Longrightarrow> good A n (\<lambda>_. False) (f x)"
    for f :: "Name option \<Rightarrow> type_ref option schema_parser" and token
    using that by (cases "token = G_Name") (auto simp: bind_assoc bind_ret [abs_def] intro!: good_intros)
  show ?thesis
    unfolding parse_type_annotation_def
    by (intro name good_new_type good_intros good_change_type) (simp_all add: Syntax.extend_def)
qed

lemma good_arguments_definition [good_intros]:
  "k \<le> n \<Longrightarrow> good A k (\<lambda>_. False) (parse_arguments_definition_after_open_paren n parent arguments)"
proof (induction n arbitrary: A k arguments)
  case 0
  then show ?case by simp
next
  case (Suc n)
  show ?case
    unfolding parse_arguments_definition_after_open_paren.simps
    apply (rule sp.good_token_first)
     apply (intro good_intros Suc.IH sp.good_modify; use Suc.prems in simp)
    apply simp
    apply (intro good_intros sp.good_modify; simp)
    done
qed


section \<open>Definitions\<close>

lemma good_object_names:
  "(r, k) \<in> A \<Longrightarrow> good A n (\<lambda>_. False) (parse_object_name r k)"
  "(r, SL_InputObject) \<in> A \<Longrightarrow> good A n (\<lambda>_. False) (parse_input_object_name r)"
  unfolding parse_object_name_def parse_input_object_name_def
  by (intro good_intros good_declare_symbol; assumption)+

lemma good_fields_definition_after_open_brace [good_intros]:
  "k \<le> n \<Longrightarrow> good A k (\<lambda>_. False) (parse_fields_definition_after_open_brace n fs names d)"
proof (induction n arbitrary: A k fs names d)
  case 0
  then show ?case by simp
next
  case (Suc n)
  show ?case
    unfolding parse_fields_definition_after_open_brace.simps
    by (rule sp.good_token_first, (intro good_intros Suc.IH; use Suc.prems in simp), simp, intro good_intros)
qed

lemma good_fields_definition [good_intros]: "k \<le> n \<Longrightarrow> good A k (\<lambda>_. False) (parse_fields_definition n)"
  unfolding parse_fields_definition_def by (intro good_intros; assumption?)

lemma good_input_fields_loop:
  "(r, SL_InputObject) \<in> A \<Longrightarrow> k \<le> n \<Longrightarrow> good A k (\<lambda>_. False) (parse_input_fields_loop n r fs)"
proof (induction n arbitrary: A k fs)
  case 0
  then show ?case by simp
next
  case (Suc n)
  have body: "good A k' (\<lambda>_. False) (change_declaration r (\<lambda>d. d\<lparr>dc_body := (case dc_body d of
      InputObject_body f required \<Rightarrow> InputObject_body f (required @ [name]) | b \<Rightarrow> b)\<rparr>))" for k' name
    by (rule good_change_declaration [OF Suc.prems(1)]) (auto split: DeclarationBody.splits)
  show ?case
    unfolding parse_input_fields_loop.simps
    by (rule sp.good_bind [OF sp.good_quiet(4)], rule sp.good_token_first,
        (intro good_intros body Suc.IH Suc.prems; use Suc.prems in simp), simp, intro good_intros)
qed

lemma good_input_fields_definition:
  "(r, SL_InputObject) \<in> A \<Longrightarrow> k \<le> n \<Longrightarrow> good A k (\<lambda>_. False) (parse_input_fields_definition n r)"
  unfolding parse_input_fields_definition_def by (intro good_intros good_input_fields_loop; assumption)

lemma good_implementations [good_intros]:
  "k \<le> n \<Longrightarrow> good A k (\<lambda>_. False) (parse_implementations n is)"
proof (induction n arbitrary: A k "is")
  case 0
  then show ?case by simp
next
  case (Suc n)
  show ?case
    unfolding parse_implementations.simps TakeNextToken_parser
    by (rule sp.good_token_first, (intro good_intros Suc.IH sp.good_modify; use Suc.prems in simp), simp, intro good_intros)
qed

lemma good_enum_values:
  "(r, SL_Enum) \<in> A \<Longrightarrow> k \<le> n \<Longrightarrow> good A k (\<lambda>_. False) (parse_enum_values n r vals)"
proof (induction n arbitrary: A k vals)
  case 0
  then show ?case by simp
next
  case (Suc n)
  have body: "good A k' (\<lambda>_. False) (change_declaration r (\<lambda>d. d\<lparr>dc_body := Enum_body vals'\<rparr>))" for k' vals'
    by (rule good_change_declaration [OF Suc.prems(1)]) simp
  show ?case
    unfolding parse_enum_values.simps TakeNextToken_parser
    by (rule sp.good_token_first, (intro good_intros body Suc.IH Suc.prems; use Suc.prems in simp), simp, intro good_intros)
qed

lemma good_interface [good_intros]: "k \<le> n \<Longrightarrow> good A k (\<lambda>_. False) (parse_interface_definition n)"
  unfolding parse_interface_definition_def
  by (intro good_create_declaration good_object_names good_intros good_tables
      good_change_declaration [where k = SL_Interface]) simp_all

lemma good_object [good_intros]: "k \<le> n \<Longrightarrow> good A k (\<lambda>_. False) (parse_object n)"
  unfolding parse_object_def
  by (intro good_create_declaration good_object_names good_intros good_tables
      good_change_declaration [where k = SL_Object]) simp_all

lemma good_input_object [good_intros]: "k \<le> n \<Longrightarrow> good A k (\<lambda>_. False) (parse_input_object n)"
  unfolding parse_input_object_def
  by (intro good_create_declaration good_object_names good_intros good_tables good_input_fields_definition
      good_change_declaration [where k = SL_InputObject]) (auto split: DeclarationBody.splits)

lemma good_enum [good_intros]: "k \<le> n \<Longrightarrow> good A k (\<lambda>_. False) (parse_enum n)"
  unfolding parse_enum_def
  by (intro good_create_declaration good_declare_symbol good_intros good_enum_values
      good_change_declaration [where k = SL_Enum]) simp_all


lemma good_union_members:
  "k \<le> n \<Longrightarrow> good A k (\<lambda>_. False) (parse_union_members n ms)"
proof (induction n arbitrary: A k ms)
  case 0
  then show ?case by simp
next
  case (Suc n)
  have split: "(if a then if b then x else y else z) = (if a \<and> b then x else if a then y else z)"
    for a b and x y z :: "Name string_map option schema_parser" by simp
  show ?case
    unfolding parse_union_members.simps split
    by (intro sp.good_lookahead good_intros Suc.IH) (use Suc.prems in \<open>simp_all add: token_is_primary_def\<close>)
qed

lemma good_directive_locations:
  "k \<le> n \<Longrightarrow> good A k (\<lambda>_. False) (parse_directive_locations n ls)"
proof (induction n arbitrary: A k ls)
  case 0
  then show ?case by simp
next
  case (Suc n)
  show ?case
    unfolding parse_directive_locations.simps
    by (intro sp.good_lookahead good_intros Suc.IH) (use Suc.prems in \<open>simp_all add: token_is_primary_def\<close>)
qed

lemma good_union [good_intros]: "k \<le> n \<Longrightarrow> good A k (\<lambda>_. False) (parse_union_after_union_keyword n)"
  unfolding parse_union_after_union_keyword_def
  by (intro good_create_declaration good_intros good_tables good_union_members
      good_change_declaration [where k = SL_Union]) simp_all

lemma good_directive_definition [good_intros]:
  "k \<le> n \<Longrightarrow> good A k (\<lambda>_. False) (parse_directive_definition_after_directive_keyword n)"
  unfolding parse_directive_definition_after_directive_keyword_def
  by (intro good_intros sp.good_modify good_directive_locations) simp_all

lemma good_schema_field [good_intros]: "good A n (\<lambda>_. False) parse_schema_field_after_colon"
  unfolding parse_schema_field_after_colon_def by (intro good_intros)

lemma good_schema_fields:
  "k \<le> n \<Longrightarrow> good A k (\<lambda>_. False) (parse_schema_fields n schema dups)"
proof (induction n arbitrary: A k schema dups)
  case 0
  then show ?case by simp
next
  case (Suc n)
  show ?case
    unfolding parse_schema_fields.simps TakeNextToken_parser
    by (rule sp.good_token_first, (intro good_intros Suc.IH; use Suc.prems in simp), simp, intro good_intros)
qed

lemma good_create_schema [good_intros]: "good A n (\<lambda>_. False) (create_schema ds)"
  unfolding create_schema_def by (intro good_intros)

lemma good_schema [good_intros]: "k \<le> n \<Longrightarrow> good A k (\<lambda>_. False) (parse_schema n)"
  unfolding parse_schema_def by (intro good_intros good_schema_fields; assumption)

lemma good_primary_token [good_intros]: "k \<le> n \<Longrightarrow> good A k (\<lambda>_. False) (parse_primary_token n token)"
  unfolding parse_primary_token_def by (intro good_intros; assumption)

lemma good_definitions:
  "k \<le> n - 1 \<Longrightarrow> good A k (\<lambda>_. False) (parse_definitions n token schema)"
proof (induction n arbitrary: A k token schema)
  case 0
  then show ?case by simp
next
  case (Suc n)
  have onward: "good A k (\<lambda>_. False) (bind TakeNextToken (\<lambda>token. parse_definitions n token schema))" for A schema
    unfolding TakeNextToken_parser
  proof (rule sp.good_token_first)
    show "good A k (\<lambda>_. False) (parse_definitions n EndOfDocument schema)"
      using Suc.prems by (cases n) (auto intro: good_intros)
  qed (use Suc in simp)
  show ?case
    unfolding parse_definitions.simps
    by (intro onward good_intros sp.good_modify) (use Suc.prems in simp_all)
qed

lemma good_document: "k \<le> n \<Longrightarrow> good A k (\<lambda>_. False) (parse_document n)"
  unfolding parse_document_def TakeNextToken_parser
proof (rule sp.good_token_first)
  assume "k \<le> n"
  then show "good A k (\<lambda>_. False) (bind (parse_definitions n EndOfDocument None)
      (\<lambda>schema. case schema of None \<Rightarrow> create_schema [] | Some s \<Rightarrow> ret s))"
    by (cases n) (auto intro!: good_intros)
qed (intro good_definitions good_intros; simp)


section \<open>Parsing a document\<close>

lemma parse_document_wp:
  assumes "2 * length source < n"
  shows "wp (parse_document n) (\<lambda>schema p. schema_ok p \<and> gs_source (ps_scanner p) = source)
    (\<lambda>e. e = Out_of_fuel \<longrightarrow> source \<noteq> [] \<and> last source = CarriageReturn) (GraphQlSchema_init z source)"
proof -
  let ?p = "GraphQlSchema_init z source"
  have p: "left (ps_scanner ?p) = length source" "gs_source (ps_scanner ?p) = source" "schema_ok ?p"
    by (simp_all add: left_def GraphQlSchema_init_def GraphQlScanner_new_def source_size_def schema_ok_def)
  have "wp (parse_document n) (\<lambda>x q. grows ?p q \<and> (False \<longrightarrow> left (ps_scanner q) < left (ps_scanner ?p)))
      (\<lambda>e. e = Out_of_fuel \<longrightarrow> final_carriage_return (ps_scanner ?p)) ?p"
    by (rule sp.goodD [OF good_document [OF order_refl, of "{}"]]) (use assms p in \<open>simp_all add: holds_def\<close>)
  then show ?thesis
    by (rule wp_mono) (use p in \<open>auto simp: grows_def moves_def final_carriage_return_def\<close>)
qed

text \<open>C3. Termination.  Parsing a schema ends on every source: twice the length of the source and one more
  is enough fuel for all loops and recursive calls of the parser together, unless the source ends in a
  carriage return (where the scanner reads past its end).\<close>

theorem parse_document_ends:
  assumes "2 * length source < n" and "source = [] \<or> last source \<noteq> CarriageReturn"
  shows "parse_document n (GraphQlSchema_init z source) \<noteq> Inl Out_of_fuel"
  using parse_document_wp [OF assms(1), of z] assms(2) by (auto simp: wp_def)

theorem parse_document_ends_witness:
  "parse_document 40 (GraphQlSchema_init True (u ''type A{b:[A!]}}]'')) \<noteq> Inl Out_of_fuel"
  by (rule parse_document_ends) simp_all

text \<open>C15. The tables of a parsed schema are consistent, whatever the source: every symbol is filed once, under
  its own name, and points to an existing declaration of the class that its kind says; the tables of
  interfaces, of objects with implementations and of unions point to declarations of these classes; and
  every type that is to be resolved later exists and has a name.  These are the facts the checks after
  parsing rely on when they cast a declaration to a class.\<close>

theorem parsed_schema_consistent:
  assumes "2 * length source < n" and "parse_document n (GraphQlSchema_init z source) = Inr (schema, p)"
  shows "schema_ok p"
  using wp_InrD [OF parse_document_wp [OF assms(1)] assms(2)] by simp

text \<open>
  The parser on a concrete source, by rewriting.  The continuation of a call is left alone until the call has
  a result; fuel is a numeral.
\<close>

lemma bind_cong_weak: "m = m' \<Longrightarrow> s = s' \<Longrightarrow> bind m f s = bind m' f s'"
  by simp

lemmas name_eval = is_name_start_def is_name_part_def scan_name_rest.simps token_from_value_def get_value_def
  substr_def get_token_length_def get_token_from_value_def is_digit_def at_def

lemmas parser_eval = TakeNextToken_def parser_take_next_token_def on_scanner_def query_scanner_def
  parser_scan_expected_def scan_expected_or_def parser_scan_optional_def parser_get_token_value_def
  CreateName_def CreateSyntax_def Syntax.extend_def Name.extend_def new_declaration_def change_declaration_def
  scan_expected_def try_scan_def add_diagnostic_def add_diagnostic_at_def read_uninitialised_def
  new_type_def get_type_def set_type_def get_declaration_def deref_def

lemmas fuel_eval =
  parse_definitions.simps(2) [where n = "pred_numeral k" for k, folded numeral_eq_Suc]
  parse_enum_values.simps(2) [where n = "pred_numeral k" for k, folded numeral_eq_Suc]
  parse_directives_loop.simps(2) [where n = "pred_numeral k" for k, folded numeral_eq_Suc]
  parse_input_fields_loop.simps(2) [where n = "pred_numeral k" for k, folded numeral_eq_Suc]
  parse_arguments_definition_after_open_paren.simps(2) [where n = "pred_numeral k" for k, folded numeral_eq_Suc]
  parse_directive_locations.simps(2) [where n = "pred_numeral k" for k, folded numeral_eq_Suc]

lemmas schema_eval = GraphQlSchema_init_def parse_document_def parse_primary_token_def parse_enum_def
  create_declaration_def declare_symbol_def parse_directives_def is_valid_enum_value_def emplace_def
  schema_of_def create_schema_def parse_input_object_def parse_input_object_name_def description_if_any_def
  get_has_description_def parse_input_fields_definition_def parse_type_annotation_def annotation_type_def
  finish_type_def change_type_def finished_end_def parse_directive_definition_after_directive_keyword_def
  token_is_primary_def

lemmas parse_eval = bind_def scanner_eval name_eval parser_eval schema_eval fuel_eval advance_start_def

theorem parsed_schema_consistent_witness:
  "\<exists>schema p. parse_document 40 (GraphQlSchema_init True (u ''enum A{B}'')) = Inr (schema, p) \<and>
     map fst (sc_symbols p) = [u ''A''] \<and> schema_ok p"
proof -
  obtain schema p where "parse_document 40 (GraphQlSchema_init True (u ''enum A{B}'')) = Inr (schema, p)"
    "map fst (sc_symbols p) = [u ''A'']"
    by (simp add: parse_eval cong: bind_cong_weak)
  with parsed_schema_consistent [of "u ''enum A{B}''" 40 True schema p] show ?thesis by auto
qed

end
