(* ===== verification/GraphQlSchemaChecking.thy ===== *)
theory GraphQlSchemaChecking
  imports GraphQlSchemaParsing
begin

text \<open>
  The checks of a parsed schema.  They change nothing but the list of diagnostics, although the check of list
  values clears marks of the type on the way; the check of values accepts what is assignable, as long as no
  list type is entered again from inside itself; the check of recursive directives does not end on circular
  input types.
\<close>

section \<open>Checks only report\<close>

definition reports :: "GraphQlSchema \<Rightarrow> GraphQlSchema \<Rightarrow> bool" where
  "reports p q \<longleftrightarrow> (\<exists>ds. q = p\<lparr>ps_diagnostics := ps_diagnostics p @ ds\<rparr>)"

lemma reports_refl [simp]: "reports p p"
  unfolding reports_def by (rule exI [of _ "[]"]) simp

lemma reports_trans: "reports p q \<Longrightarrow> reports q r \<Longrightarrow> reports p r"
  by (auto simp: reports_def)

lemma reports_same:
  assumes "reports p q"
  shows "ps_types q = ps_types p" "ps_declarations q = ps_declarations p" "sc_symbols q = sc_symbols p"
    "ps_scanner q = ps_scanner p" "sc_interfaces q = sc_interfaces p"
  using assms by (auto simp: reports_def)

definition only_reports :: "'a schema_parser \<Rightarrow> bool" where
  "only_reports m \<longleftrightarrow> (\<forall>p. wp m (\<lambda>_ q. reports p q) (\<lambda>_. True) p)"

named_theorems report_intros \<open>calls that only report\<close>

lemma only_reportsD: "only_reports m \<Longrightarrow> m p = Inr (x, q) \<Longrightarrow> reports p q"
  unfolding only_reports_def by (meson wp_InrD)

lemma only_reports_ret [report_intros]: "only_reports (ret x)"
  by (simp add: only_reports_def wp_simps)

lemma only_reports_throw [report_intros]: "only_reports (throw e)"
  by (simp add: only_reports_def wp_simps)

lemma only_reports_gets [report_intros]: "only_reports (gets f)"
  by (simp add: only_reports_def wp_simps)

lemma only_reports_bind [report_intros]:
  assumes "only_reports m" and "\<And>x. only_reports (f x)"
  shows "only_reports (bind m f)"
proof -
  have "reports p r" if "bind m f p = Inr (y, r)" for p y r
    using that by (rule bind_InrE) (use assms in \<open>blast intro: reports_trans dest: only_reportsD\<close>)
  then show ?thesis by (auto simp: only_reports_def wp_def split: sum.split)
qed

lemma only_reports_if [report_intros]:
  "(b \<Longrightarrow> only_reports m) \<Longrightarrow> (\<not> b \<Longrightarrow> only_reports m') \<Longrightarrow> only_reports (if b then m else m')"
  by simp

lemma only_reports_option [report_intros]:
  "(x = None \<Longrightarrow> only_reports m) \<Longrightarrow> (\<And>y. x = Some y \<Longrightarrow> only_reports (f y)) \<Longrightarrow>
   only_reports (case x of None \<Rightarrow> m | Some y \<Rightarrow> f y)"
  by (cases x) auto

lemma only_reports_sum [report_intros]:
  "(\<And>e. only_reports (f e)) \<Longrightarrow> (\<And>y. only_reports (g y)) \<Longrightarrow>
   only_reports (case x of Inl e \<Rightarrow> f e | Inr y \<Rightarrow> g y)"
  by (cases x) auto

lemma only_reports_Let [report_intros]: "only_reports (f x) \<Longrightarrow> only_reports (let y = x in f y)"
  by simp

lemma only_reports_query [report_intros]: "only_reports (query_scanner f)"
  by (auto simp: only_reports_def wp_def query_scanner_def split: sum.split)

lemma only_reports_add_at [report_intros]: "only_reports (add_diagnostic_at l d args)"
  by (auto simp: only_reports_def wp_simps add_diagnostic_at_def reports_def)

lemma only_reports_store [report_intros]:
  "only_reports (get_type r)" "only_reports (get_declaration i)" "only_reports (read_uninitialised z)"
  by (simp_all add: only_reports_def wp_def get_type_def get_declaration_def read_uninitialised_def)

lemma only_reports_parser [report_intros]:
  "only_reports (deref y)" "only_reports (get_location_from_syntax x)"
  "only_reports (add_diagnostic d args)" "only_reports (add_diagnostic_for x d args)"
  "only_reports (has_diagnostic_in_syntax x d)" "only_reports (find_symbol i)"
  "only_reports (parser_value_string v)" "only_reports (location_name l)"
  unfolding deref_def get_location_from_syntax_def add_diagnostic_def add_diagnostic_for_def
    has_diagnostic_in_syntax_def find_symbol_def parser_value_string_def location_name_def
  by (intro report_intros)+

lemma only_reports_type_name [report_intros]: "only_reports (get_type_name t)"
  unfolding get_type_name_def by (cases "ty_type t") (auto intro: report_intros)

lemma only_reports_not_assignable [report_intros]: "only_reports (not_assignable v t)"
  unfolding not_assignable_def by (intro report_intros)

lemma only_reports_for_each [report_intros]:
  "(\<And>x. only_reports (f x)) \<Longrightarrow> only_reports (for_each f xs)"
  by (induction xs) (auto intro: report_intros)

lemma only_reports_for_each_while [report_intros]:
  "(\<And>x. only_reports (f x)) \<Longrightarrow> only_reports (for_each_while f xs)"
  by (induction xs) (auto intro: report_intros)

text \<open>A list value: the marks of the type are cleared, the elements are checked, the marks are set back.\<close>

lemma only_reports_list:
  assumes "only_reports m"
  shows "only_reports (bind (get_type r) (\<lambda>t. if \<not> ty_is_list_type t then not_assignable v t
     else bind (change_type r (\<lambda>t. t\<lparr>ty_is_list_type := False, ty_is_non_null_list := False\<rparr>)) (\<lambda>_.
       bind m (\<lambda>_.
       change_type r (\<lambda>t'. t'\<lparr>ty_is_list_type := True, ty_is_non_null_list := ty_is_non_null_list t\<rparr>)))))"
proof -
  let ?clear = "\<lambda>t. t\<lparr>ty_is_list_type := False, ty_is_non_null_list := False\<rparr>"
  have "reports p q"
    if list: "ty_is_list_type t" and t: "r < length (ps_types p)" "ps_types p ! r = t"
      and m: "m (p\<lparr>ps_types := (ps_types p)[r := ?clear t]\<rparr>) = Inr (x, q1)"
      and q: "q = q1\<lparr>ps_types := (ps_types q1)[r := (ps_types q1 ! r)
        \<lparr>ty_is_list_type := True, ty_is_non_null_list := ty_is_non_null_list t\<rparr>]\<rparr>" for p q q1 t x
  proof -
    from only_reportsD [OF assms m] obtain ds where q1: "q1 = p\<lparr>ps_types := (ps_types p)[r := ?clear t],
        ps_diagnostics := ps_diagnostics p @ ds\<rparr>" by (auto simp: reports_def)
    have "(?clear t)\<lparr>ty_is_list_type := True, ty_is_non_null_list := ty_is_non_null_list t\<rparr> = t"
      using list by simp
    then have "(ps_types p)[r := (?clear t)\<lparr>ty_is_list_type := True, ty_is_non_null_list := ty_is_non_null_list t\<rparr>] =
        ps_types p"
      using t by (metis list_update_id)
    then show ?thesis
      using t(1) by (auto simp: reports_def q q1)
  qed
  then show ?thesis
    using only_reports_not_assignable [of v]
    by (auto simp: only_reports_def wp_def bind_def get_type_def change_type_def set_type_def modify_def
        split: sum.splits)
qed


lemma only_reports_values:
  "only_reports (check_value v r)"
  "only_reports (check_values vs r)"
  "only_reports (check_object_fields w name fds checked ofs)"
proof (induction v r and vs r and w name fds checked ofs
    rule: check_value_check_values_check_object_fields.induct)
  case (2 s vs r)
  then have "only_reports (check_values vs r)"
    by (metis Type.select_convs(3))
  then show ?case unfolding check_value.simps by (rule only_reports_list)
next
  case (8 s ofs r)
  show ?case
    unfolding check_value.simps
    by (intro report_intros) (auto intro!: report_intros 8 split: DeclarationBody.splits)
next
  case (12 v name fds checked s fn fv ofs)
  then show ?case
    unfolding check_object_fields.simps
    by (auto intro!: report_intros split: option.splits ObjectField.splits)
qed (auto intro!: report_intros)

lemmas only_reports_value [report_intros] = only_reports_values(1)

lemma only_reports_recursive [report_intros]:
  "only_reports (check_recursive_directives n parent location ty)"
  "only_reports (check_recursive_fields n parent location fs)"
proof (induction n parent location ty and n parent location fs
    rule: check_recursive_directives_check_recursive_fields.induct)
  case (2 n parent location ty)
  show ?case
    unfolding check_recursive_directives.simps Let_def
    by (intro report_intros) (auto intro!: report_intros 2 split: DeclarationBody.splits)
qed (auto intro!: report_intros)

lemma only_reports_arguments [report_intros]: "only_reports (check_directive_arguments d checked ds)"
proof (induction ds arbitrary: checked)
  case (Cons a ds)
  show ?case
    unfolding check_directive_arguments.simps check_directive_argument_def
    by (intro report_intros Cons.IH)
qed (simp add: report_intros)

lemma only_reports_directive_reference: "only_reports (check_directive_reference d)"
  unfolding check_directive_reference_def by (intro report_intros) (auto intro: report_intros)

lemma only_reports_interface_field [report_intros]: "only_reports (check_interface_field object fs i kf)"
  unfolding check_interface_field_def type_mismatch_def
  by (cases kf) (auto simp: Let_def intro!: report_intros split: option.split)

lemma only_reports_implementation: "only_reports (check_object_implementation r)"
  unfolding check_object_implementation_def check_implementation_def interface_fields_def
  by (intro report_intros) (auto intro!: report_intros split: DeclarationBody.split)

lemma only_reports_union: "only_reports (check_union r)"
  unfolding check_union_def check_union_member_def
  by (intro report_intros) (auto intro!: report_intros split: DeclarationBody.split)


section \<open>Circular input types\<close>

text \<open>
  A set of types is circular if each of them names an input object with a field whose type is again in the
  set.
\<close>

definition input_fields :: "GraphQlSchema \<Rightarrow> type_ref \<Rightarrow> InputFieldDefinition string_map option" where
  "input_fields p r =
     (case ty_name (ps_types p ! r) of
        None \<Rightarrow> None
      | Some nm \<Rightarrow>
          (case map_of (sc_symbols p) (nm_identifier nm) of
             None \<Rightarrow> None
           | Some sy \<Rightarrow>
               (case dc_body (ps_declarations p ! sy_declaration sy) of InputObject_body fs required \<Rightarrow> fs | _ \<Rightarrow> None)))"

definition circular :: "GraphQlSchema \<Rightarrow> type_ref set \<Rightarrow> bool" where
  "circular p X \<longleftrightarrow> (\<forall>r \<in> X. ty_type (ps_types p ! r) = T_Object \<and>
     (\<exists>fs k f. input_fields p r = Some fs \<and> (k, f) \<in> set fs \<and> ifd_type f \<in> X))"

lemma input_fields_reports: "reports p q \<Longrightarrow> input_fields q r = input_fields p r"
  unfolding input_fields_def by (simp only: reports_same)

lemma circular_reports: "reports p q \<Longrightarrow> circular q X = circular p X"
  by (simp add: circular_def input_fields_reports reports_same)

lemma store_Inr:
  "get_type r p = Inr (t, q) \<longleftrightarrow> r < length (ps_types p) \<and> t = ps_types p ! r \<and> q = p"
  "get_declaration i p = Inr (d, q) \<longleftrightarrow> i < length (ps_declarations p) \<and> d = ps_declarations p ! i \<and> q = p"
  "deref x p = Inr (y, q) \<longleftrightarrow> x = Some y \<and> q = p"
  "find_symbol name p = Inr (found, q) \<longleftrightarrow> found = map_of (sc_symbols p) name \<and> q = p"
  by (auto simp: get_type_def get_declaration_def deref_def find_symbol_def exec_basic split: option.split)

lemma check_recursive_diverges:
  "\<lbrakk>circular p X; r \<in> X\<rbrakk> \<Longrightarrow> check_recursive_directives n parent location r p \<noteq> Inr ((), q)"
  "\<lbrakk>circular p X; (k, f) \<in> set fs; ifd_type f \<in> X\<rbrakk> \<Longrightarrow> check_recursive_fields n parent location fs p \<noteq> Inr ((), q)"
proof (induction n parent location r and n parent location fs arbitrary: p q and p q k f
    rule: check_recursive_directives_check_recursive_fields.induct)
  case (1 parent location ty)
  then show ?case by (simp add: throw_def)
next
  case (2 n parent location ty)
  from "2.prems" obtain fs k f where fs: "input_fields p ty = Some fs" "(k, f) \<in> set fs" "ifd_type f \<in> X"
    unfolding circular_def by blast
  from fs(1) obtain nm sy required where names: "ty_name (ps_types p ! ty) = Some nm"
    "map_of (sc_symbols p) (nm_identifier nm) = Some sy"
    "dc_body (ps_declarations p ! sy_declaration sy) = InputObject_body (Some fs) required"
    by (auto simp: input_fields_def split: option.splits DeclarationBody.splits)
  show ?case
  proof
    assume "check_recursive_directives (Suc n) parent location ty p = Inr ((), q)"
    with names obtain l d args p1 where own: "(if map_of (dc_directives (d :: Declaration)) parent \<noteq> None
        then add_diagnostic_for (l :: Type) Cannot_annotate_with_a_type_that_recursively_references_the_directive_0 args
        else ret ()) p = Inr ((), p1)" "check_recursive_fields n parent location fs p1 = Inr ((), q)"
      by (auto elim!: bind_InrE simp: store_Inr Let_def)
    have "reports p p1" using own(1) by (auto split: if_splits simp: exec_basic dest: only_reportsD [OF only_reports_parser(4)] only_reportsD [OF only_reports_recursive(1)])
    then have "circular p1 X" using "2.prems"(1) by (simp add: circular_reports)
    from "2.IH" [OF refl refl names(3) this fs(2,3)] own(2) show False by blast
  qed
next
  case (3 n parent location)
  then show ?case by simp
next
  case (4 n parent location k' f' fs)
  show ?case
  proof
    assume "check_recursive_fields n parent location ((k', f') # fs) p = Inr ((), q)"
    then obtain l args p1 p2 where steps: "(if map_of (ifd_directives f') parent \<noteq> None
        then add_diagnostic_for (l :: Type) Cannot_annotate_with_a_type_that_recursively_references_the_directive_0 args
        else ret ()) p = Inr ((), p1)"
      "(if ty_type (ps_types p1 ! ifd_type f') = T_Object
        then check_recursive_directives n parent location (ifd_type f') else ret ()) p1 = Inr ((), p2)"
      "check_recursive_fields n parent location fs p2 = Inr ((), q)"
      unfolding check_recursive_fields.simps by (elim bind_InrE) (auto simp: store_Inr)
    have p1: "reports p p1" using steps(1) by (auto split: if_splits simp: exec_basic dest: only_reportsD [OF only_reports_parser(4)] only_reportsD [OF only_reports_recursive(1)])
    have "reports p1 p2" using steps(2) by (auto split: if_splits simp: exec_basic dest: only_reportsD [OF only_reports_parser(4)] only_reportsD [OF only_reports_recursive(1)])
    with p1 have p2: "circular p1 X" "circular p2 X" using "4.prems"(1) by (simp_all add: circular_reports)
    consider "(k, f) = (k', f')" | "(k, f) \<in> set fs" using "4.prems"(2) by auto
    then show False
    proof cases
      case 1
      then have "ifd_type f' \<in> X" "ty_type (ps_types p1 ! ifd_type f') = T_Object"
        using "4.prems"(3) p2(1) by (auto simp: circular_def)
      with steps(2) "4.IH"(1) p2(1) show False by auto
    next
      case 2
      with steps(3) "4.IH"(2) p2(2) "4.prems"(3) show False by blast
    qed
  qed
qed

text \<open>C25. Checking whether the argument of a directive refers back to the directive never returns on circular
  input types: in every parsed state in which a set of types is closed under "has a field whose type is in
  the set", the check started on one of them ends in no depth of calls; the code recurses until the stack
  overflows.\<close>

theorem check_recursive_directives_diverges:
  assumes "circular p X" and "r \<in> X"
  shows "check_recursive_directives n parent location r p \<noteq> Inr ((), q)"
  using assms by (rule check_recursive_diverges)

theorem check_recursive_directives_diverges_witness:
  "\<exists>schema p. parse_document 60 (GraphQlSchema_init True (u ''input I{b:I}'')) = Inr (schema, p) \<and>
     circular p {0} \<and> (\<forall>n q. check_recursive_directives n (u ''d'') 0 0 p \<noteq> Inr ((), q))"
proof -
  obtain schema p where p: "parse_document 60 (GraphQlSchema_init True (u ''input I{b:I}'')) = Inr (schema, p)"
    "circular p {0}"
    by (simp add: parse_eval circular_def input_fields_def cong: bind_cong_weak)
  with check_recursive_directives_diverges [OF p(2)] show ?thesis by blast
qed


section \<open>Assignable values\<close>

text \<open>
  The specification of \<open>check_value\<close>: which values a type takes.  The tables of the schema are only read.  An
  object type that is no input object has been reported before and takes every object.
\<close>

definition symbol_of :: "GraphQlSchema \<Rightarrow> Type \<Rightarrow> Symbol option" where
  "symbol_of p t = (case ty_name t of None \<Rightarrow> None | Some nm \<Rightarrow> map_of (sc_symbols p) (nm_identifier nm))"

definition input_object_fields :: "GraphQlSchema \<Rightarrow> Symbol \<Rightarrow> InputFieldDefinition string_map" where
  "input_object_fields p sy = (case dc_body (ps_declarations p ! sy_declaration sy) of
     InputObject_body (Some fds) required \<Rightarrow> fds | _ \<Rightarrow> [])"

definition field_name :: "ObjectField \<Rightarrow> ustring" where
  "field_name f = (case f of ObjectField s n v \<Rightarrow> nm_identifier n)"

definition required_given :: "GraphQlSchema \<Rightarrow> InputFieldDefinition string_map \<Rightarrow> ObjectField list \<Rightarrow> bool" where
  "required_given p fds ofs \<longleftrightarrow>
     (\<forall>(k, f) \<in> set fds. is_required (ps_types p ! ifd_type f) \<longrightarrow> k \<in> field_name ` set ofs)"

fun assignable :: "GraphQlSchema \<Rightarrow> Value \<Rightarrow> Type \<Rightarrow> bool"
  and assignable_fields :: "GraphQlSchema \<Rightarrow> InputFieldDefinition string_map \<Rightarrow> ObjectField list \<Rightarrow> bool" where
  "assignable p (NullValue s) t \<longleftrightarrow> (if ty_is_list_type t then \<not> ty_is_non_null_list t else \<not> is_required t)"
| "assignable p (ListValue s vs) t \<longleftrightarrow> ty_is_list_type t \<and>
     (\<forall>v \<in> set vs. assignable p v (t\<lparr>ty_is_list_type := False, ty_is_non_null_list := False\<rparr>))"
| "assignable p (StringValue s x) t \<longleftrightarrow> \<not> ty_is_list_type t \<and> ty_type t \<in> {T_String, T_ID}"
| "assignable p (IntValue s i) t \<longleftrightarrow> \<not> ty_is_list_type t \<and> ty_type t \<in> {T_Int, T_ID}"
| "assignable p (FloatValue s x) t \<longleftrightarrow> \<not> ty_is_list_type t \<and> ty_type t = T_Float"
| "assignable p (BooleanValue s b) t \<longleftrightarrow> \<not> ty_is_list_type t \<and> ty_type t = T_Boolean"
| "assignable p (EnumValue s x) t \<longleftrightarrow> \<not> ty_is_list_type t \<and> ty_type t = T_Enum"
| "assignable p (ObjectValue s ofs) t \<longleftrightarrow> \<not> ty_is_list_type t \<and> ty_type t = T_Object \<and>
     (case symbol_of p t of
        None \<Rightarrow> False
      | Some sy \<Rightarrow> sy_kind sy = SL_InputObject \<longrightarrow>
          assignable_fields p (input_object_fields p sy) ofs \<and> required_given p (input_object_fields p sy) ofs)"
| "assignable_fields p fds [] \<longleftrightarrow> True"
| "assignable_fields p fds (ObjectField s n fv # ofs) \<longleftrightarrow>
     (case map_of fds (nm_identifier n) of
        None \<Rightarrow> False
      | Some fd \<Rightarrow> (case fv of None \<Rightarrow> False | Some v \<Rightarrow> assignable p v (ps_types p ! ifd_type fd))) \<and>
     nm_identifier n \<notin> field_name ` set ofs \<and> assignable_fields p fds ofs"

text \<open>
  What the check relies on: an input object has been read to its end, the types of its fields exist, and no
  field is a list of objects (such a list could be entered again from inside itself).
\<close>

definition input_objects_complete :: "GraphQlSchema \<Rightarrow> bool" where
  "input_objects_complete p \<longleftrightarrow> (\<forall>(k, sy) \<in> set (sc_symbols p). sy_kind sy = SL_InputObject \<longrightarrow>
     sy_declaration sy < length (ps_declarations p) \<and> dc_name (ps_declarations p ! sy_declaration sy) \<noteq> None \<and>
     (\<exists>fds required. dc_body (ps_declarations p ! sy_declaration sy) = InputObject_body (Some fds) required \<and>
        (\<forall>(i, fd) \<in> set fds. ifd_type fd < length (ps_types p))))"

definition field_types :: "GraphQlSchema \<Rightarrow> type_ref set" where
  "field_types p = set (concat (map (\<lambda>(k, sy).
     if sy_kind sy = SL_InputObject then map (\<lambda>(i, fd). ifd_type fd) (input_object_fields p sy) else [])
     (sc_symbols p)))"

definition object_list :: "Type \<Rightarrow> bool" where
  "object_list t \<longleftrightarrow> ty_is_list_type t \<and> ty_type t = T_Object"

definition no_list_reentered :: "GraphQlSchema \<Rightarrow> type_ref \<Rightarrow> bool" where
  "no_list_reentered p r \<longleftrightarrow>
     (\<forall>i \<in> field_types p. \<not> object_list (ps_types p ! i)) \<and> (object_list (ps_types p ! r) \<longrightarrow> r \<notin> field_types p)"

text \<open>Clearing the marks of a type does not change what is assignable.\<close>

abbreviation element :: "Type \<Rightarrow> Type" where
  "element t \<equiv> t\<lparr>ty_is_list_type := False, ty_is_non_null_list := False\<rparr>"

definition cleared :: "type_ref \<Rightarrow> GraphQlSchema \<Rightarrow> GraphQlSchema" where
  "cleared r p = p\<lparr>ps_types := (ps_types p)[r := element (ps_types p ! r)]\<rparr>"


lemma cleared_simps [simp]:
  "sc_symbols (cleared r p) = sc_symbols p" "ps_declarations (cleared r p) = ps_declarations p"
  "length (ps_types (cleared r p)) = length (ps_types p)" "i \<noteq> r \<Longrightarrow> ps_types (cleared r p) ! i = ps_types p ! i"
  "r < length (ps_types p) \<Longrightarrow> ps_types (cleared r p) ! r = element (ps_types p ! r)"
  by (simp_all add: cleared_def)

lemma cleared_tables [simp]:
  "symbol_of (cleared r p) = symbol_of p" "input_object_fields (cleared r p) = input_object_fields p"
  "field_types (cleared r p) = field_types p" "input_objects_complete (cleared r p) = input_objects_complete p"
  by (auto simp: fun_eq_iff symbol_of_def input_object_fields_def field_types_def input_objects_complete_def
      split: option.split)

lemma cleared_not_object_list: "\<not> object_list (ps_types p ! i) \<Longrightarrow> \<not> object_list (ps_types (cleared r p) ! i)"
  by (cases "i = r"; cases "r < length (ps_types p)") (auto simp: object_list_def cleared_def list_update_beyond)

lemma cleared_not_reentered:
  "no_list_reentered p r \<Longrightarrow> r < length (ps_types p) \<Longrightarrow> no_list_reentered (cleared r p) r"
  by (auto simp: no_list_reentered_def cleared_not_object_list) (simp add: object_list_def)

lemma symbol_of_field_type:
  "symbol_of p t = Some sy \<Longrightarrow> sy_kind sy = SL_InputObject \<Longrightarrow> (i, fd) \<in> set (input_object_fields p sy) \<Longrightarrow>
   ifd_type fd \<in> field_types p"
  by (force simp: symbol_of_def field_types_def dest!: map_of_SomeD split: option.splits)

lemma assignable_cleared:
  "ty_type t \<noteq> T_Object \<or> r \<notin> field_types p \<Longrightarrow> assignable (cleared r p) v t = assignable p v t"
  "r \<notin> field_types p \<Longrightarrow> (\<And>i fd. (i, fd) \<in> set fds \<Longrightarrow> ifd_type fd \<noteq> r) \<Longrightarrow>
   assignable_fields (cleared r p) fds ofs = assignable_fields p fds ofs"
proof (induction p v t and p fds ofs rule: assignable_assignable_fields.induct)
  case (8 p s ofs t)
  have "assignable_fields (cleared r p) (input_object_fields p sy) ofs =
      assignable_fields p (input_object_fields p sy) ofs \<and>
      required_given (cleared r p) (input_object_fields p sy) ofs = required_given p (input_object_fields p sy) ofs"
    if sy: "ty_type t = T_Object" "symbol_of p t = Some sy" "sy_kind sy = SL_InputObject" "\<not> ty_is_list_type t" for sy
  proof -
    have r: "r \<notin> field_types p" using "8.prems" sy(1) by simp
    then have ne: "ifd_type fd \<noteq> r" if "(i, fd) \<in> set (input_object_fields p sy)" for i fd
      using symbol_of_field_type [OF sy(2,3) that] by auto
    have "required_given (cleared r p) (input_object_fields p sy) ofs = required_given p (input_object_fields p sy) ofs"
      unfolding required_given_def using ne by (intro ball_cong) auto
    with 8 r ne sy show ?thesis by auto
  qed
  then show ?case by (auto split: option.split)
next
  case (10 p fds s n fv ofs)
  have "ps_types (cleared r p) ! ifd_type fd = ps_types p ! ifd_type fd" if "map_of fds x = Some fd" for x fd
    using "10.prems"(2) [OF map_of_SomeD [OF that]] by simp
  with 10 show ?case by (auto split: option.split)
qed auto

section \<open>Accepting and reporting\<close>

text \<open>
  \<open>yields m b R p\<close>: in the state \<open>p\<close>, the check \<open>m\<close> returns without a diagnostic and with a result that satisfies
  \<open>R\<close> if \<open>b\<close>, and reports or throws if not.
\<close>

definition yields :: "'a schema_parser \<Rightarrow> bool \<Rightarrow> ('a \<Rightarrow> bool) \<Rightarrow> GraphQlSchema \<Rightarrow> bool" where
  "yields m b R p \<longleftrightarrow> wp m (\<lambda>x q. (q = p \<longleftrightarrow> b) \<and> (b \<longrightarrow> R x)) (\<lambda>_. \<not> b) p"

abbreviation accepts :: "unit schema_parser \<Rightarrow> bool \<Rightarrow> GraphQlSchema \<Rightarrow> bool" where
  "accepts m b p \<equiv> yields m b (\<lambda>_. True) p"

definition loud :: "'a schema_parser \<Rightarrow> bool" where
  "loud m \<longleftrightarrow> (\<forall>p. wp m (\<lambda>_ q. reports p q \<and> q \<noteq> p) (\<lambda>_. True) p)"

lemma reports_neq:
  assumes "reports p q" and "reports q r" and "q \<noteq> p \<or> r \<noteq> q"
  shows "r \<noteq> p"
proof -
  obtain ds es where "q = p\<lparr>ps_diagnostics := ps_diagnostics p @ ds\<rparr>" "r = q\<lparr>ps_diagnostics := ps_diagnostics q @ es\<rparr>"
    using assms by (auto simp: reports_def)
  with assms(3) show ?thesis by (auto dest: arg_cong [where f = ps_diagnostics])
qed

lemma loudD: "loud m \<Longrightarrow> \<not> b \<Longrightarrow> yields m b R p"
  by (auto simp: loud_def yields_def elim!: wp_mono)

lemma loud_bind:
  assumes "only_reports m" and "\<And>x. loud (f x)"
  shows "loud (bind m f)"
proof -
  have "reports p r \<and> r \<noteq> p" if "bind m f p = Inr (y, r)" for p y r
    using that
  proof (rule bind_InrE)
    fix x q assume "m p = Inr (x, q)" and f: "f x q = Inr (y, r)"
    then have "reports p q" using assms(1) by (blast dest: only_reportsD)
    moreover have "reports q r \<and> r \<noteq> q"
      using assms(2) [of x] f unfolding loud_def by (blast dest: wp_InrD)
    ultimately show ?thesis by (blast intro: reports_trans dest: reports_neq)
  qed
  then show ?thesis by (auto simp: loud_def wp_def split: sum.split)
qed

lemma loud_then:
  assumes "loud m" and "\<And>x. only_reports (f x)"
  shows "loud (bind m f)"
proof -
  have "reports p r \<and> r \<noteq> p" if "bind m f p = Inr (y, r)" for p y r
    using that
  proof (rule bind_InrE)
    fix x q assume m: "m p = Inr (x, q)" and "f x q = Inr (y, r)"
    then have "reports q r" using assms(2) by (blast dest: only_reportsD)
    moreover have "reports p q \<and> q \<noteq> p"
      using assms(1) m unfolding loud_def by (blast dest: wp_InrD)
    ultimately show ?thesis by (blast intro: reports_trans dest: reports_neq)
  qed
  then show ?thesis by (auto simp: loud_def wp_def split: sum.split)
qed

lemma loud_add_at: "loud (add_diagnostic_at l d args)"
  by (auto simp: loud_def add_diagnostic_at_def wp_simps reports_def dest: arg_cong [where f = ps_diagnostics])

lemmas loud_intros = loud_bind loud_add_at report_intros

lemma loud_reports:
  "loud (add_diagnostic d args)" "loud (add_diagnostic_for x d args)" "loud (not_assignable v t)"
  unfolding add_diagnostic_def add_diagnostic_for_def not_assignable_def by (intro loud_intros)+

lemma yields_ret: "R x \<Longrightarrow> yields (ret x) True R p"
  by (simp add: yields_def wp_simps)

lemma yields_throw: "\<not> b \<Longrightarrow> yields (throw e) b R p"
  by (simp add: yields_def wp_simps)

lemma yields_bind:
  assumes "yields m b R p" and "only_reports m" and "\<And>x. only_reports (f x)"
    and "\<And>x. b \<Longrightarrow> R x \<Longrightarrow> yields (f x) c S p"
  shows "yields (bind m f) (b \<and> c) S p"
proof (cases "m p")
  case (Inl e)
  then show ?thesis using assms(1) by (simp add: yields_def wp_def bind_def)
next
  case (Inr xq)
  then obtain x q where q: "m p = Inr (x, q)" by (cases xq) auto
  have "reports p q" using only_reportsD [OF assms(2) q] .
  moreover have "reports q r" if "f x q = Inr (y, r)" for y r using only_reportsD [OF assms(3) that] .
  moreover have "q = p \<longleftrightarrow> b" "b \<longrightarrow> R x" using assms(1) q by (simp_all add: yields_def wp_def)
  ultimately show ?thesis
    using assms(4) [of x] reports_neq [of p q] by (auto simp: yields_def wp_def bind_def q split: sum.split)
qed

lemma accepts_for_each:
  assumes "\<And>x. x \<in> set xs \<Longrightarrow> accepts (f x) (P x) p" and "\<And>x. only_reports (f x)"
  shows "accepts (for_each f xs) (\<forall>x \<in> set xs. P x) p"
  using assms(1)
proof (induction xs)
  case (Cons x xs)
  have "accepts (bind (f x) (\<lambda>_. for_each f xs)) (P x \<and> (\<forall>x \<in> set xs. P x)) p"
    by (rule yields_bind) (use Cons assms(2) in \<open>auto intro: report_intros\<close>)
  then show ?case by simp
qed (simp add: yields_ret)

text \<open>Reads of the stores and tables, with their result.\<close>

lemma yields_reads:
  "r < length (ps_types p) \<Longrightarrow> yields (bind (get_type r) f) b R p = yields (f (ps_types p ! r)) b R p"
  "i < length (ps_declarations p) \<Longrightarrow>
   yields (bind (get_declaration i) g) b R p = yields (g (ps_declarations p ! i)) b R p"
  "yields (bind (deref (Some y)) h) b R p = yields (h y) b R p"
  "yields (bind (find_symbol n) k) b R p = yields (k (map_of (sc_symbols p) n)) b R p"
  by (simp_all add: yields_def wp_def bind_def get_type_def get_declaration_def deref_def ret_def find_symbol_def gets_def)

lemma yields_null: "\<not> b \<Longrightarrow> yields (bind (deref None) h) b R p"
  by (simp add: yields_def wp_def bind_def deref_def throw_def)

lemma accepts_unless: "loud m \<Longrightarrow> b = (\<not> c) \<Longrightarrow> accepts (if c then m else ret ()) b p"
  by (auto intro: yields_ret loudD)

lemma accepts_if: "loud m \<Longrightarrow> b = c \<Longrightarrow> accepts (if c then ret () else m) b p"
  by (auto intro: yields_ret loudD)


section \<open>The check of values is the specification\<close>

lemma yields_list:
  assumes r: "r < length (ps_types p)" and m: "only_reports m" and b: "accepts m b (cleared r p)"
  shows "accepts (bind (get_type r) (\<lambda>t. if \<not> ty_is_list_type t then not_assignable v t
     else bind (change_type r (\<lambda>t. t\<lparr>ty_is_list_type := False, ty_is_non_null_list := False\<rparr>)) (\<lambda>_.
       bind m (\<lambda>_.
       change_type r (\<lambda>t'. t'\<lparr>ty_is_list_type := True, ty_is_non_null_list := ty_is_non_null_list t\<rparr>)))))
     (ty_is_list_type (ps_types p ! r) \<and> b) p" (is "accepts ?check _ p")
proof (cases "ty_is_list_type (ps_types p ! r)")
  case False
  then show ?thesis using r by (simp add: yields_reads loudD loud_reports)
next
  case True
  show ?thesis
  proof (cases "m (cleared r p)")
    case (Inl e)
    then show ?thesis
      using True r b by (simp add: yields_def wp_def bind_def get_type_def change_type_def set_type_def modify_def
        cleared_def)
  next
    case (Inr xq)
    then obtain q where q: "m (cleared r p) = Inr ((), q)" by (cases xq) auto
    from only_reportsD [OF m q] obtain ds
      where ds: "q = (cleared r p)\<lparr>ps_diagnostics := ps_diagnostics p @ ds\<rparr>" by (auto simp: reports_def cleared_def)
    let ?t = "ps_types p ! r"
    have "(element ?t)\<lparr>ty_is_list_type := True, ty_is_non_null_list := ty_is_non_null_list ?t\<rparr> = ?t"
      using True by simp
    then have "(ps_types p)[r := (element ?t)\<lparr>ty_is_list_type := True, ty_is_non_null_list := ty_is_non_null_list ?t\<rparr>] =
        ps_types p" by (metis list_update_id)
    then have "?check p = Inr ((), p\<lparr>ps_diagnostics := ps_diagnostics p @ ds\<rparr>)"
      using True r q ds
      by (simp add: bind_def get_type_def change_type_def set_type_def modify_def cleared_def)
    moreover have "p\<lparr>ps_diagnostics := ps_diagnostics p @ ds\<rparr> = p \<longleftrightarrow> ds = []" for p :: GraphQlSchema
      by (auto dest: arg_cong [where f = ps_diagnostics])
    moreover have "q = cleared r p \<longleftrightarrow> b" using b q by (simp add: yields_def wp_def)
    moreover have "q = cleared r p \<longleftrightarrow> ds = []"
      unfolding ds by (auto simp: cleared_def dest: arg_cong [where f = ps_diagnostics])
    ultimately show ?thesis using True by (simp add: yields_def wp_def)
  qed
qed

lemma map_of_emplace: "map_of (emplace k v m) j = (if j = k \<and> map_of m k = None then Some v else map_of m j)"
  by (rule string_table.look_offer)

lemma input_object_complete:
  assumes "input_objects_complete p" and "symbol_of p t = Some sy" and "sy_kind sy = SL_InputObject"
  shows "\<exists>dn required. sy_declaration sy < length (ps_declarations p) \<and>
    dc_name (ps_declarations p ! sy_declaration sy) = Some dn \<and>
    dc_body (ps_declarations p ! sy_declaration sy) = InputObject_body (Some (input_object_fields p sy)) required"
    and "(i, fd) \<in> set (input_object_fields p sy) \<Longrightarrow> ifd_type fd < length (ps_types p)"
proof -
  from assms(2) obtain k where "(k, sy) \<in> set (sc_symbols p)"
    by (auto simp: symbol_of_def split: option.splits dest: map_of_SomeD)
  with assms(1,3) show "\<exists>dn required. sy_declaration sy < length (ps_declarations p) \<and>
    dc_name (ps_declarations p ! sy_declaration sy) = Some dn \<and>
    dc_body (ps_declarations p ! sy_declaration sy) = InputObject_body (Some (input_object_fields p sy)) required"
    "(i, fd) \<in> set (input_object_fields p sy) \<Longrightarrow> ifd_type fd < length (ps_types p)"
    by (fastforce simp: input_objects_complete_def input_object_fields_def)+
qed

text \<open>All fields are given if as many are given as there are.\<close>

lemma all_fields_given:
  assumes "\<And>k. map_of checked k \<noteq> None \<longleftrightarrow> k \<in> field_name ` set ofs" and "length checked = length ofs"
    and "length fds \<le> length checked" and "field_name ` set ofs \<subseteq> fst ` set fds" and "distinct (map field_name ofs)"
  shows "fst ` set fds = field_name ` set ofs"
proof (rule card_subset_eq [symmetric])
  have "card (fst ` set fds) \<le> length fds"
    by (metis card_length length_map set_map)
  moreover have "card (field_name ` set ofs) = length ofs"
    using assms(5) by (metis distinct_card length_map set_map)
  moreover have "card (field_name ` set ofs) \<le> card (fst ` set fds)"
    using assms(4) by (simp add: card_mono)
  ultimately show "card (field_name ` set ofs) = card (fst ` set fds)" using assms(2,3) by simp
qed (use assms(4) in simp_all)

lemma assignable_fields_names:
  "assignable_fields p fds ofs \<Longrightarrow> field_name ` set ofs \<subseteq> fst ` set fds \<and> distinct (map field_name ofs)"
proof (induction ofs)
  case (Cons f ofs)
  obtain s n fv where f: "f = ObjectField s n fv" by (cases f)
  have "nm_identifier n \<in> fst ` set fds" if "map_of fds (nm_identifier n) = Some fd" for fd
    using map_of_SomeD [OF that] by (rule image_eqI [rotated]) simp
  with Cons show ?case by (auto simp: f field_name_def split: option.splits)
qed simp


lemma field_name_simp [simp]: "field_name (ObjectField s n v) = nm_identifier n"
  by (simp add: field_name_def)

lemma yields_weaken: "yields m b R p \<Longrightarrow> b = c \<Longrightarrow> (\<And>x. R x \<Longrightarrow> S x) \<Longrightarrow> yields m c S p"
  by (auto simp: yields_def elim!: wp_mono)

definition fields_ok :: "GraphQlSchema \<Rightarrow> InputFieldDefinition string_map \<Rightarrow> ObjectField string_map \<Rightarrow> ObjectField list \<Rightarrow> bool"
  where
  "fields_ok p fds checked ofs \<longleftrightarrow>
     assignable_fields p fds ofs \<and> (\<forall>n \<in> field_name ` set ofs. map_of checked n = None)"

definition fields_checked :: "ObjectField string_map \<Rightarrow> ObjectField list \<Rightarrow> ObjectField string_map \<Rightarrow> bool" where
  "fields_checked checked ofs res \<longleftrightarrow> length res = length checked + length ofs \<and>
     (\<forall>k. map_of res k \<noteq> None \<longleftrightarrow> map_of checked k \<noteq> None \<or> k \<in> field_name ` set ofs)"

lemma check_fields_step:
  assumes step: "\<And>v. fv = Some v \<Longrightarrow>
      accepts (check_value v (ifd_type fd)) (assignable p v (ps_types p ! ifd_type fd)) p"
    and rest: "\<And>ch. ch = emplace (nm_identifier fn) (ObjectField s fn fv) checked \<Longrightarrow>
      yields (check_object_fields w name fds ch ofs) (fields_ok p fds ch ofs) (fields_checked ch ofs) p"
    and fd: "map_of fds (nm_identifier fn) = Some fd" and new: "map_of checked (nm_identifier fn) = None"
  shows "yields (check_object_fields w name fds checked (ObjectField s fn fv # ofs))
      (fields_ok p fds checked (ObjectField s fn fv # ofs)) (fields_checked checked (ObjectField s fn fv # ofs)) p"
proof (cases fv)
  case None
  then show ?thesis
    using fd new by (simp add: yields_def wp_def bind_def throw_def fields_ok_def)
next
  case (Some v)
  define ch where ch: "ch = emplace (nm_identifier fn) (ObjectField s fn fv) checked"
  have "yields (bind (check_value v (ifd_type fd)) (\<lambda>_. check_object_fields w name fds ch ofs))
      (assignable p v (ps_types p ! ifd_type fd) \<and> fields_ok p fds ch ofs) (fields_checked ch ofs) p"
    by (rule yields_bind [OF step [OF Some]]) (rule only_reports_values rest [OF ch])+
  moreover have "fields_ok p fds checked (ObjectField s fn fv # ofs) \<longleftrightarrow>
      assignable p v (ps_types p ! ifd_type fd) \<and> fields_ok p fds ch ofs"
    using fd new Some by (auto simp: fields_ok_def map_of_emplace image_iff ch)
  moreover have "fields_checked checked (ObjectField s fn fv # ofs) res" if "fields_checked ch ofs res" for res
    using that new by (auto simp: fields_checked_def emplace_def map_of_insert_key ch)
  ultimately have "yields (bind (check_value v (ifd_type fd)) (\<lambda>_. check_object_fields w name fds ch ofs))
      (fields_ok p fds checked (ObjectField s fn fv # ofs)) (fields_checked checked (ObjectField s fn fv # ofs)) p"
    by (auto intro: yields_weaken)
  then show ?thesis using fd new Some by (simp add: ch)
qed

lemma check_fields_reported:
  assumes "map_of fds (nm_identifier fn) = None \<or> map_of checked (nm_identifier fn) \<noteq> None"
  shows "yields (check_object_fields w name fds checked (ObjectField s fn fv # ofs))
      (fields_ok p fds checked (ObjectField s fn fv # ofs)) R p"
proof (rule loudD)
  show "\<not> fields_ok p fds checked (ObjectField s fn fv # ofs)"
    using assms by (auto simp: fields_ok_def)
  show "loud (check_object_fields w name fds checked (ObjectField s fn fv # ofs))"
    using assms
    by (auto intro!: loud_then loud_reports report_intros only_reports_values split: option.split ObjectField.split)
qed

text \<open>The loop over the required fields.\<close>

lemma accepts_required:
  assumes "\<And>i fd. (i, fd) \<in> set fds \<Longrightarrow> ifd_type fd < length (ps_types p)"
  shows "accepts (for_each (\<lambda>(k, f). bind (get_type (ifd_type f)) (\<lambda>ft.
      if is_required ft \<and> map_of checked k = None
      then add_diagnostic_for s Missing_required_field_0 [nm_identifier (ifd_name f)] else ret ())) fds)
    (\<forall>x \<in> set fds. case x of (k, f) \<Rightarrow> is_required (ps_types p ! ifd_type f) \<longrightarrow> map_of checked k \<noteq> None) p"
proof (rule accepts_for_each)
  fix x assume x: "x \<in> set fds"
  show "accepts (case x of (k, f) \<Rightarrow> bind (get_type (ifd_type f)) (\<lambda>ft.
      if is_required ft \<and> map_of checked k = None
      then add_diagnostic_for s Missing_required_field_0 [nm_identifier (ifd_name f)] else ret ()))
    (case x of (k, f) \<Rightarrow> is_required (ps_types p ! ifd_type f) \<longrightarrow> map_of checked k \<noteq> None) p"
  proof (cases x)
    case (Pair k f)
    then show ?thesis using assms [of k f] x by (auto simp: yields_reads intro!: yields_ret loudD loud_reports)
  qed
qed (auto intro!: report_intros split: prod.split)


lemma no_list_reentered_field:
  "no_list_reentered p r \<Longrightarrow> i \<in> field_types p \<Longrightarrow> no_list_reentered p i"
  by (auto simp: no_list_reentered_def)

lemma bind_deref_Some: "bind (deref (Some y)) h = h y"
  by (simp add: fun_eq_iff deref_def bind_def ret_def)

lemma accepts_object:
  assumes complete: "input_objects_complete p" and r: "r < length (ps_types p)"
    and fields: "\<And>sy dn. symbol_of p (ps_types p ! r) = Some sy \<Longrightarrow> sy_kind sy = SL_InputObject \<Longrightarrow>
      yields (check_object_fields (ObjectValue s ofs) (nm_identifier (dn :: Name)) (input_object_fields p sy) [] ofs)
        (fields_ok p (input_object_fields p sy) [] ofs) (fields_checked [] ofs) p"
  shows "accepts (check_value (ObjectValue s ofs) r) (assignable p (ObjectValue s ofs) (ps_types p ! r)) p"
proof -
  let ?t = "ps_types p ! r"
  let ?loop = "\<lambda>fds checked. if length checked < length fds then for_each (\<lambda>(k, f).
        bind (get_type (ifd_type f)) (\<lambda>ft. if is_required ft \<and> map_of checked k = None
        then add_diagnostic_for s Missing_required_field_0 [nm_identifier (ifd_name f)] else ret ())) fds
      else ret ()"
  have body: "accepts (bind (if ofs = [] then ret [] else check_object_fields (ObjectValue s ofs) (nm_identifier (dn :: Name))
        (input_object_fields p sy) [] ofs) (?loop (input_object_fields p sy)))
      (assignable_fields p (input_object_fields p sy) ofs \<and> required_given p (input_object_fields p sy) ofs) p"
    if sy: "symbol_of p ?t = Some sy" "sy_kind sy = SL_InputObject" for sy dn
  proof -
    let ?fds = "input_object_fields p sy"
    have loop: "accepts (?loop ?fds checked) (required_given p ?fds ofs) p"
      if "fields_ok p ?fds [] ofs" "fields_checked [] ofs checked" for checked
    proof (cases "length checked < length ?fds")
      case True
      have "(\<forall>x \<in> set ?fds. case x of (k, f) \<Rightarrow> is_required (ps_types p ! ifd_type f) \<longrightarrow> map_of checked k \<noteq> None) =
          required_given p ?fds ofs"
        using that(2) by (auto simp: required_given_def fields_checked_def)
      moreover have "ifd_type fd < length (ps_types p)" if "(i, fd) \<in> set ?fds" for i fd
        using that by (rule input_object_complete(2) [OF complete sy])
      ultimately show ?thesis using True accepts_required [of ?fds p checked s] by simp
    next
      case False
      have "fst ` set ?fds = field_name ` set ofs"
        using that False assignable_fields_names [of p ?fds ofs]
        by (intro all_fields_given [of checked]) (auto simp: fields_checked_def fields_ok_def)
      then have "required_given p ?fds ofs" by (force simp: required_given_def)
      then show ?thesis using False by (simp add: yields_ret)
    qed
    have "yields (if ofs = [] then ret [] else check_object_fields (ObjectValue s ofs) (nm_identifier dn) ?fds [] ofs)
        (fields_ok p ?fds [] ofs) (fields_checked [] ofs) p"
      using fields [OF sy] by (auto simp: fields_ok_def fields_checked_def intro: yields_ret)
    then have "accepts (bind (if ofs = [] then ret [] else check_object_fields (ObjectValue s ofs) (nm_identifier dn) ?fds [] ofs)
        (?loop ?fds)) (fields_ok p ?fds [] ofs \<and> required_given p ?fds ofs) p"
    proof (rule yields_bind)
      fix checked assume "fields_ok p ?fds [] ofs" "fields_checked [] ofs checked"
      then show "accepts (?loop ?fds checked) (required_given p ?fds ofs) p" by (rule loop)
    qed (auto intro!: report_intros only_reports_values split: prod.split)
    then show ?thesis by (simp add: fields_ok_def)
  qed
  have cont: "accepts (bind (deref (ty_name ?t)) (\<lambda>nm. bind (find_symbol (nm_identifier nm)) (\<lambda>found.
      case found of
       None \<Rightarrow> add_diagnostic Type_0_is_not_defined [nm_identifier nm]
     | Some sy \<Rightarrow>
         if sy_kind sy \<noteq> SL_InputObject then ret ()
         else
           bind (get_declaration (sy_declaration sy)) (\<lambda>d.
           case dc_body d of
             InputObject_body fs required \<Rightarrow>
               bind (if ofs = [] then ret [] else bind (deref fs) (\<lambda>fds. bind (deref (dc_name d)) (\<lambda>dn.
                 check_object_fields (ObjectValue s ofs) (nm_identifier dn) fds [] ofs))) (\<lambda>checked.
               bind (deref fs) (\<lambda>fds. ?loop fds checked))
           | _ \<Rightarrow> throw (Undefined_behaviour ''static_cast'')))))
      (case symbol_of p ?t of
        None \<Rightarrow> False
      | Some sy \<Rightarrow> sy_kind sy = SL_InputObject \<longrightarrow>
          assignable_fields p (input_object_fields p sy) ofs \<and> required_given p (input_object_fields p sy) ofs) p"
  proof (cases "ty_name ?t")
    case None
    then show ?thesis by (simp add: yields_null symbol_of_def)
  next
    case (Some nm)
    note sym = symbol_of_def [of p ?t] Some
    show ?thesis
    proof (cases "map_of (sc_symbols p) (nm_identifier nm)")
      case None
      then show ?thesis by (simp add: sym yields_reads loudD loud_reports)
    next
      case sy: (Some sy)
      show ?thesis
      proof (cases "sy_kind sy = SL_InputObject")
        case False
        then show ?thesis by (simp add: sym sy yields_reads yields_ret)
      next
        case True
        have sym': "symbol_of p ?t = Some sy" by (simp add: sym sy)
        from input_object_complete(1) [OF complete sym' True] obtain dn required where d:
          "sy_declaration sy < length (ps_declarations p)"
          "dc_name (ps_declarations p ! sy_declaration sy) = Some dn"
          "dc_body (ps_declarations p ! sy_declaration sy) = InputObject_body (Some (input_object_fields p sy)) required"
          by blast
        with body [OF sym' True, of dn] show ?thesis
          by (simp add: sym sy True yields_reads bind_deref_Some cong: if_cong)
      qed
    qed
  qed
  have "accepts (check_value (ObjectValue s ofs) r) ((ty_type ?t = T_Object \<and> \<not> ty_is_list_type ?t) \<and>
      (case symbol_of p ?t of
        None \<Rightarrow> False
      | Some sy \<Rightarrow> sy_kind sy = SL_InputObject \<longrightarrow>
          assignable_fields p (input_object_fields p sy) ofs \<and> required_given p (input_object_fields p sy) ofs)) p"
    unfolding check_value.simps yields_reads(1) [OF r]
  proof (rule yields_bind)
    show "accepts (if ty_type ?t \<noteq> T_Object \<or> ty_is_list_type ?t then not_assignable (ObjectValue s ofs) ?t
        else ret ()) (ty_type ?t = T_Object \<and> \<not> ty_is_list_type ?t) p"
      by (rule accepts_unless) (simp_all add: loud_reports)
  next
    fix x :: unit
    show "only_reports (bind (deref (ty_name ?t)) (\<lambda>nm. bind (find_symbol (nm_identifier nm)) (\<lambda>found.
      case found of
       None \<Rightarrow> add_diagnostic Type_0_is_not_defined [nm_identifier nm]
     | Some sy \<Rightarrow>
         if sy_kind sy \<noteq> SL_InputObject then ret ()
         else
           bind (get_declaration (sy_declaration sy)) (\<lambda>d.
           case dc_body d of
             InputObject_body fs required \<Rightarrow>
               bind (if ofs = [] then ret [] else bind (deref fs) (\<lambda>fds. bind (deref (dc_name d)) (\<lambda>dn.
                 check_object_fields (ObjectValue s ofs) (nm_identifier dn) fds [] ofs))) (\<lambda>checked.
               bind (deref fs) (\<lambda>fds. ?loop fds checked))
           | _ \<Rightarrow> throw (Undefined_behaviour ''static_cast'')))))"
      by (intro report_intros) (auto intro!: report_intros only_reports_values split: DeclarationBody.splits)
  qed (rule cont | intro report_intros)+
  then show ?thesis by (simp add: conj_commute cong: conj_cong)
qed


lemma check_value_accepts:
  "\<lbrakk>input_objects_complete p; no_list_reentered p r; r < length (ps_types p)\<rbrakk> \<Longrightarrow>
     accepts (check_value v r) (assignable p v (ps_types p ! r)) p"
  "\<lbrakk>input_objects_complete p; no_list_reentered p r; r < length (ps_types p)\<rbrakk> \<Longrightarrow>
     accepts (check_values vs r) (\<forall>v \<in> set vs. assignable p v (ps_types p ! r)) p"
  "\<lbrakk>input_objects_complete p;
     \<And>i fd. (i, fd) \<in> set fds \<Longrightarrow> ifd_type fd < length (ps_types p) \<and> no_list_reentered p (ifd_type fd)\<rbrakk> \<Longrightarrow>
     yields (check_object_fields w name fds checked ofs) (fields_ok p fds checked ofs) (fields_checked checked ofs) p"
proof (induction v r and vs r and w name fds checked ofs arbitrary: p and p and p
    rule: check_value_check_values_check_object_fields.induct)
  case (1 s r)
  then show ?case
    by (auto simp: yields_reads is_required_def intro!: yields_ret loudD loud_intros)
next
  case (2 s vs r)
  let ?t = "ps_types p ! r"
  have IH: "accepts (check_values vs r) (\<forall>v \<in> set vs. assignable (cleared r p) v (ps_types (cleared r p) ! r)) (cleared r p)"
    if "ty_is_list_type ?t"
    by (rule "2.IH") (use "2.prems" that in \<open>auto intro: cleared_not_reentered\<close>)
  have eq: "assignable (cleared r p) v (element ?t) = assignable p v (element ?t)" if "ty_is_list_type ?t" for v
    using "2.prems" that by (intro assignable_cleared(1)) (auto simp: no_list_reentered_def object_list_def)
  show ?case
  proof (cases "ty_is_list_type ?t")
    case True
    have "accepts (check_values vs r) (\<forall>v \<in> set vs. assignable p v (element ?t)) (cleared r p)"
      using IH [OF True] "2.prems"(3) eq [OF True] by simp
    from yields_list [OF "2.prems"(3) only_reports_values(2) this, of "ListValue s vs"] show ?thesis
      by (simp only: check_value.simps assignable.simps)
  next
    case False
    then show ?thesis using "2.prems" by (simp add: yields_reads loudD loud_reports)
  qed
next
  case (8 s ofs r)
  show ?case
  proof (rule accepts_object [OF "8.prems"(1,3)])
    fix sy and dn :: Name
    assume sy: "symbol_of p (ps_types p ! r) = Some sy" "sy_kind sy = SL_InputObject"
    show "yields (check_object_fields (ObjectValue s ofs) (nm_identifier dn) (input_object_fields p sy) [] ofs)
        (fields_ok p (input_object_fields p sy) [] ofs) (fields_checked [] ofs) p"
    proof (cases "ofs = []")
      case True
      then show ?thesis by (simp add: yields_ret fields_ok_def fields_checked_def)
    next
      case False
      from input_object_complete(1) [OF "8.prems"(1) sy] obtain required where
        "dc_body (ps_declarations p ! sy_declaration sy) = InputObject_body (Some (input_object_fields p sy)) required"
        by blast
      from "8.IH" [OF _ this False, of sy p "input_object_fields p sy" dn] sy(2) "8.prems"(1) show ?thesis
        using input_object_complete(2) [OF "8.prems"(1) sy] symbol_of_field_type [OF sy]
          no_list_reentered_field [OF "8.prems"(2)] by blast
    qed
  qed
next
  case (10 v vs r)
  then have "accepts (bind (check_value v r) (\<lambda>_. check_values vs r))
      (assignable p v (ps_types p ! r) \<and> (\<forall>v \<in> set vs. assignable p v (ps_types p ! r))) p"
    by (intro yields_bind) (auto intro: only_reports_values)
  then show ?case by simp
next
  case (12 v name fds checked s fn fv ofs)
  show ?case
  proof (cases "map_of fds (nm_identifier fn) = None \<or> map_of checked (nm_identifier fn) \<noteq> None")
    case True
    then show ?thesis by (rule check_fields_reported)
  next
    case False
    then obtain fd where fd: "map_of fds (nm_identifier fn) = Some fd" and new: "map_of checked (nm_identifier fn) = None"
      by auto
    have type: "ifd_type fd < length (ps_types p)" "no_list_reentered p (ifd_type fd)"
      using "12.prems"(2) [OF map_of_SomeD [OF fd]] by auto
    show ?thesis
    proof (rule check_fields_step [OF _ _ fd new])
      show "accepts (check_value u (ifd_type fd)) (assignable p u (ps_types p ! ifd_type fd)) p" if "fv = Some u" for u
        using "12.IH"(2) [OF fd new that "12.prems"(1) type(2,1)] .
      show "yields (check_object_fields v name fds ch ofs) (fields_ok p fds ch ofs) (fields_checked ch ofs) p"
        if "ch = emplace (nm_identifier fn) (ObjectField s fn fv) checked" for ch
        unfolding that by (rule "12.IH"(3) [OF fd new "12.prems"])
    qed
  qed
qed (auto simp: yields_reads type_masks fields_ok_def fields_checked_def intro!: yields_ret loudD loud_reports)


lemma yields_iff: "yields m b R p \<Longrightarrow> (\<exists>x. m p = Inr (x, p)) \<longleftrightarrow> b"
  by (auto simp: yields_def wp_def split: sum.splits)


abbreviation name_node :: "string \<Rightarrow> Name" where
  "name_node str \<equiv> \<lparr>syntax_kind = S_Name, syntax_start = 0, syntax_end = 0, nm_identifier = u str\<rparr>"

abbreviation node :: "SyntaxKind \<Rightarrow> Syntax" where
  "node k \<equiv> \<lparr>syntax_kind = k, syntax_start = 0, syntax_end = 0\<rparr>"


text \<open>A list of input objects that is nested in itself is rejected although it is assignable: while the elements
  of the outer list are checked the marks of its type are cleared, and the inner list is checked against the
  same type.\<close>

theorem check_value_rejects_nested_list:
  assumes "input_objects_complete p" and "r < length (ps_types p)" and "symbol_of p (ps_types p ! r) = Some sy"
    and "sy_kind sy = SL_InputObject" and "map_of (input_object_fields p sy) (nm_identifier n) = Some fd"
    and "ifd_type fd = r"
  shows "check_value (ListValue s [ObjectValue s' [ObjectField s'' n (Some (ListValue t vs))]]) r p \<noteq> Inr ((), p)"
proof -
  let ?p = "cleared r p" and ?inner = "ObjectValue s' [ObjectField s'' n (Some (ListValue t vs))]"
  have list: "accepts (check_value (ListValue t vs) r) (assignable ?p (ListValue t vs) (ps_types ?p ! r)) ?p"
    using assms(2) by (simp add: yields_reads loudD loud_reports)
  have sym: "symbol_of p (element (ps_types p ! r)) = Some sy"
    using assms(3) by (simp add: symbol_of_def)
  have check: "accepts (check_value ?inner r) (assignable ?p ?inner (ps_types ?p ! r)) ?p"
  proof (rule accepts_object)
    fix sy' and dn :: Name
    assume "symbol_of ?p (ps_types ?p ! r) = Some sy'"
    then have sy': "sy' = sy" using sym assms(2) by simp
    show "yields (check_object_fields ?inner (nm_identifier dn) (input_object_fields ?p sy') []
        [ObjectField s'' n (Some (ListValue t vs))])
      (fields_ok ?p (input_object_fields ?p sy') [] [ObjectField s'' n (Some (ListValue t vs))])
      (fields_checked [] [ObjectField s'' n (Some (ListValue t vs))]) ?p"
      by (rule check_fields_step [where fd = fd])
        (use assms list in \<open>auto simp: sy' fields_ok_def fields_checked_def intro: yields_ret\<close>)
  qed (use assms in simp_all)
  have "assignable ?p ?inner (ps_types ?p ! r) = False"
    using assms sym by simp
  then have "accepts (check_value ?inner r) False ?p" using check by (simp only:)
  then have "accepts (bind (check_value ?inner r) (\<lambda>_. ret ())) (False \<and> True) ?p"
    by (rule yields_bind) (rule only_reports_values(1) only_reports_ret yields_ret TrueI)+
  then have "accepts (check_values [?inner] r) False ?p" by (simp only: check_values.simps conj_ac simp_thms)
  from yields_iff [OF yields_list [OF assms(2) only_reports_values(2) this, of "ListValue s [?inner]"]] show ?thesis
    by (simp only: check_value.simps) blast
qed

theorem check_value_rejects_nested_list_witness:
  "\<exists>schema p. parse_document 90 (GraphQlSchema_init True (u ''input I{c:[I]}'')) = Inr (schema, p) \<and>
     (let v = ListValue (node S_ListValue) [ObjectValue (node S_ObjectValue) [ObjectField (node S_ObjectField)
        (name_node ''c'') (Some (ListValue (node S_ListValue) []))]] in
      assignable p v (ps_types p ! 0) \<and> check_value v 0 p \<noteq> Inr ((), p))"
proof -
  let ?v = "ListValue (node S_ListValue) [ObjectValue (node S_ObjectValue) [ObjectField (node S_ObjectField)
    (name_node ''c'') (Some (ListValue (node S_ListValue) []))]]"
  obtain schema p sy fd where
    p: "parse_document 90 (GraphQlSchema_init True (u ''input I{c:[I]}'')) = Inr (schema, p)"
    and ok: "input_objects_complete p" "0 < length (ps_types p)" "symbol_of p (ps_types p ! 0) = Some sy"
      "sy_kind sy = SL_InputObject" "map_of (input_object_fields p sy) (nm_identifier (name_node ''c'')) = Some fd"
      "ifd_type fd = 0"
    and yes: "assignable p ?v (ps_types p ! 0)"
    by (simp add: parse_eval input_objects_complete_def field_types_def object_list_def
        input_object_fields_def symbol_of_def required_given_def is_required_def cong: bind_cong_weak)
  with check_value_rejects_nested_list [OF ok] show ?thesis by (auto simp: Let_def)
qed



end
