(* ===== verification/GraphQlExecutor.thy ===== *)
theory GraphQlExecutor
  imports GraphQlSchemaChecks
begin

text \<open>
  The parser of queries (\<open>src/program/graphql/graphql_executor.h\<close>, \<open>graphql_executor.cpp\<close>), which checks a
  query against a schema while it reads it; nothing is executed.  It extends the record of the base class.
  The nodes of the schema are the executor's stores: a type that the executor changes is the one the
  schema's declarations point to.

  Members that are written or declared but never read are left out: the copies of the schemas, \<open>object_name\<close>,
  \<open>current_field\<close>, \<open>current_argument\<close>, the executor's own lists of definitions, the directives of an
  argument and the number of a \<open>FloatValue\<close>.  Adding a second schema makes the stores those of that schema; an
  executor is used with one schema.  As in the schema parser the loops carry fuel, and \<open>GraphQlExecutorParsing\<close>
  shows that \<open>Execute\<close> provides enough.
\<close>

section \<open>Nodes of a query\<close>

text \<open>\<open>None\<close> stands for a null pointer and, in the optional members of a field, for one that was never set.\<close>

datatype Selection =
    InlineFragment Syntax "Directive string_map" "SelectionSet option"
  | Field_selection Syntax "Name option" "Name option" "Argument string_map option" "Directive string_map"
      "SelectionSet option"
  | FragmentSpread Syntax Name "Directive string_map"
and SelectionSet = SelectionSet Syntax "Selection list"

record FragmentDefinition = Syntax +
  fr_name :: Name
  fr_type :: Name
  fr_directives :: "Directive string_map"
  fr_selection_set :: SelectionSet

record VariableDefinition = Syntax +
  vd_name :: Name
  vd_type :: type_ref
  vd_default_value :: "Value option"

record VariableDefinitions = Syntax +
  vd_variable_definitions :: "VariableDefinition list"

datatype OperationType = Query_operation | Mutation_operation | Subscription_operation

record OperationDefinition = Syntax +
  op_operation_type :: OperationType
  op_name :: "Name option"
  op_variable_definitions :: "VariableDefinitions option"
  op_directives :: "Directive string_map"
  op_selection_set :: "SelectionSet option"

datatype PrimaryDefinition =
    Fragment_primary FragmentDefinition
  | Operation_primary OperationDefinition

record ExecutableDefinition = Syntax +
  xd_operation_definitions :: "OperationDefinition list"
  xd_fragment_definitions :: "FragmentDefinition list"
  xd_diagnostics :: "DiagnosticMessage list"
  xd_source :: ustring

section \<open>State\<close>

text \<open>
  The root types are set by \<open>add_schema\<close> only, to pointers that the schema may not have initialised.  An entry
  of the stack is a pointer to a declaration, \<open>None\<close> where it is null or was never set.  Of a fragment that is
  filed only the name is read.
\<close>

record GraphQlExecutor = GraphQlParser +
  ex_current_object_types :: "declaration_ref option list"
  ex_query :: "declaration_ref option option"
  ex_mutation :: "declaration_ref option option"
  ex_subscription :: "declaration_ref option option"
  ex_symbols :: "Symbol string_map"
  ex_forward_fragment_references :: "(Name \<times> declaration_ref option) list"
  ex_fragments :: "Name string_map"
  ex_directive_definitions :: "DirectiveDefinition string_map"
  ex_duplicate_fragments :: "unit string_map"
  ex_duplicate_fields :: "unit string_map"

type_synonym 'a executor = "(GraphQlExecutor, 'a) exec"

definition GraphQlExecutor_new :: "bool \<Rightarrow> GraphQlExecutor" where
  "GraphQlExecutor_new zeroed =
     \<lparr>ps_scanner = GraphQlScanner_new [], ps_current_description = [], ps_current_value_token = Unknown,
      ps_has_description = None, ps_directives = [], ps_directive_definitions = [], ps_diagnostics = [],
      ps_types = [], ps_declarations = [], ps_zeroed = zeroed,
      ex_current_object_types = [], ex_query = None, ex_mutation = None, ex_subscription = None, ex_symbols = [],
      ex_forward_fragment_references = [], ex_fragments = [], ex_directive_definitions = [],
      ex_duplicate_fragments = [], ex_duplicate_fields = []\<rparr>"

definition add_schema :: "GraphQlSchema \<Rightarrow> GraphQlExecutor \<Rightarrow> GraphQlExecutor" where
  "add_schema schema e =
     e\<lparr>ps_types := ps_types schema, ps_declarations := ps_declarations schema,
       ex_query := sc_query schema, ex_mutation := sc_mutation schema, ex_subscription := sc_subscription schema,
       ex_symbols := sc_symbols schema, ex_directive_definitions := ps_directive_definitions schema\<rparr>"

text \<open>The pointers to the root types and the stack of object types.\<close>

definition push_object_type :: "declaration_ref option \<Rightarrow> unit executor" where
  "push_object_type r = modify (\<lambda>p. p\<lparr>ex_current_object_types := r # ex_current_object_types p\<rparr>)"

definition top_object_type :: "declaration_ref option executor" where
  "top_object_type =
     bind (gets ex_current_object_types) (\<lambda>ts. case ts of
       [] \<Rightarrow> throw (Undefined_behaviour ''top of an empty stack'')
     | t # _ \<Rightarrow> ret t)"

definition pop_object_type :: "unit executor" where
  "pop_object_type =
     bind (gets ex_current_object_types) (\<lambda>ts. case ts of
       [] \<Rightarrow> throw (Undefined_behaviour ''pop of an empty stack'')
     | _ # below \<Rightarrow> modify (\<lambda>p. p\<lparr>ex_current_object_types := below\<rparr>))"

definition initialised :: "'a option \<Rightarrow> 'a executor" where
  "initialised x = (case x of
     None \<Rightarrow> throw (Undefined_behaviour ''uninitialised member'') | Some y \<Rightarrow> ret y)"

definition ex_find_symbol :: "ustring \<Rightarrow> Symbol option executor" where
  "ex_find_symbol name = gets (\<lambda>p. map_of (ex_symbols p) name)"

text \<open>Where the result of \<open>symbols.find\<close> is dereferenced without a test.\<close>

definition symbol_at :: "ustring \<Rightarrow> Symbol executor" where
  "symbol_at name = bind (ex_find_symbol name) (\<lambda>found. case found of
     None \<Rightarrow> throw (Undefined_behaviour ''end iterator'') | Some sy \<Rightarrow> ret sy)"

definition current_position :: "nat executor" where
  "current_position = gets (\<lambda>p. gs_position (ps_scanner p))"

definition ex_skip_to_next_primary_token :: "unit executor" where
  "ex_skip_to_next_primary_token =
     bind (parser_skip_to [QueryKeyword, MutationKeyword, SubscriptionKeyword, FragmentKeyword]) (\<lambda>_. ret ())"

section \<open>Values\<close>

definition parse_boolean_value :: "type_ref option \<Rightarrow> bool \<Rightarrow> Value option executor" where
  "parse_boolean_value r b =
     bind (deref r) (\<lambda>r.
     bind (get_type r) (\<lambda>t.
     bind (if ty_type t \<noteq> T_Boolean \<or> ty_is_list_type t
           then bind (get_type_name t) (\<lambda>tn. add_diagnostic Type_0_is_not_assignable_to_type_1 [u ''Boolean'', tn])
           else ret ()) (\<lambda>_.
     bind (CreateSyntax S_BooleanValue) (\<lambda>s. ret (Some (BooleanValue s b))))))"

text \<open>The reports at the end of an object value; the set \<open>duplicate_fields\<close> is never cleared.\<close>

definition report_duplicate_fields :: "ObjectField list \<Rightarrow> unit executor" where
  "report_duplicate_fields ofs =
     bind (gets ex_duplicate_fields) (\<lambda>dups.
     for_each (\<lambda>(dup, _).
       for_each (\<lambda>f. case f of ObjectField s nm v \<Rightarrow>
         if nm_identifier nm = dup then add_diagnostic_for nm Duplicate_field_0 [dup] else ret ()) ofs) dups)"

definition report_missing_fields :: "Syntax \<Rightarrow> ustring list \<Rightarrow> ustring list \<Rightarrow> unit executor" where
  "report_missing_fields s parsed required =
     for_each (\<lambda>field. if field \<notin> set parsed
       then add_diagnostic_for s Missing_required_field_0 [field] else ret ()) required"

text \<open>An object literal for a type that is no object: the literal is skipped and reported as a whole.\<close>

definition reject_object_value :: "nat \<Rightarrow> Location \<Rightarrow> Type \<Rightarrow> Value option executor" where
  "reject_object_value start location t =
     bind (on_scanner skip_block) (\<lambda>_.
     bind current_position (\<lambda>position.
     bind (query_scanner (\<lambda>s. get_text_from_location s start position)) (\<lambda>str.
     bind (get_type_name t) (\<lambda>tn.
     bind (add_diagnostic_at
       (location\<lparr>loc_length := (loc_length location + sub64 (sub64 position start) 1) mod 2 ^ 64\<rparr>)
       The_value_0_is_not_assignable_to_type_1 [str, tn]) (\<lambda>_. ret None)))))"

text \<open>
  The type of the value that is expected may be a null pointer, which the branches that do not read it
  accept.  The elements of a list are read with the type's \<open>is_list_type\<close> cleared, and it is set afterwards.
\<close>

fun ex_parse_value :: "nat \<Rightarrow> type_ref option \<Rightarrow> Value option executor"
  and ex_parse_values :: "nat \<Rightarrow> type_ref \<Rightarrow> Value list \<Rightarrow> Value list executor"
  and ex_parse_object_fields :: "nat \<Rightarrow> type_ref \<Rightarrow> InputFieldDefinition string_map option \<Rightarrow>
    ustring list \<Rightarrow> ObjectField list \<Rightarrow> (ustring list \<times> ObjectField list) option executor" where
  "ex_parse_value 0 ty = throw Out_of_fuel"
| "ex_parse_value (Suc n) ty =
     bind TakeNextToken (\<lambda>token.
     bind (modify (\<lambda>p. p\<lparr>ps_current_value_token := token\<rparr>)) (\<lambda>_.
     if token = OpenBracket then
       bind (deref ty) (\<lambda>r.
       bind (get_type r) (\<lambda>t.
       bind (if \<not> ty_is_list_type t
             then bind (get_type_name t) (\<lambda>tn.
               add_diagnostic The_value_0_is_not_assignable_to_type_1 [u ''null'', tn])
             else ret ()) (\<lambda>_.
       bind (CreateSyntax S_ObjectValue) (\<lambda>s.
       bind (change_type r (\<lambda>t. t\<lparr>ty_is_list_type := False\<rparr>)) (\<lambda>_.
       bind (ex_parse_values n r []) (\<lambda>vs.
       bind (gets ps_current_value_token) (\<lambda>current.
       bind (if current \<noteq> CloseBracket
             then bind parser_get_token_value (\<lambda>v. add_diagnostic Expected_0_but_got_1 [u '']'', v])
             else ret ()) (\<lambda>_.
       bind (change_type r (\<lambda>t. t\<lparr>ty_is_list_type := True\<rparr>)) (\<lambda>_.
       bind (finish_syntax s) (\<lambda>s. ret (Some (ListValue s vs))))))))))))
     else if token = CloseBracket then ret None
     else if token = NullKeyword then
       bind (deref ty) (\<lambda>r.
       bind (get_type r) (\<lambda>t.
       bind (if ty_is_non_null t \<or> ty_is_non_null_list t
             then bind (get_type_name t) (\<lambda>tn.
               add_diagnostic The_value_0_is_not_assignable_to_type_1 [u ''null'', tn])
             else ret ()) (\<lambda>_.
       bind (CreateSyntax S_NullValue) (\<lambda>s. ret (Some (NullValue s))))))
     else if token = G_StringValue then
       bind (deref ty) (\<lambda>r.
       bind (get_type r) (\<lambda>t.
       bind (if type_bits (ty_type t) AND T_StringType = 0 \<or> ty_is_list_type t
             then bind (get_type_name t) (\<lambda>tn. add_diagnostic Type_0_is_not_assignable_to_type_1 [u ''String'', tn])
             else ret ()) (\<lambda>_.
       bind (CreateSyntax S_StringValue) (\<lambda>s.
       bind parser_get_token_value (\<lambda>v. ret (Some (StringValue s v)))))))
     else if token = IntegerLiteral then
       bind (deref ty) (\<lambda>r.
       bind (get_type r) (\<lambda>t.
       bind (if type_bits (ty_type t) AND T_IntegerType = 0 \<or> ty_is_list_type t
             then bind (get_type_name t) (\<lambda>tn. add_diagnostic Type_0_is_not_assignable_to_type_1 [u ''Int'', tn])
             else ret ()) (\<lambda>_.
       bind (CreateSyntax S_IntValue) (\<lambda>s.
       bind parser_get_token_value (\<lambda>v.
       case atoi v of Inl e \<Rightarrow> throw e | Inr i \<Rightarrow> ret (Some (IntValue s i)))))))
     else if token = FloatLiteral then
       bind (deref ty) (\<lambda>r.
       bind (get_type r) (\<lambda>t.
       bind (if ty_type t \<noteq> T_Float \<or> ty_is_list_type t
             then bind (get_type_name t) (\<lambda>tn. add_diagnostic Type_0_is_not_assignable_to_type_1 [u ''Float'', tn])
             else ret ()) (\<lambda>_.
       bind (CreateSyntax S_FloatValue) (\<lambda>s.
       bind parser_get_token_value (\<lambda>v. ret (Some (FloatValue s [])))))))
     else if token = TrueKeyword then parse_boolean_value ty True
     else if token = FalseKeyword then parse_boolean_value ty False
     else if token = G_Name then
       bind parser_get_token_value (\<lambda>v.
       bind (deref ty) (\<lambda>r.
       bind (get_type r) (\<lambda>t.
       bind (if ty_type t \<noteq> T_Enum \<or> ty_is_list_type t
             then bind (get_type_name t) (\<lambda>tn. add_diagnostic The_value_0_is_not_assignable_to_type_1 [v, tn])
             else ret ()) (\<lambda>_.
       bind (deref (ty_name t)) (\<lambda>nm.
       bind (symbol_at (nm_identifier nm)) (\<lambda>sy.
       bind (get_declaration (sy_declaration sy)) (\<lambda>d.
       case dc_body d of
         Enum_body vals \<Rightarrow>
           bind (if map_of vals v = None then add_diagnostic Undefined_enum_value_0 [v] else ret ()) (\<lambda>_.
           bind (CreateSyntax S_EnumValue) (\<lambda>s. ret (Some (EnumValue s v))))
       | _ \<Rightarrow> throw (Undefined_behaviour ''static_cast''))))))))
     else if token = OpenBrace then
       bind (gets (\<lambda>p. gs_start_position (ps_scanner p))) (\<lambda>start.
       bind (gets (\<lambda>p. current_token_location (ps_scanner p))) (\<lambda>location.
       bind (deref ty) (\<lambda>r.
       bind (get_type r) (\<lambda>t.
       if ty_type t \<noteq> T_Object \<or> ty_is_list_type t then reject_object_value start location t
       else
         bind (CreateSyntax S_ObjectValue) (\<lambda>s.
         bind (deref (ty_name t)) (\<lambda>nm.
         bind (symbol_at (nm_identifier nm)) (\<lambda>sy.
         if sy_kind sy \<noteq> SL_InputObject then
           bind (add_diagnostic The_type_0_is_not_an_object [nm_identifier nm]) (\<lambda>_. ret None)
         else
           bind (get_declaration (sy_declaration sy)) (\<lambda>d.
           case dc_body d of
             InputObject_body fs required \<Rightarrow>
               bind (ex_parse_object_fields n r fs [] []) (\<lambda>result.
               case result of
                 None \<Rightarrow> ret None
               | Some (parsed, ofs) \<Rightarrow>
                   bind (finish_syntax s) (\<lambda>s.
                   bind (get_type r) (\<lambda>t.
                   bind (if ty_type t \<noteq> T_Object
                         then bind (get_location_from_syntax s) (\<lambda>l.
                           bind (query_scanner (\<lambda>sc. get_text_from_syntax sc s)) (\<lambda>str.
                           add_diagnostic_at l The_value_0_is_not_assignable_to_type_1 [str, nm_identifier nm]))
                         else ret ()) (\<lambda>_.
                   bind (report_duplicate_fields ofs) (\<lambda>_.
                   bind (report_missing_fields s parsed required) (\<lambda>_. ret (Some (ObjectValue s ofs))))))))
           | _ \<Rightarrow> throw (Undefined_behaviour ''static_cast'')))))))))
     else
       bind parser_get_token_value (\<lambda>v.
       bind (add_diagnostic Expected_value_instead_got_0 [v]) (\<lambda>_.
       bind (parser_skip_to [G_Name, CloseParen]) (\<lambda>_. ret None)))))"
| "ex_parse_values 0 r values = throw Out_of_fuel"
| "ex_parse_values (Suc n) r values =
     bind (ex_parse_value n (Some r)) (\<lambda>v.
     case v of None \<Rightarrow> ret values | Some v \<Rightarrow> ex_parse_values n r (values @ [v]))"
| "ex_parse_object_fields 0 r fs parsed ofs = throw Out_of_fuel"
| "ex_parse_object_fields (Suc n) r fs parsed ofs =
     bind TakeNextToken (\<lambda>token.
     if token = CloseBrace \<or> token = EndOfDocument then ret (Some (parsed, ofs))
     else if token \<noteq> G_Name then
       bind (add_diagnostic Expected_object_field_name []) (\<lambda>_.
       bind (parser_skip_to [CloseBrace, G_Name]) (\<lambda>t.
       if t = G_Name then ex_parse_object_fields n r fs parsed ofs else ret (Some (parsed, ofs))))
     else
       bind parser_get_token_value (\<lambda>name.
       bind (deref fs) (\<lambda>fds.
       case map_of fds name of
         None \<Rightarrow>
           bind (get_type r) (\<lambda>t.
           bind (deref (ty_name t)) (\<lambda>nm.
           bind (add_diagnostic Field_0_does_not_exist_on_type_1 [name, nm_identifier nm]) (\<lambda>_.
           bind (parser_skip_to [G_Name, CloseBrace]) (\<lambda>_. ex_parse_object_fields n r fs parsed ofs))))
       | Some field \<Rightarrow>
           bind (if name \<in> set parsed
                 then modify (\<lambda>p. p\<lparr>ex_duplicate_fields := emplace name () (ex_duplicate_fields p)\<rparr>)
                 else ret ()) (\<lambda>_.
           bind (CreateSyntax S_ObjectField) (\<lambda>s.
           bind (CreateName name) (\<lambda>nm.
           bind (parser_scan_expected Colon False True) (\<lambda>ok.
           if \<not> ok then ret None
           else
             bind (ex_parse_value n (Some (ifd_type field))) (\<lambda>v.
             ex_parse_object_fields n r fs (parsed @ [name]) (ofs @ [ObjectField s nm v])))))))))"

section \<open>Arguments and directives\<close>

definition argument_is_required :: "Type \<Rightarrow> bool" where
  "argument_is_required t \<longleftrightarrow> ty_is_non_null t \<and> \<not> ty_is_list_type t \<or> ty_is_non_null_list t"

definition report_missing_arguments ::
  "InputValueDefinition string_map \<Rightarrow> Argument string_map \<Rightarrow> Syntax \<Rightarrow> unit executor" where
  "report_missing_arguments definitions arguments target =
     for_each (\<lambda>(k, definition').
       bind (deref (iv_type definition')) (\<lambda>r.
       bind (get_type r) (\<lambda>t.
       if argument_is_required t \<and> map_of arguments (nm_identifier (iv_name definition')) = None
       then add_diagnostic_for target Missing_required_argument_0 [nm_identifier (iv_name definition')]
       else ret ()))) definitions"

text \<open>
  The target is the node whose end is set after the last argument: a field, or the name of a directive.  The
  result is \<open>None\<close> where a colon is missing; the target is then left as it is.
\<close>

fun parse_arguments ::
    "nat \<Rightarrow> InputValueDefinition string_map \<Rightarrow> Syntax \<Rightarrow> (Argument string_map \<times> Syntax) option executor"
  and parse_arguments_loop ::
    "nat \<Rightarrow> InputValueDefinition string_map \<Rightarrow> Argument string_map \<Rightarrow> Argument string_map option executor"
  and ex_parse_directives :: "nat \<Rightarrow> DirectiveLocation \<Rightarrow> Directive string_map \<Rightarrow> Directive string_map executor" where
  "parse_arguments n definitions target =
     bind (parse_arguments_loop n definitions []) (\<lambda>result.
     case result of
       None \<Rightarrow> ret None
     | Some arguments \<Rightarrow>
         bind (finish_syntax target) (\<lambda>target.
         bind (report_missing_arguments definitions arguments target) (\<lambda>_. ret (Some (arguments, target)))))"
| "parse_arguments_loop 0 definitions arguments = throw Out_of_fuel"
| "parse_arguments_loop (Suc n) definitions arguments =
     bind (parser_take_next_token True True) (\<lambda>token.
     if token \<noteq> G_Name then ret (Some arguments)
     else
       bind parser_get_token_value (\<lambda>v.
       bind (CreateName v) (\<lambda>name.
       bind (CreateSyntax S_Argument) (\<lambda>s.
       bind (if map_of definitions v = None then add_diagnostic Unknown_argument_0 [v] else ret ()) (\<lambda>_.
       bind (parser_scan_expected Colon False True) (\<lambda>ok.
       if \<not> ok then bind (parser_skip_to [CloseBrace]) (\<lambda>_. ret None)
       else
         bind (case map_of definitions v of
                 Some definition' \<Rightarrow> ex_parse_value n (iv_type definition')
               | None \<Rightarrow> bind (parser_skip_to [G_Name, CloseParen]) (\<lambda>_. ret None)) (\<lambda>argument_value.
         bind (ex_parse_directives n ARGUMENT_DEFINITION []) (\<lambda>_.
         parse_arguments_loop n definitions
           (emplace v (Syntax.extend s \<lparr>ar_name = name, ar_value = argument_value\<rparr>) arguments)))))))))"
| "ex_parse_directives 0 location directives = throw Out_of_fuel"
| "ex_parse_directives (Suc n) location directives =
     bind (parser_scan_optional At False) (\<lambda>found.
     if \<not> found then ret directives
     else
       bind (parser_take_next_token True False) (\<lambda>token.
       if token \<noteq> G_Name then
         bind parser_get_token_value (\<lambda>v.
         bind (add_diagnostic Expected_name_but_instead_got_0 [v]) (\<lambda>_.
         bind ex_skip_to_next_primary_token (\<lambda>_. ret directives)))
       else
         bind (CreateSyntax S_Directive) (\<lambda>s.
         let s = s\<lparr>syntax_start := sub64 (syntax_start s) 1\<rparr> in
         bind parser_get_token_value (\<lambda>name.
         bind (gets (\<lambda>p. map_of (ex_directive_definitions p) name)) (\<lambda>found.
         case found of
           None \<Rightarrow>
             bind (add_diagnostic_for s Undefined_directive_0 [name]) (\<lambda>_.
             bind (parser_skip_to [CloseParen]) (\<lambda>_. ret directives))
         | Some definition' \<Rightarrow>
             bind (if location \<notin> set (dd_locations definition')
                   then bind (get_location_from_syntax s) (\<lambda>l.
                     bind (location_name location) (\<lambda>str.
                     add_diagnostic_at l The_directive_0_does_not_support_the_location_1 [u ''@'' @ name, str]))
                   else ret ()) (\<lambda>_.
             bind (CreateName name) (\<lambda>nm.
             bind (parser_scan_optional OpenParen False) (\<lambda>paren.
             bind (if paren then parse_arguments n (dd_arguments definition') (Syntax.truncate nm)
                   else ret (Some ([], Syntax.truncate nm))) (\<lambda>result.
             case result of
               None \<Rightarrow> ret directives
             | Some (arguments, target) \<Rightarrow>
                 let directive = Syntax.extend s
                       \<lparr>di_name = nm\<lparr>syntax_end := syntax_end target\<rparr>, di_arguments = arguments,
                        di_parent_directive_definition = None, di_location = location\<rparr> in
                 bind (modify (\<lambda>p. p\<lparr>ps_directives := ps_directives p @ [directive]\<rparr>)) (\<lambda>_.
                 if map_of directives name = None
                 then ex_parse_directives n location (emplace name directive directives)
                 else bind (add_diagnostic Duplicate_argument_0 [name]) (\<lambda>_.
                   ex_parse_directives n location directives)))))))))))"

section \<open>Selections\<close>

definition check_fragment_assignment :: "Name \<Rightarrow> declaration_ref \<Rightarrow> declaration_ref option \<Rightarrow> unit executor" where
  "check_fragment_assignment name object current =
     bind (deref current) (\<lambda>c.
     bind (get_declaration c) (\<lambda>current.
     bind (get_declaration object) (\<lambda>object.
     let report = (\<lambda>d. bind (get_location_from_syntax name) (\<lambda>l.
           bind (deref (dc_name object)) (\<lambda>on. bind (deref (dc_name current)) (\<lambda>cn.
           add_diagnostic_at l d [nm_identifier on, nm_identifier cn])))) in
     if syntax_kind current = S_Interface then
       (case dc_body object of
          Object_body fs is \<Rightarrow>
            bind (case is of
                    None \<Rightarrow> ret True
                  | Some is \<Rightarrow> bind (deref (dc_name current)) (\<lambda>cn. ret (map_of is (nm_identifier cn) = None)))
              (\<lambda>missing.
            if missing then report The_object_0_does_not_implement_the_interface_1 else ret ())
        | _ \<Rightarrow> throw (Undefined_behaviour ''static_cast''))
     else if syntax_kind current = S_Object then
       bind (deref (dc_name current)) (\<lambda>cn.
       bind (deref (dc_name object)) (\<lambda>on.
       if nm_identifier cn \<noteq> nm_identifier on then report The_object_0_does_not_match_the_object_1 else ret ()))
     else if syntax_kind current = S_Union then
       (case dc_body current of
          Union_body members \<Rightarrow>
            bind (deref (dc_name object)) (\<lambda>on.
            if map_of members (nm_identifier on) = None then report The_type_0_is_not_member_of_the_union_1 else ret ())
        | _ \<Rightarrow> throw (Undefined_behaviour ''static_cast''))
     else
       add_diagnostic_for name Type_conditions_are_only_applicable_inside_object_interfaces_and_unions [])))"

text \<open>The fields of the type a selection is made on, read through a pointer to an \<open>ObjectLike\<close>.\<close>

definition object_like_fields :: "Declaration \<Rightarrow> FieldDefinition string_map executor" where
  "object_like_fields d = (case dc_body d of
     Object_body fs is \<Rightarrow> deref fs
   | Interface_body fs \<Rightarrow> deref fs
   | _ \<Rightarrow> throw (Undefined_behaviour ''static_cast''))"

definition parse_expected_name :: "Name option executor" where
  "parse_expected_name =
     bind (parser_scan_expected G_Name False True) (\<lambda>ok.
     if \<not> ok then ret None
     else bind parser_get_token_value (\<lambda>v. bind (CreateName (cstr v)) (\<lambda>nm. ret (Some nm))))"

text \<open>
  The loop over the selections; \<open>None\<close> is the early return of a null pointer.  The type on the stack is popped
  by the closing brace only.
\<close>

fun parse_selection_set_after_open_brace :: "nat \<Rightarrow> SelectionSet option executor"
  and parse_selection_set :: "nat \<Rightarrow> SelectionSet option executor"
  and parse_selections :: "nat \<Rightarrow> Selection list \<Rightarrow> Selection list option executor" where
  "parse_selection_set_after_open_brace n =
     bind (CreateSyntax S_SelectionSet) (\<lambda>s.
     bind (parse_selections n []) (\<lambda>result.
     case result of
       None \<Rightarrow> ret None
     | Some selections \<Rightarrow> bind (finish_syntax s) (\<lambda>s. ret (Some (SelectionSet s selections)))))"
| "parse_selection_set n =
     bind (parser_scan_expected OpenBrace False True) (\<lambda>ok.
     if \<not> ok then ret None else parse_selection_set_after_open_brace n)"
| "parse_selections 0 selections = throw Out_of_fuel"
| "parse_selections (Suc n) selections =
     bind current_position (\<lambda>start.
     bind (parser_take_next_token True True) (\<lambda>token.
     if token = Ellipses then
       bind TakeNextToken (\<lambda>target.
       if target = OnKeyword then
         bind (parser_scan_expected G_Name False True) (\<lambda>ok.
         if \<not> ok then
           bind (add_diagnostic Expected_name_of_object []) (\<lambda>_.
           bind (on_scanner skip_block) (\<lambda>_. ret None))
         else
           bind parser_get_token_value (\<lambda>v.
           bind (CreateName v) (\<lambda>name.
           bind (ex_find_symbol v) (\<lambda>found.
           case found of
             None \<Rightarrow>
               bind (add_diagnostic Type_0_is_not_defined [v]) (\<lambda>_.
               bind (on_scanner skip_block) (\<lambda>_. parse_selections n selections))
           | Some sy \<Rightarrow>
               bind (CreateSyntax S_InlineFragment) (\<lambda>s.
               let s = s\<lparr>syntax_start := start\<rparr> in
               bind (get_declaration (sy_declaration sy)) (\<lambda>object.
               if syntax_kind object \<noteq> S_Object then
                 bind (add_diagnostic The_type_0_is_not_an_object [v]) (\<lambda>_.
                 bind (on_scanner skip_block) (\<lambda>_. parse_selections n selections))
               else
                 bind top_object_type (\<lambda>current.
                 bind (check_fragment_assignment name (sy_declaration sy) current) (\<lambda>_.
                 bind (push_object_type (Some (sy_declaration sy))) (\<lambda>_.
                 bind (ex_parse_directives n INLINE_FRAGMENT []) (\<lambda>ds.
                 bind (parse_selection_set n) (\<lambda>ss.
                 bind (finish_syntax s) (\<lambda>s.
                 parse_selections n (selections @ [InlineFragment s ds ss])))))))))))))
       else if target = G_Name then
         bind (CreateSyntax S_FragmentSpread) (\<lambda>s.
         bind parser_get_token_value (\<lambda>v.
         bind (CreateName v) (\<lambda>name.
         bind top_object_type (\<lambda>current.
         bind (modify (\<lambda>p. p\<lparr>ex_forward_fragment_references :=
           ex_forward_fragment_references p @ [(name, current)]\<rparr>)) (\<lambda>_.
         bind (ex_parse_directives n FRAGMENT_SPREAD []) (\<lambda>ds.
         parse_selections n (selections @ [FragmentSpread s name ds])))))))
       else
         bind (add_diagnostic Expected_fragment_spread_or_inline_fragment []) (\<lambda>_.
         bind (on_scanner skip_block) (\<lambda>_. parse_selections n selections)))
     else if token = G_Name then
       bind parser_get_token_value (\<lambda>v.
       bind top_object_type (\<lambda>current.
       bind (deref current) (\<lambda>r.
       bind (get_declaration r) (\<lambda>object.
       bind (object_like_fields object) (\<lambda>fields.
       case map_of fields v of
         None \<Rightarrow>
           bind (deref (dc_name object)) (\<lambda>nm.
           bind (add_diagnostic Field_0_does_not_exist_on_type_1 [v, nm_identifier nm]) (\<lambda>_.
           bind (parser_skip_to [G_Name, CloseBrace, Ellipses]) (\<lambda>_. parse_selections n selections)))
       | Some definition' \<Rightarrow>
           bind (CreateSyntax S_Field) (\<lambda>s.
           bind (CreateName v) (\<lambda>name.
           bind (parser_scan_optional Colon False) (\<lambda>colon.
           bind (if colon then bind parse_expected_name (\<lambda>nm. ret (Some name, nm)) else ret (None, Some name))
             (\<lambda>(alias, name).
           bind (parser_scan_optional OpenParen False) (\<lambda>paren.
           bind (if paren
                 then bind (parse_arguments n (fdf_arguments definition') s) (\<lambda>result. ret (case result of
                   None \<Rightarrow> (None, s) | Some (arguments, s) \<Rightarrow> (Some arguments, s)))
                 else ret (None, s)) (\<lambda>(arguments, s).
           bind (ex_parse_directives n FIELD []) (\<lambda>ds.
           bind (parser_scan_optional OpenBrace False) (\<lambda>brace.
           if brace then
             bind (get_type (fdf_type definition')) (\<lambda>t.
             if type_bits (ty_type t) AND T_ObjectType \<noteq> 0 then
               bind (deref (ty_name t)) (\<lambda>nm.
               bind (symbol_at (nm_identifier nm)) (\<lambda>sy.
               bind (push_object_type (Some (sy_declaration sy))) (\<lambda>_.
               bind (parse_selection_set_after_open_brace n) (\<lambda>ss.
               parse_selections n (selections @ [Field_selection s alias name arguments ds ss])))))
             else
               bind (get_type_name t) (\<lambda>tn.
               bind (add_diagnostic Cannot_select_fields_on_a_scalar_field_0 [tn]) (\<lambda>_.
               bind ex_skip_to_next_primary_token (\<lambda>_. ret None))))
           else parse_selections n (selections @ [Field_selection s alias name arguments ds None]))))))))))))))
     else if token = CloseBrace then bind pop_object_type (\<lambda>_. ret (Some selections))
     else if token = EndOfDocument then
       bind (if selections = []
             then add_diagnostic Expected_at_least_a_field_inline_fragment_or_fragment_spread []
             else add_diagnostic Expected_0_but_instead_reached_the_end_of_document [u ''}'']) (\<lambda>_. ret None)
     else
       bind (add_diagnostic Expected_field_inline_fragment_or_fragment_spread []) (\<lambda>_. ret (Some selections))))"

section \<open>Operations and fragments\<close>

definition type_of_token :: "GraphQlToken \<Rightarrow> TypeEnum" where
  "type_of_token token =
     (if token = BooleanKeyword then T_Boolean
      else if token = IntKeyword then T_Int
      else if token = FloatKeyword then T_Float
      else if token = StringKeyword then T_String
      else if token = IDKeyword then T_ID
      else T_Object)"

text \<open>The name of a type, and where it stands, are not set; the node's range is the last token's.\<close>

definition parse_type :: "type_ref executor" where
  "parse_type =
     bind (parser_scan_optional OpenBracket False) (\<lambda>is_list.
     bind TakeNextToken (\<lambda>token.
     bind (parser_scan_optional Exclamation False) (\<lambda>non_null.
     bind (if is_list
           then bind (parser_scan_expected CloseBracket False True) (\<lambda>_. parser_scan_optional Exclamation False)
           else ret False) (\<lambda>non_null_list.
     bind (CreateSyntax S_Type) (\<lambda>s.
     new_type (Syntax.extend s
       \<lparr>ty_type = type_of_token token, ty_is_non_null = non_null, ty_is_list_type = is_list,
        ty_is_non_null_list = non_null_list, ty_in_input_location = False, ty_name = None,
        ty_parent_directive_definition = None\<rparr>))))))"

text \<open>A definition is appended only where a comma follows it.\<close>

fun parse_variable_definitions_loop :: "nat \<Rightarrow> VariableDefinition list \<Rightarrow> VariableDefinition list executor" where
  "parse_variable_definitions_loop 0 vds = throw Out_of_fuel"
| "parse_variable_definitions_loop (Suc n) vds =
     bind (CreateSyntax S_VariableDefinition) (\<lambda>s.
     bind TakeNextToken (\<lambda>token.
     if token \<noteq> G_Name then ret vds
     else
       bind parser_get_token_value (\<lambda>v.
       bind (CreateName (cstr v)) (\<lambda>name.
       bind (parser_scan_expected Colon False True) (\<lambda>_.
       bind parse_type (\<lambda>ty.
       bind (parser_scan_optional Equal False) (\<lambda>equal.
       bind (if equal then ex_parse_value n (Some ty) else ret None) (\<lambda>default_value.
       bind (parser_scan_optional Comma False) (\<lambda>comma.
       if \<not> comma then ret vds
       else parse_variable_definitions_loop n (vds @
         [Syntax.extend s \<lparr>vd_name = name, vd_type = ty, vd_default_value = default_value\<rparr>]))))))))))"

definition parse_variable_definitions :: "nat \<Rightarrow> VariableDefinitions executor" where
  "parse_variable_definitions n =
     bind (CreateSyntax S_VariableDefinitions) (\<lambda>s.
     bind (parse_variable_definitions_loop n []) (\<lambda>vds.
     bind (finish_syntax s) (\<lambda>s. ret (Syntax.extend s \<lparr>vd_variable_definitions = vds\<rparr>))))"

primrec operation_location :: "OperationType \<Rightarrow> DirectiveLocation" where
  "operation_location Query_operation = QUERY"
| "operation_location Mutation_operation = MUTATION"
| "operation_location Subscription_operation = SUBSCRIPTION"

definition parse_operation_definition_body :: "nat \<Rightarrow> OperationDefinition \<Rightarrow> OperationDefinition option executor" where
  "parse_operation_definition_body n operation =
     bind (parse_selection_set n) (\<lambda>ss.
     ret (case ss of None \<Rightarrow> None | Some _ \<Rightarrow> Some (operation\<lparr>op_selection_set := ss\<rparr>)))"

definition parse_operation_definition_body_after_open_brace ::
  "nat \<Rightarrow> OperationDefinition \<Rightarrow> OperationDefinition option executor" where
  "parse_operation_definition_body_after_open_brace n operation =
     bind (parse_selection_set_after_open_brace n) (\<lambda>ss.
     ret (case ss of None \<Rightarrow> None | Some _ \<Rightarrow> Some (operation\<lparr>op_selection_set := ss\<rparr>)))"

definition new_operation_definition :: "OperationType \<Rightarrow> OperationDefinition executor" where
  "new_operation_definition operation_type =
     bind (CreateSyntax S_OperationDefinition) (\<lambda>s.
     ret (Syntax.extend s \<lparr>op_operation_type = operation_type, op_name = None, op_variable_definitions = None,
       op_directives = [], op_selection_set = None\<rparr>))"

definition parse_operation_definition :: "nat \<Rightarrow> OperationType \<Rightarrow> OperationDefinition option executor" where
  "parse_operation_definition n operation_type =
     bind (new_operation_definition operation_type) (\<lambda>operation.
     bind (parser_scan_optional G_Name True) (\<lambda>named.
     bind (if named then
             bind parser_get_token_value (\<lambda>v.
             bind (CreateName (cstr v)) (\<lambda>name.
             bind (parser_scan_optional OpenParen False) (\<lambda>paren.
             if paren then
               bind (parse_variable_definitions n) (\<lambda>vds.
               bind (parser_scan_expected CloseParen False True) (\<lambda>_.
               ret (operation\<lparr>op_name := Some name, op_variable_definitions := Some vds\<rparr>)))
             else ret (operation\<lparr>op_name := Some name\<rparr>))))
           else ret operation) (\<lambda>operation.
     bind (ex_parse_directives n (operation_location operation_type) []) (\<lambda>ds.
     parse_operation_definition_body n (operation\<lparr>op_directives := ds\<rparr>)))))"

text \<open>The set \<open>duplicate_fragments\<close> is read and never written.\<close>

definition parse_fragment_definition_after_fragment_keyword :: "nat \<Rightarrow> FragmentDefinition option executor" where
  "parse_fragment_definition_after_fragment_keyword n =
     bind (CreateSyntax S_FragmentDefinition) (\<lambda>s.
     bind (parser_scan_expected G_Name False True) (\<lambda>ok.
     if \<not> ok then ret None
     else
       bind parser_get_token_value (\<lambda>v.
       bind (CreateName v) (\<lambda>name.
       bind (gets (\<lambda>p. map_of (ex_fragments p) v)) (\<lambda>found.
       bind (case found of
               Some first \<Rightarrow>
                 bind (add_diagnostic Duplicate_fragment_0 [v]) (\<lambda>_.
                 bind (gets (\<lambda>p. map_of (ex_duplicate_fragments p) v)) (\<lambda>dup.
                 if dup = None then add_diagnostic_for first Duplicate_fragment_0 [nm_identifier first] else ret ()))
             | None \<Rightarrow> modify (\<lambda>p. p\<lparr>ex_fragments := emplace v name (ex_fragments p)\<rparr>)) (\<lambda>_.
       bind (parser_scan_expected OnKeyword False True) (\<lambda>ok.
       if \<not> ok then ret None
       else
         bind (parser_scan_expected G_Name False True) (\<lambda>ok.
         if \<not> ok then ret None
         else
           bind parser_get_token_value (\<lambda>tv.
           bind (ex_find_symbol tv) (\<lambda>found.
           case found of
             None \<Rightarrow> bind (add_diagnostic Type_0_is_not_defined [tv]) (\<lambda>_. ret None)
           | Some sy \<Rightarrow>
               bind (get_declaration (sy_declaration sy)) (\<lambda>object.
               bind (if syntax_kind object \<noteq> S_Object then add_diagnostic The_type_0_is_not_an_object [tv] else ret ())
                 (\<lambda>_.
               bind (push_object_type (Some (sy_declaration sy))) (\<lambda>_.
               bind (CreateName tv) (\<lambda>ty.
               bind (ex_parse_directives n FRAGMENT_DEFINITION []) (\<lambda>ds.
               bind (parse_selection_set n) (\<lambda>ss.
               case ss of
                 None \<Rightarrow> bind (on_scanner skip_block) (\<lambda>_. ret None)
               | Some ss \<Rightarrow> ret (Some (Syntax.extend s
                   \<lparr>fr_name = name, fr_type = ty, fr_directives = ds, fr_selection_set = ss\<rparr>))))))))))))))))))"

definition root_pointer :: "declaration_ref option option \<Rightarrow> declaration_ref option" where
  "root_pointer r = (case r of None \<Rightarrow> None | Some r \<Rightarrow> r)"

definition ex_parse_primary_token :: "nat \<Rightarrow> GraphQlToken \<Rightarrow> PrimaryDefinition option executor" where
  "ex_parse_primary_token n token =
     (let operation = (\<lambda>m. bind m (\<lambda>d. ret (map_option Operation_primary d)));
          root = (\<lambda>member d operation_type.
            bind (gets member) (\<lambda>r.
            bind (initialised r) (\<lambda>r.
            if r = None then
              bind (add_diagnostic d []) (\<lambda>_.
              bind ex_skip_to_next_primary_token (\<lambda>_. ret None))
            else
              bind (push_object_type r) (\<lambda>_. operation (parse_operation_definition n operation_type))))) in
      if token = QueryKeyword then
        bind (gets ex_query) (\<lambda>r.
        bind (push_object_type (root_pointer r)) (\<lambda>_. operation (parse_operation_definition n Query_operation)))
      else if token = MutationKeyword then root ex_mutation Mutations_are_not_supported Mutation_operation
      else if token = SubscriptionKeyword then
        root ex_subscription Subscriptions_are_not_supported Subscription_operation
      else if token = OpenBrace then
        bind (gets ex_query) (\<lambda>r.
        bind (push_object_type (root_pointer r)) (\<lambda>_.
        bind (new_operation_definition Query_operation) (\<lambda>d.
        operation (parse_operation_definition_body_after_open_brace n d))))
      else if token = FragmentKeyword then
        bind (parse_fragment_definition_after_fragment_keyword n) (\<lambda>d. ret (map_option Fragment_primary d))
      else
        bind (add_diagnostic Expected_operation_definition_or_fragment_definition []) (\<lambda>_. ret None))"

section \<open>Documents\<close>

definition check_forward_fragment_reference ::
  "FragmentDefinition list \<Rightarrow> Name \<times> declaration_ref option \<Rightarrow> unit executor" where
  "check_forward_fragment_reference fragments = (\<lambda>(name, current).
     case find (\<lambda>f. nm_identifier (fr_name f) = nm_identifier name) fragments of
       None \<Rightarrow> add_diagnostic_for name Fragment_0_is_not_defined [nm_identifier name]
     | Some f \<Rightarrow>
         bind (symbol_at (nm_identifier (fr_type f))) (\<lambda>sy.
         check_fragment_assignment name (sy_declaration sy) current))"

definition check_forward_fragment_references :: "FragmentDefinition list \<Rightarrow> unit executor" where
  "check_forward_fragment_references fragments =
     bind (gets ex_forward_fragment_references) (for_each (check_forward_fragment_reference fragments))"

fun execute_loop :: "nat \<Rightarrow> GraphQlToken \<Rightarrow> OperationDefinition list \<Rightarrow> FragmentDefinition list \<Rightarrow>
  (OperationDefinition list \<times> FragmentDefinition list) executor" where
  "execute_loop 0 token operations fragments = throw Out_of_fuel"
| "execute_loop (Suc n) token operations fragments =
     (if token = EndOfDocument then ret (operations, fragments)
      else
        bind (ex_parse_primary_token n token) (\<lambda>definition'.
        bind TakeNextToken (\<lambda>token.
        case definition' of
          None \<Rightarrow> execute_loop n token operations fragments
        | Some (Fragment_primary f) \<Rightarrow> execute_loop n token operations (fragments @ [f])
        | Some (Operation_primary d) \<Rightarrow> execute_loop n token (operations @ [d]) fragments)))"

definition execute_document :: "nat \<Rightarrow> ustring \<Rightarrow> ExecutableDefinition executor" where
  "execute_document n query =
     bind (modify (\<lambda>p. p\<lparr>ps_scanner := GraphQlScanner_new query\<rparr>)) (\<lambda>_.
     bind TakeNextToken (\<lambda>token.
     bind (CreateSyntax S_QueryDocument) (\<lambda>s.
     bind (execute_loop n token [] []) (\<lambda>(operations, fragments).
     bind (check_forward_fragment_references fragments) (\<lambda>_.
     bind (gets ps_diagnostics) (\<lambda>diagnostics.
     ret (Syntax.extend s \<lparr>xd_operation_definitions = operations, xd_fragment_definitions = fragments,
       xd_diagnostics = diagnostics, xd_source = query\<rparr>)))))))"

definition Execute :: "ustring \<Rightarrow> ExecutableDefinition executor" where
  "Execute query = execute_document (2 * length query + 2) query"

end
