(* ===== verification/GraphQlExecutorParsing.thy ===== *)
theory GraphQlExecutorParsing
  imports GraphQlExecutor GraphQlParserSteps "HOL-Library.Sublist"
begin

text \<open>
  Reading a query ends, and leaves the schema as it was but for the marks of list types.  The executor
  interprets the contract \<open>parser_steps\<close> with a relation that fixes what a query may change.
\<close>

section \<open>What a query may change\<close>

text \<open>
  The declarations and the tables of the schema stay, types are added but not removed, and an existing type
  keeps all but its \<open>is_list_type\<close>; diagnostics are added.
\<close>

definition unlisted :: "Type \<Rightarrow> Type" where
  "unlisted t = t\<lparr>ty_is_list_type := False\<rparr>"

definition schema_tables :: "GraphQlExecutor \<Rightarrow> _" where
  "schema_tables p = (ps_declarations p, ps_zeroed p, ex_query p, ex_mutation p, ex_subscription p, ex_symbols p,
     ex_directive_definitions p, ex_duplicate_fragments p)"

definition types_kept :: "GraphQlExecutor \<Rightarrow> GraphQlExecutor \<Rightarrow> bool" where
  "types_kept p q \<longleftrightarrow> map unlisted (take (length (ps_types p)) (ps_types q)) = map unlisted (ps_types p)"

definition keeps_schema :: "GraphQlExecutor \<Rightarrow> GraphQlExecutor \<Rightarrow> bool" where
  "keeps_schema p q \<longleftrightarrow> schema_tables q = schema_tables p \<and> types_kept p q \<and>
     prefix (ps_diagnostics p) (ps_diagnostics q)"

definition advances_query :: "GraphQlExecutor \<Rightarrow> GraphQlExecutor \<Rightarrow> bool" where
  "advances_query p q \<longleftrightarrow> moves (ps_scanner p) (ps_scanner q) \<and> keeps_schema p q"

lemma types_kept_trans: "types_kept p q \<Longrightarrow> types_kept q r \<Longrightarrow> types_kept p r"
proof -
  assume pq: "types_kept p q" and qr: "types_kept q r"
  let ?n = "length (ps_types p)"
  have le: "?n \<le> length (ps_types q)" using arg_cong [OF pq [unfolded types_kept_def], of length] by simp
  have "map unlisted (take ?n (ps_types r)) = take ?n (map unlisted (take (length (ps_types q)) (ps_types r)))"
    using le by (simp add: take_map min_absorb1)
  also have "\<dots> = take ?n (map unlisted (ps_types q))" using qr by (simp add: types_kept_def)
  also have "\<dots> = map unlisted (ps_types p)" using pq by (simp add: types_kept_def take_map)
  finally show "types_kept p r" by (simp add: types_kept_def)
qed

lemma keeps_schema_refl [simp]: "keeps_schema p p"
  by (simp add: keeps_schema_def types_kept_def)

lemma keeps_schema_trans: "keeps_schema p q \<Longrightarrow> keeps_schema q r \<Longrightarrow> keeps_schema p r"
  by (auto simp: keeps_schema_def intro: types_kept_trans)

lemma advances_query_refl [simp]: "advances_query p p"
  by (simp add: advances_query_def)

lemma advances_query_trans: "advances_query p q \<Longrightarrow> advances_query q r \<Longrightarrow> advances_query p r"
  by (auto simp: advances_query_def intro: moves_trans keeps_schema_trans)

lemmas keeps_schema_defs = keeps_schema_def schema_tables_def types_kept_def

lemma advances_query_updates [simp]:
  "advances_query p (p\<lparr>ps_current_value_token := t\<rparr>)"
  "advances_query p (p\<lparr>ps_directives := ds\<rparr>)"
  "advances_query p (p\<lparr>ps_diagnostics := ps_diagnostics p @ ms\<rparr>)"
  "advances_query p (p\<lparr>ex_current_object_types := ts\<rparr>)"
  "advances_query p (p\<lparr>ex_forward_fragment_references := fs\<rparr>)"
  "advances_query p (p\<lparr>ex_fragments := frs\<rparr>)"
  "advances_query p (p\<lparr>ex_duplicate_fields := dfs\<rparr>)"
  by (simp_all add: advances_query_def keeps_schema_defs)

lemma advances_query_scanner: "moves (ps_scanner p) s \<Longrightarrow> advances_query p (p\<lparr>ps_scanner := s\<rparr>)"
  by (simp add: advances_query_def keeps_schema_defs)

lemma advances_query_types:
  "advances_query p (p\<lparr>ps_types := ps_types p @ [t]\<rparr>)"
  "unlisted (f (ps_types p ! r)) = unlisted (ps_types p ! r) \<Longrightarrow>
   advances_query p (p\<lparr>ps_types := (ps_types p)[r := f (ps_types p ! r)]\<rparr>)"
  by (simp_all add: advances_query_def keeps_schema_defs map_update list_update_same_conv)
    (metis list_update_beyond list_update_id map_update nth_map not_le_imp_less)

interpretation ep: parser_steps advances_query "\<lambda>(_ :: unit) p. True"
proof unfold_locales
  show "moves (ps_scanner p) (ps_scanner q)" if "advances_query p q" for p q
    using that by (simp add: advances_query_def)
qed (auto simp: advances_query_scanner intro: advances_query_trans)

abbreviation reads_on :: "nat \<Rightarrow> ('a \<Rightarrow> bool) \<Rightarrow> 'a executor \<Rightarrow> bool" where
  "reads_on \<equiv> ep.good ()"

section \<open>Primitives\<close>

lemma good_executor_state [good_intros]:
  "reads_on n (\<lambda>_. False) (push_object_type r)"
  "reads_on n (\<lambda>_. False) (modify (\<lambda>p. p\<lparr>ex_forward_fragment_references := ex_forward_fragment_references p @ fs\<rparr>))"
  "reads_on n (\<lambda>_. False) (modify (\<lambda>p. p\<lparr>ex_fragments := emplace k nm (ex_fragments p)\<rparr>))"
  "reads_on n (\<lambda>_. False) (modify (\<lambda>p. p\<lparr>ex_duplicate_fields := emplace k () (ex_duplicate_fields p)\<rparr>))"
  by (auto simp: push_object_type_def intro!: ep.good_modify)

lemma good_stack [good_intros]:
  "reads_on n (\<lambda>_. False) top_object_type"
  "reads_on n (\<lambda>_. False) pop_object_type"
  unfolding top_object_type_def pop_object_type_def
  by (auto split: list.split intro!: good_intros ep.good_throw ep.good_modify)

lemma good_executor_reads [good_intros]:
  "reads_on n (\<lambda>_. False) (initialised x)"
  "reads_on n (\<lambda>_. False) (ex_find_symbol name)"
  "reads_on n (\<lambda>_. False) (symbol_at name)"
  "reads_on n (\<lambda>_. False) current_position"
  "reads_on n (\<lambda>_. False) ex_skip_to_next_primary_token"
  unfolding initialised_def ex_find_symbol_def symbol_at_def current_position_def ex_skip_to_next_primary_token_def
  by (intro good_intros ep.good_throw; simp)+

lemma good_texts [good_intros]:
  "reads_on n (\<lambda>_. False) (query_scanner (\<lambda>s. get_text_from_location s start end'))"
  "reads_on n (\<lambda>_. False) (query_scanner (\<lambda>s. get_text_from_syntax s x))"
  by (auto simp: get_text_from_location_def get_text_from_syntax_def substr_def
      intro!: ep.good_query_scanner split: if_splits)

lemma good_mark_list [good_intros]: "reads_on n (\<lambda>_. False) (change_type r (\<lambda>t. t\<lparr>ty_is_list_type := b\<rparr>))"
  by (auto simp: change_type_def get_type_def set_type_def ep.good_def wp_def bind_def modify_def unlisted_def
      intro: advances_query_types(2) [where f = "\<lambda>t. t\<lparr>ty_is_list_type := b\<rparr>"])

lemma good_ex_new_type [good_intros]: "reads_on n (\<lambda>_. False) (new_type t)"
  by (simp add: ep.good_def wp_def new_type_def advances_query_types)

section \<open>Values, arguments and directives\<close>

lemma good_boolean_value [good_intros]: "reads_on n (\<lambda>_. False) (parse_boolean_value r b)"
  unfolding parse_boolean_value_def by (intro good_intros)

lemma good_reports [good_intros]:
  "reads_on n (\<lambda>_. False) (report_duplicate_fields ofs)"
  "reads_on n (\<lambda>_. False) (report_missing_fields s parsed required)"
  "reads_on n (\<lambda>_. False) (reject_object_value start location t)"
  "reads_on n (\<lambda>_. False) (report_missing_arguments definitions arguments target)"
  unfolding report_duplicate_fields_def report_missing_fields_def reject_object_value_def report_missing_arguments_def
  by (intro good_intros; auto split: ObjectField.split intro!: good_intros)+

lemma good_ex_values:
  "(\<forall>k ty. k \<le> n \<longrightarrow> reads_on k (\<lambda>v. v \<noteq> None) (ex_parse_value n ty)) \<and>
   (\<forall>k r vs. k \<le> n - 1 \<longrightarrow> reads_on k (\<lambda>_. False) (ex_parse_values n r vs)) \<and>
   (\<forall>k r fs parsed ofs. k \<le> n \<longrightarrow> reads_on k (\<lambda>_. False) (ex_parse_object_fields n r fs parsed ofs))"
proof (induction n)
  case 0
  then show ?case by simp
next
  case (Suc n)
  have v: "reads_on k (\<lambda>v. v \<noteq> None) (ex_parse_value n ty)" if "k \<le> n" for k ty
    using Suc.IH that by blast
  have vs: "reads_on k (\<lambda>_. False) (ex_parse_values n r vs)" if "k \<le> n - 1" for k r vs
    using Suc.IH that by blast
  have ofs: "reads_on k (\<lambda>_. False) (ex_parse_object_fields n r fs parsed ofs)" if "k \<le> n" for k r fs parsed ofs
    using Suc.IH that by blast
  have "reads_on k (\<lambda>v. v \<noteq> None) (ex_parse_value (Suc n) ty)" if k: "k \<le> Suc n" for k ty
    unfolding ex_parse_value.simps TakeNextToken_parser
    by (rule ep.good_token_first, (intro good_intros vs ofs ep.good_throw; use k in simp),
        simp, intro ep.good_bind good_intros ep.good_ret_not) simp_all
  moreover have "reads_on k (\<lambda>_. False) (ex_parse_values (Suc n) r xs)" if k: "k \<le> n" for k r xs
    unfolding ex_parse_values.simps
    by (rule ep.good_progress [OF v [OF k]]) (use k in \<open>auto intro: good_intros vs split: option.split\<close>)
  moreover have "reads_on k (\<lambda>_. False) (ex_parse_object_fields (Suc n) r fs parsed xs)"
    if k: "k \<le> Suc n" for k r fs parsed xs
    unfolding ex_parse_object_fields.simps TakeNextToken_parser
    by (rule ep.good_token_first, (intro good_intros ofs v [THEN ep.good_forget]; use k in simp)) (simp add: ep.good_ret)
  ultimately show ?case by simp
qed

lemma good_ex_parse_value [good_intros]: "k \<le> n \<Longrightarrow> reads_on k (\<lambda>_. False) (ex_parse_value n ty)"
  using good_ex_values [of n] by (blast intro: ep.good_forget)

lemma good_arguments_directives:
  "(\<forall>k definitions arguments. k \<le> n \<longrightarrow> reads_on k (\<lambda>_. False) (parse_arguments_loop n definitions arguments)) \<and>
   (\<forall>k location ds. k \<le> n \<longrightarrow> reads_on k (\<lambda>_. False) (ex_parse_directives n location ds))"
proof (induction n)
  case 0
  then show ?case by simp
next
  case (Suc n)
  have args: "reads_on k (\<lambda>_. False) (parse_arguments_loop n definitions arguments)" if "k \<le> n" for k definitions arguments
    using Suc.IH that by blast
  have dirs: "reads_on k (\<lambda>_. False) (ex_parse_directives n location ds)" if "k \<le> n" for k location ds
    using Suc.IH that by blast
  have "reads_on k (\<lambda>_. False) (parse_arguments_loop (Suc n) definitions arguments)" if k: "k \<le> Suc n" for k definitions arguments
    unfolding parse_arguments_loop.simps
    by (rule ep.good_token_first, (intro good_intros args dirs; use k in simp)) (simp add: ep.good_ret)
  moreover have "reads_on k (\<lambda>_. False) (ex_parse_directives (Suc n) location ds)" if k: "k \<le> Suc n" for k location ds
    unfolding ex_parse_directives.simps parse_arguments.simps
    by (rule ep.good_progress [OF ep.good_scan_optional], simp)
      (use k in \<open>auto intro!: good_intros args dirs\<close>)
  ultimately show ?case by simp
qed

lemma good_ex_parse_directives [good_intros]: "k \<le> n \<Longrightarrow> reads_on k (\<lambda>_. False) (ex_parse_directives n location ds)"
  using good_arguments_directives by blast

lemma good_parse_arguments [good_intros]:
  "k \<le> n \<Longrightarrow> reads_on k (\<lambda>_. False) (parse_arguments n definitions target)"
  unfolding parse_arguments.simps using good_arguments_directives [of n] by (intro good_intros) blast+

section \<open>Selections and definitions\<close>

lemma good_fragment_assignment [good_intros]: "reads_on n (\<lambda>_. False) (check_fragment_assignment name object current)"
  unfolding check_fragment_assignment_def by (intro good_intros ep.good_throw; simp)

lemma good_object_like_fields [good_intros]: "reads_on n (\<lambda>_. False) (object_like_fields d)"
  unfolding object_like_fields_def by (intro good_intros ep.good_throw; simp)

lemma good_expected_name [good_intros]: "reads_on n (\<lambda>_. False) parse_expected_name"
  unfolding parse_expected_name_def by (intro good_intros)

lemma good_parse_selections: "k \<le> n \<Longrightarrow> reads_on k (\<lambda>_. False) (parse_selections n selections)"
proof (induction n arbitrary: k selections)
  case 0
  then show ?case by simp
next
  case (Suc n)
  show ?case
    unfolding parse_selections.simps parse_selection_set.simps parse_selection_set_after_open_brace.simps
    by (rule ep.good_bind [OF good_executor_reads(4)], rule ep.good_token_first,
        (intro good_intros Suc.IH; use Suc.prems in simp), simp, intro conjI impI good_intros)
qed

lemma good_selection_sets [good_intros]:
  "k \<le> n \<Longrightarrow> reads_on k (\<lambda>_. False) (parse_selection_set_after_open_brace n)"
  "k \<le> n \<Longrightarrow> reads_on k (\<lambda>_. False) (parse_selection_set n)"
  unfolding parse_selection_set.simps parse_selection_set_after_open_brace.simps
  by (intro good_intros good_parse_selections; assumption)+

lemma good_parse_type [good_intros]: "reads_on n (\<lambda>_. False) parse_type"
  unfolding parse_type_def by (intro good_intros)

lemma good_variable_definitions_loop:
  "k \<le> n \<Longrightarrow> reads_on k (\<lambda>_. False) (parse_variable_definitions_loop n vds)"
proof (induction n arbitrary: k vds)
  case 0
  then show ?case by simp
next
  case (Suc n)
  show ?case
    unfolding parse_variable_definitions_loop.simps TakeNextToken_parser
    by (rule ep.good_bind [OF ep.good_quiet(4)], rule ep.good_token_first,
        (intro good_intros Suc.IH; use Suc.prems in simp), simp, intro good_intros)
qed

lemma good_operations [good_intros]:
  "k \<le> n \<Longrightarrow> reads_on k (\<lambda>_. False) (parse_variable_definitions n)"
  "k \<le> n \<Longrightarrow> reads_on k (\<lambda>_. False) (parse_operation_definition_body n operation)"
  "k \<le> n \<Longrightarrow> reads_on k (\<lambda>_. False) (parse_operation_definition_body_after_open_brace n operation)"
  "reads_on k (\<lambda>_. False) (new_operation_definition operation_type)"
  unfolding parse_variable_definitions_def parse_operation_definition_body_def
    parse_operation_definition_body_after_open_brace_def new_operation_definition_def
  by (intro good_intros good_variable_definitions_loop; assumption?)+

lemma good_query_definitions [good_intros]:
  "k \<le> n \<Longrightarrow> reads_on k (\<lambda>_. False) (parse_operation_definition n operation_type)"
  "k \<le> n \<Longrightarrow> reads_on k (\<lambda>_. False) (parse_fragment_definition_after_fragment_keyword n)"
  unfolding parse_operation_definition_def parse_fragment_definition_after_fragment_keyword_def
  by (intro good_intros; assumption?)+

lemma good_ex_parse_primary_token [good_intros]:
  "k \<le> n \<Longrightarrow> reads_on k (\<lambda>_. False) (ex_parse_primary_token n token)"
  unfolding ex_parse_primary_token_def by (intro good_intros; assumption?)

lemma good_forward_references [good_intros]: "reads_on n (\<lambda>_. False) (check_forward_fragment_references fragments)"
  unfolding check_forward_fragment_references_def check_forward_fragment_reference_def by (intro good_intros)

lemma good_execute_loop: "k \<le> n - 1 \<Longrightarrow> reads_on k (\<lambda>_. False) (execute_loop n token operations fragments)"
proof (induction n arbitrary: k token operations fragments)
  case 0
  then show ?case by simp
next
  case (Suc n)
  have eod: "reads_on k (\<lambda>_. False) (execute_loop n EndOfDocument operations fragments)" for operations fragments
    using Suc.prems by (cases n) (auto intro: good_intros)
  have onward: "reads_on k (\<lambda>_. False) (bind TakeNextToken (\<lambda>token. case d of
      None \<Rightarrow> execute_loop n token operations fragments
    | Some (Fragment_primary f) \<Rightarrow> execute_loop n token operations (fragments @ [f])
    | Some (Operation_primary d) \<Rightarrow> execute_loop n token (operations @ [d]) fragments))" for d
    unfolding TakeNextToken_parser
    by (rule ep.good_token_first)
      (use Suc in \<open>auto split: option.split PrimaryDefinition.split intro!: eod\<close>)
  show ?case
    unfolding execute_loop.simps by (intro onward good_intros) (use Suc.prems in simp_all)
qed

section \<open>Reading a query\<close>

text \<open>What \<open>execute_document\<close> does behind the making of its scanner.\<close>

lemma good_execute_rest:
  assumes "k \<le> n" and "\<And>s x. reads_on k (\<lambda>_. False) (f s x)"
  shows "reads_on k (\<lambda>_. False) (bind TakeNextToken (\<lambda>token. bind (CreateSyntax S_QueryDocument) (\<lambda>s.
     bind (execute_loop n token [] []) (f s))))"
  unfolding TakeNextToken_parser
proof (rule ep.good_token_first)
  show "reads_on k (\<lambda>_. False) (bind (CreateSyntax S_QueryDocument) (\<lambda>s. bind (execute_loop n EndOfDocument [] []) (f s)))"
    using assms by (cases n) (auto intro!: good_intros)
next
  fix token
  have "reads_on (k - 2) (\<lambda>_. False) (f s x)" for s x
    by (rule ep.good_weaken [OF assms(2)]) simp_all
  moreover have "reads_on (k - 2) (\<lambda>_. False) (execute_loop n token [] [])"
    by (rule good_execute_loop) (use assms(1) in simp)
  ultimately show "reads_on (k - 2) (\<lambda>_. False) (bind (CreateSyntax S_QueryDocument) (\<lambda>s. bind (execute_loop n token [] []) (f s)))"
    by (intro good_intros)
qed

lemma Execute_wp:
  "wp (Execute query) (\<lambda>d q. keeps_schema p q \<and> xd_diagnostics d = ps_diagnostics q)
     (\<lambda>e. e = Out_of_fuel \<longrightarrow> query \<noteq> [] \<and> last query = CarriageReturn) p"
proof -
  let ?p = "p\<lparr>ps_scanner := GraphQlScanner_new query\<rparr>"
  define m where "m = bind TakeNextToken (\<lambda>token. bind (CreateSyntax S_QueryDocument) (\<lambda>s.
     bind (execute_loop (2 * length query + 2) token [] []) (\<lambda>(operations, fragments).
     bind (check_forward_fragment_references fragments) (\<lambda>_. ret (s, operations, fragments)))))"
  have eq: "Execute query = bind (modify (\<lambda>p. p\<lparr>ps_scanner := GraphQlScanner_new query\<rparr>)) (\<lambda>_. bind m (\<lambda>(s, operations, fragments).
     bind (gets ps_diagnostics) (\<lambda>diagnostics. ret (Syntax.extend s \<lparr>xd_operation_definitions = operations,
       xd_fragment_definitions = fragments, xd_diagnostics = diagnostics, xd_source = query\<rparr>))))"
    by (simp add: Execute_def execute_document_def m_def bind_assoc bind_ret [abs_def] case_prod_unfold
      del: execute_loop.simps)
  have "reads_on (2 * length query + 2) (\<lambda>_. False) m"
    unfolding m_def by (intro good_execute_rest good_intros) simp
  from ep.goodD [OF this, of ?p]
  have "wp m (\<lambda>x q. keeps_schema ?p q) (\<lambda>e. e = Out_of_fuel \<longrightarrow> query \<noteq> [] \<and> last query = CarriageReturn) ?p"
    by (rule wp_mono)
      (auto simp: advances_query_def left_def source_size_def GraphQlScanner_new_def final_carriage_return_def)
  moreover have "keeps_schema ?p q = keeps_schema p q" for q by (simp add: keeps_schema_defs)
  ultimately show ?thesis
    unfolding eq wp_bind wp_modify
    by (auto elim!: wp_mono simp: wp_simps Syntax.extend_def split: prod.split)
qed

text \<open>C5. Termination.  \<open>Execute\<close> ends on every query and every schema, in every state of the executor: the fuel it is given,
  twice the length of the query and two more, is enough for all its loops and recursive calls together,
  unless the query ends in a carriage return (where the scanner reads past its end).\<close>

theorem Execute_ends:
  assumes "query = [] \<or> last query \<noteq> CarriageReturn"
  shows "Execute query e \<noteq> Inl Out_of_fuel"
  using wp_InlD [OF Execute_wp] assms by blast

theorem Execute_ends_witness:
  "Execute (u ''query Q(a:[Int!){b(c:{d'') (GraphQlExecutor_new True) \<noteq> Inl Out_of_fuel"
  by (rule Execute_ends) simp

text \<open>C6. Reading a query leaves the schema it is checked against in place: the declarations, the table of symbols, the root types and
  the definitions of directives are the same afterwards, every type of the schema keeps all its members but
  the mark \<open>is_list_type\<close>, and reports are only added to those there before.  The result carries all of them.\<close>

theorem Execute_keeps_schema:
  assumes "Execute query e = Inr (definition', e')"
  shows "ps_declarations e' = ps_declarations e \<and> ex_symbols e' = ex_symbols e \<and> ex_query e' = ex_query e \<and>
    ex_mutation e' = ex_mutation e \<and> ex_subscription e' = ex_subscription e \<and>
    ex_directive_definitions e' = ex_directive_definitions e \<and> types_kept e e' \<and>
    prefix (ps_diagnostics e) (xd_diagnostics definition') \<and> xd_diagnostics definition' = ps_diagnostics e'"
  using wp_InrD [OF Execute_wp [of query e] assms] by (simp add: keeps_schema_def schema_tables_def)

end
