(* ===== verification/GraphQlQueries.thy ===== *)
theory GraphQlQueries
  imports GraphQlExecutorParsing GraphQlSchemaParsing
begin

text \<open>
  Queries that select fields are read back: a tree of names whose fields the schema has is printed as a
  query, and the executor reads it without a report into nodes that mirror the tree.
\<close>

section \<open>Tokens ahead\<close>

definition token_ahead :: "bool \<Rightarrow> GraphQlScanner \<Rightarrow> GraphQlToken \<Rightarrow> ustring \<Rightarrow> ustring \<Rightarrow> bool" where
  "token_ahead k s token v r \<longleftrightarrow>
     (\<exists>t. take_next_token k True s = Inr (token, t) \<and> get_value t = Inr v \<and> rest t = r)"

definition name_text :: "ustring \<Rightarrow> bool" where
  "name_text name \<longleftrightarrow> name \<noteq> [] \<and> is_name_start (hd name) \<and> list_all is_name_part (tl name)"

lemma token_ahead_name:
  assumes "rest s = name @ r" and "name_text name" and "r = [] \<or> \<not> is_name_part (hd r)"
  shows "token_ahead k s (if k then G_Name else lookup_or G_Name keyword_table name) name r"
  unfolding token_ahead_def
  using take_next_token_name_ahead [of s name r "hd name" "tl name" k True] assms
  by (auto simp: name_text_def)

lemma token_ahead_space:
  assumes "rest s = Space # r"
  shows "token_ahead k s = token_ahead k (increment_position s)" "rest (increment_position s) = r"
proof -
  have pos: "gs_position s < source_size s" "gs_source s ! gs_position s = Space"
    using rest_position [OF assms] by auto
  have "advance_start (increment_position (set_token_start_position s)) =
      set_token_start_position (increment_position s)"
    by (simp add: advance_start_def increment_position_def set_token_start_position_def)
  then have "take_next_token k True s = take_next_token k True (increment_position s)"
    using pos by (simp add: take_next_token_def take_loop.simps [of _ _ "set_token_start_position s"]
        Let_def is_blank_def cursor_simps)
  then show "token_ahead k s = token_ahead k (increment_position s)"
    by (simp add: token_ahead_def fun_eq_iff)
  show "rest (increment_position s) = r" using assms rest_increment by simp
qed

lemma token_ahead_punctuation:
  assumes "rest s = c # r" and "punctuation c = Some token"
    and "c \<noteq> NewLine" "c \<noteq> CarriageReturn" "\<not> is_blank c" "c \<noteq> Hash_char"
  shows "token_ahead k s token [c] r"
proof -
  let ?s = "set_token_start_position s"
  have pos: "gs_position ?s < source_size ?s" "gs_source ?s ! gs_position ?s = c"
    using rest_position [of ?s c r] assms(1) by (auto simp: cursor_simps)
  have "inside ?s" using pos by (simp add: inside_def)
  then have "get_value (increment_position ?s) = Inr [c]"
    using get_value_move [of ?s 1] assms(1) by (simp add: increment_position_move cursor_simps)
  moreover have "rest (increment_position ?s) = r"
    using rest_increment [of ?s] assms(1) by simp
  ultimately show ?thesis
    using pos assms(2-6)
    by (simp add: token_ahead_def take_next_token_def take_loop.simps [of _ _ ?s] Let_def)
qed

lemma token_ahead_end: "rest s = [] \<Longrightarrow> \<exists>t. take_next_token k True s = Inr (EndOfDocument, t) \<and> rest t = []"
  using take_next_token_at_end [of s] by (auto simp: rest_def source_size_def cursor_simps)

lemma same_input_text: "same_input s t \<Longrightarrow> rest s = rest t \<and> get_value s = get_value t"
  by (simp add: same_input_def rest_def get_value_def get_token_length_def)

lemma try_scan_total:
  assumes "take_next_token k w s = Inr (result, r)"
  shows "\<exists>t. try_scan token k w s = Inr (result, t)"
proof -
  have "same_input s (save s)" by (simp add: same_input_def save_def)
  from take_next_token_same [OF this, of k w] assms obtain t where t: "take_next_token k w (save s) = Inr (result, t)"
    by (cases rule: same_resultE) auto
  from take_after_save(3) [OF t] t show ?thesis by (auto simp: try_scan_def exec_simps bind_def)
qed

section \<open>Calls of the parser on a text\<close>

lemma parser_takes:
  assumes "token_ahead k (ps_scanner p) token v r"
  obtains s where "parser_take_next_token k True p = Inr (token, p\<lparr>ps_scanner := s\<rparr>)" "get_value s = Inr v" "rest s = r"
  using assms by (auto simp: token_ahead_def parser_take_next_token_def on_scanner_def)

lemma parser_scans_optional:
  assumes "token_ahead k (ps_scanner p) token v r"
  obtains s where "parser_scan_optional token k p = Inr (True, p\<lparr>ps_scanner := s\<rparr>)" "rest s = r"
proof -
  from assms obtain t where t: "take_next_token k True (ps_scanner p) = Inr (token, t)" "rest t = r"
    by (auto simp: token_ahead_def)
  from try_scan_total [OF t(1), of token] obtain t' where t': "try_scan token k True (ps_scanner p) = Inr (token, t')"
    by auto
  from try_scan_result [OF t'] t have "rest t' = r" by (auto dest: same_input_text)
  with t' show ?thesis by (intro that) (simp_all add: parser_scan_optional_def on_scanner_def exec_simps bind_def)
qed

text \<open>An optional token that is not there leaves the text as it is.\<close>

lemma parser_skips_optional:
  assumes "token_ahead k (ps_scanner p) token' v r" and "token' \<noteq> token"
  obtains s where "parser_scan_optional token k p = Inr (False, p\<lparr>ps_scanner := s\<rparr>)" "rest s = rest (ps_scanner p)"
proof -
  from assms(1) obtain t where t: "take_next_token k True (ps_scanner p) = Inr (token', t)"
    by (auto simp: token_ahead_def)
  from try_scan_total [OF this, of token] obtain t' where t': "try_scan token k True (ps_scanner p) = Inr (token', t')"
    by auto
  from try_scan_result [OF t'] assms(2) have "rest t' = rest (ps_scanner p)"
    by (auto simp: cursor_of_def rest_def)
  with t' assms(2) show ?thesis
    by (intro that [of t']) (simp_all add: parser_scan_optional_def on_scanner_def exec_simps bind_def)
qed

section \<open>Trees of fields\<close>

datatype field_tree = Field_leaf ustring | Field_node ustring "field_tree list"

fun show_fields :: "field_tree list \<Rightarrow> ustring" where
  "show_fields [] = []"
| "show_fields (Field_leaf name # ts) = name @ Space # show_fields ts"
| "show_fields (Field_node name us # ts) =
     name @ OpenBrace_char # show_fields us @ CloseBrace_char # show_fields ts"

definition show_query :: "field_tree list \<Rightarrow> ustring" where
  "show_query ts = OpenBrace_char # show_fields ts @ [CloseBrace_char]"

text \<open>The field of a name in a declaration, and the declaration that is the type of a field.\<close>

definition field_of :: "GraphQlExecutor \<Rightarrow> declaration_ref \<Rightarrow> ustring \<Rightarrow> FieldDefinition option" where
  "field_of p d name =
     (if d < length (ps_declarations p) then
        (case dc_body (ps_declarations p ! d) of
           Object_body (Some fs) is \<Rightarrow> map_of fs name
         | Interface_body (Some fs) \<Rightarrow> map_of fs name
         | _ \<Rightarrow> None)
      else None)"

definition type_declaration :: "GraphQlExecutor \<Rightarrow> type_ref \<Rightarrow> declaration_ref option" where
  "type_declaration p r =
     (if r < length (ps_types p) \<and> ty_type (ps_types p ! r) \<in> {T_Object, T_Interface, T_Union} then
        (case ty_name (ps_types p ! r) of
           None \<Rightarrow> None
         | Some nm \<Rightarrow> map_option sy_declaration (map_of (ex_symbols p) (nm_identifier nm)))
      else None)"

fun selects :: "GraphQlExecutor \<Rightarrow> declaration_ref \<Rightarrow> field_tree list \<Rightarrow> bool" where
  "selects p d [] \<longleftrightarrow> True"
| "selects p d (Field_leaf name # ts) \<longleftrightarrow> name_text name \<and> field_of p d name \<noteq> None \<and> selects p d ts"
| "selects p d (Field_node name us # ts) \<longleftrightarrow>
     name_text name \<and>
     (case field_of p d name of
        None \<Rightarrow> False
      | Some f \<Rightarrow> (case type_declaration p (fdf_type f) of None \<Rightarrow> False | Some d' \<Rightarrow> selects p d' us)) \<and>
     selects p d ts"

text \<open>Nodes that mirror a tree: the names and the nesting are the same, and there is nothing else.\<close>

fun mirrors :: "field_tree list \<Rightarrow> Selection list \<Rightarrow> bool" where
  "mirrors [] [] \<longleftrightarrow> True"
| "mirrors (Field_leaf name # ts) (Field_selection s None (Some nm) None [] None # ss) \<longleftrightarrow>
     syntax_kind s = S_Field \<and> nm_identifier nm = name \<and> mirrors ts ss"
| "mirrors (Field_node name us # ts) (Field_selection s None (Some nm) None [] (Some (SelectionSet s' vs)) # ss) \<longleftrightarrow>
     syntax_kind s = S_Field \<and> nm_identifier nm = name \<and> mirrors us vs \<and> mirrors ts ss"
| "mirrors _ _ \<longleftrightarrow> False"

section \<open>Reading a tree\<close>

declare parse_selections.simps [simp del]

text \<open>What may follow a field that has no colon, arguments, directives or selections of its own.\<close>

definition plain_follow :: "ustring \<Rightarrow> GraphQlToken set \<Rightarrow> bool" where
  "plain_follow x excluded \<longleftrightarrow>
     (\<forall>s. rest s = x \<longrightarrow> (\<exists>token v r. token_ahead False s token v r \<and> token \<notin> excluded))"

lemma keyword_not_punctuation: "lookup_or G_Name keyword_table name \<notin> {Colon, OpenParen, At, OpenBrace, CloseBrace}"
proof -
  have "lookup_or G_Name keyword_table name \<in> insert G_Name (snd ` set keyword_table)"
    by (cases "map_of keyword_table name") (auto simp: lookup_or_def dest!: map_of_SomeD intro: rev_image_eqI)
  then show ?thesis by (auto simp: keyword_table_def)
qed

lemma not_name_part: "\<not> is_name_part Space" "\<not> is_name_part OpenBrace_char"
  by (simp_all add: is_name_part_def)

lemma token_ahead_brace:
  "rest s = OpenBrace_char # r \<Longrightarrow> token_ahead k s OpenBrace [OpenBrace_char] r"
  "rest s = CloseBrace_char # r \<Longrightarrow> token_ahead k s CloseBrace [CloseBrace_char] r"
  by (rule token_ahead_punctuation; simp add: punctuation_def is_blank_def)+

lemma plain_follow_space: "plain_follow x excluded \<Longrightarrow> plain_follow (Space # x) excluded"
  by (auto simp: plain_follow_def token_ahead_space)

lemma plain_follow_open: "OpenBrace \<notin> excluded \<Longrightarrow> plain_follow (OpenBrace_char # r) excluded"
  using token_ahead_brace(1) by (fastforce simp: plain_follow_def)

lemma plain_follow_fields:
  assumes "selects p d ts"
  shows "plain_follow (show_fields ts @ CloseBrace_char # r) {Colon, OpenParen, At, OpenBrace}"
proof -
  have name: "plain_follow (name @ x) {Colon, OpenParen, At, OpenBrace}" if "name_text name" "\<not> is_name_part (hd x)" for name x
    unfolding plain_follow_def
    using token_ahead_name [of _ name x False] that keyword_not_punctuation [of name] by fastforce
  show ?thesis
  proof (cases ts rule: show_fields.cases)
    case 1
    then show ?thesis using token_ahead_brace(2) by (fastforce simp: plain_follow_def)
  next
    case (2 n us)
    then show ?thesis using assms name [of n "Space # show_fields us @ CloseBrace_char # r"] by (simp add: not_name_part)
  next
    case (3 n us vs)
    then show ?thesis
      using assms name [of n "OpenBrace_char # show_fields us @ CloseBrace_char # show_fields vs @ CloseBrace_char # r"]
      by (simp add: not_name_part)
  qed
qed

lemma plain_skips:
  assumes "plain_follow (rest (ps_scanner p)) excluded" and "token \<in> excluded"
  obtains s where "parser_scan_optional token False p = Inr (False, p\<lparr>ps_scanner := s\<rparr>)" "rest s = rest (ps_scanner p)"
proof -
  from assms(1) obtain token' v r where "token_ahead False (ps_scanner p) token' v r" "token' \<notin> excluded"
    unfolding plain_follow_def by blast
  with assms(2) show ?thesis by (auto intro: parser_skips_optional that)
qed

lemma plain_directives:
  assumes "plain_follow (rest (ps_scanner p)) excluded" and "At \<in> excluded"
  obtains s where "ex_parse_directives (Suc n) location ds p = Inr (ds, p\<lparr>ps_scanner := s\<rparr>)"
    "rest s = rest (ps_scanner p)"
proof -
  from plain_skips [OF assms] obtain s where
    "parser_scan_optional At False p = Inr (False, p\<lparr>ps_scanner := s\<rparr>)" "rest s = rest (ps_scanner p)" .
  then show ?thesis by (intro that [of s]) (simp_all add: bind_def ret_def)
qed

lemma field_of_lookup:
  assumes "field_of p d name = Some f" and "ps_declarations q = ps_declarations p"
  obtains object fs where "get_declaration d q = Inr (object, q)" "object_like_fields object q = Inr (fs, q)"
    "map_of fs name = Some f"
  using assms
  by (auto simp: field_of_def get_declaration_def object_like_fields_def deref_def ret_def
      split: if_splits DeclarationBody.splits option.splits)

text \<open>The head of a field, up to where its own selections may open, and its tail.\<close>

definition field_tail ::
  "nat \<Rightarrow> FieldDefinition \<Rightarrow> (SelectionSet option \<Rightarrow> Selection list option executor) \<Rightarrow> Selection list option executor" where
  "field_tail n f k =
     bind (parser_scan_optional OpenBrace False) (\<lambda>brace.
     if brace then
       bind (get_type (fdf_type f)) (\<lambda>t.
       if type_bits (ty_type t) AND T_ObjectType \<noteq> 0 then
         bind (deref (ty_name t)) (\<lambda>tn.
         bind (symbol_at (nm_identifier tn)) (\<lambda>sym.
         bind (push_object_type (Some (sy_declaration sym))) (\<lambda>_.
         bind (parse_selection_set_after_open_brace n) k)))
       else
         bind (get_type_name t) (\<lambda>tn.
         bind (add_diagnostic Cannot_select_fields_on_a_scalar_field_0 [tn]) (\<lambda>_.
         bind ex_skip_to_next_primary_token (\<lambda>_. ret None))))
     else k None)"

lemma parse_field_head:
  assumes "token_ahead True (ps_scanner p) G_Name name x"
    and "plain_follow x {Colon, OpenParen, At}"
    and "ex_current_object_types p = Some d # st" and "field_of p d name = Some f"
  obtains s sy nm where "rest s = x" "nm_identifier nm = name \<and> syntax_kind sy = S_Field"
    "parse_selections (Suc (Suc n)) ss p =
       field_tail (Suc n) f (\<lambda>inner. parse_selections (Suc n) (ss @ [Field_selection sy None (Some nm) None [] inner]))
         (p\<lparr>ps_scanner := s\<rparr>)"
proof -
  from assms(1) obtain s1 where s1: "parser_take_next_token True True p = Inr (G_Name, p\<lparr>ps_scanner := s1\<rparr>)"
    "get_value s1 = Inr name" "rest s1 = x"
    by (rule parser_takes)
  from plain_skips [of "p\<lparr>ps_scanner := s1\<rparr>" _ Colon] assms(2) s1(3) obtain s2 where
    s2: "parser_scan_optional Colon False (p\<lparr>ps_scanner := s1\<rparr>) = Inr (False, p\<lparr>ps_scanner := s2\<rparr>)" "rest s2 = x"
    by auto
  from plain_skips [of "p\<lparr>ps_scanner := s2\<rparr>" _ OpenParen] assms(2) s2(2) obtain s3 where
    s3: "parser_scan_optional OpenParen False (p\<lparr>ps_scanner := s2\<rparr>) = Inr (False, p\<lparr>ps_scanner := s3\<rparr>)" "rest s3 = x"
    by auto
  from plain_directives [of "p\<lparr>ps_scanner := s3\<rparr>" _ n FIELD "[]"] assms(2) s3(2) obtain s4 where
    s4: "ex_parse_directives (Suc n) FIELD [] (p\<lparr>ps_scanner := s3\<rparr>) = Inr ([], p\<lparr>ps_scanner := s4\<rparr>)" "rest s4 = x"
    by auto
  from field_of_lookup [OF assms(4), of "p\<lparr>ps_scanner := s1\<rparr>"] obtain object fs where
    object: "get_declaration d (p\<lparr>ps_scanner := s1\<rparr>) = Inr (object, p\<lparr>ps_scanner := s1\<rparr>)"
    "object_like_fields object (p\<lparr>ps_scanner := s1\<rparr>) = Inr (fs, p\<lparr>ps_scanner := s1\<rparr>)" "map_of fs name = Some f"
    by auto
  show ?thesis
    by (rule that [OF s4(2)], unfold parse_selections.simps(2) [of "Suc n"])
      (simp_all add: bind_def current_position_def gets_def s1 s2 s3 s4 object assms(3) CreateSyntax_def CreateName_def
        top_object_type_def parser_get_token_value_def query_scanner_def deref_def ret_def
        Syntax.extend_def field_tail_def del: ex_parse_directives.simps)
qed

lemma plain_follow_mono: "plain_follow x excluded \<Longrightarrow> excluded' \<subseteq> excluded \<Longrightarrow> plain_follow x excluded'"
  unfolding plain_follow_def by blast

lemma selects_cong:
  assumes "ps_declarations q = ps_declarations p" "ps_types q = ps_types p" "ex_symbols q = ex_symbols p"
  shows "selects q d ts = selects p d ts"
proof -
  have "field_of q = field_of p" "type_declaration q = type_declaration p"
    unfolding field_of_def type_declaration_def assms by simp_all
  then show ?thesis by (induction p d ts rule: selects.induct) (auto split: option.split)
qed

lemma selects_updates [simp]:
  "selects (p\<lparr>ps_scanner := s\<rparr>) = selects p"
  "selects (p\<lparr>ex_current_object_types := st\<rparr>) = selects p"
  by (simp_all add: fun_eq_iff selects_cong [of "p\<lparr>ps_scanner := s\<rparr>" p]
      selects_cong [of "p\<lparr>ex_current_object_types := st\<rparr>" p])

text \<open>A field without selections, and the closing brace.\<close>

lemma parse_leaf:
  assumes "token_ahead True (ps_scanner p) G_Name name x" and "plain_follow x {Colon, OpenParen, At, OpenBrace}"
    and "ex_current_object_types p = Some d # st" and "field_of p d name \<noteq> None"
  obtains s sy nm where "rest s = x" "nm_identifier nm = name \<and> syntax_kind sy = S_Field"
    "parse_selections (Suc (Suc n)) ss p =
       parse_selections (Suc n) (ss @ [Field_selection sy None (Some nm) None [] None]) (p\<lparr>ps_scanner := s\<rparr>)"
proof -
  from assms(4) obtain f where f: "field_of p d name = Some f" by blast
  have follow: "plain_follow x {Colon, OpenParen, At}" by (rule plain_follow_mono [OF assms(2)]) auto
  from parse_field_head [OF assms(1) follow assms(3) f, of n ss] obtain s sy nm where
    s: "rest s = x" "nm_identifier nm = name \<and> syntax_kind sy = S_Field" and eq: "parse_selections (Suc (Suc n)) ss p =
       field_tail (Suc n) f (\<lambda>inner. parse_selections (Suc n) (ss @ [Field_selection sy None (Some nm) None [] inner]))
         (p\<lparr>ps_scanner := s\<rparr>)"
    by blast
  from plain_skips [of "p\<lparr>ps_scanner := s\<rparr>" _ OpenBrace] assms(2) s(1) obtain s' where
    s': "parser_scan_optional OpenBrace False (p\<lparr>ps_scanner := s\<rparr>) = Inr (False, p\<lparr>ps_scanner := s'\<rparr>)" "rest s' = x"
    by auto
  show ?thesis
    by (rule that [OF s'(2) s(2)]) (simp add: eq field_tail_def bind_def s'(1))
qed

lemma parse_close:
  assumes "token_ahead True (ps_scanner p) CloseBrace v x" and "ex_current_object_types p = t # st"
  obtains s where "rest s = x"
    "parse_selections (Suc n) ss p = Inr (Some ss, p\<lparr>ps_scanner := s, ex_current_object_types := st\<rparr>)"
proof -
  from assms(1) obtain s where s: "parser_take_next_token True True p = Inr (CloseBrace, p\<lparr>ps_scanner := s\<rparr>)"
    "rest s = x" by (rule parser_takes)
  then show ?thesis
    using assms(2) by (intro that [of s])
      (simp_all add: parse_selections.simps bind_def current_position_def gets_def pop_object_type_def modify_def ret_def)
qed

definition reads_fields :: "nat \<Rightarrow> field_tree list \<Rightarrow> ustring \<Rightarrow> GraphQlExecutor \<Rightarrow> bool" where
  "reads_fields n ts r p \<longleftrightarrow>
     (\<forall>ss. \<exists>s new. parse_selections n ss p =
        Inr (Some (ss @ new), p\<lparr>ps_scanner := s, ex_current_object_types := tl (ex_current_object_types p)\<rparr>) \<and>
        mirrors ts new \<and> rest s = r)"

lemma reads_fields_step:
  assumes "\<And>ss. \<exists>s sel. parse_selections (Suc n) ss p = parse_selections n (ss @ [sel]) (p\<lparr>ps_scanner := s\<rparr>) \<and>
      reads_fields n ts r (p\<lparr>ps_scanner := s\<rparr>) \<and> (\<forall>new. mirrors ts new \<longrightarrow> mirrors (t # ts) (sel # new))"
  shows "reads_fields (Suc n) (t # ts) r p"
  unfolding reads_fields_def
proof
  fix ss
  from assms [of ss] obtain s sel where step: "parse_selections (Suc n) ss p = parse_selections n (ss @ [sel]) (p\<lparr>ps_scanner := s\<rparr>)"
    "reads_fields n ts r (p\<lparr>ps_scanner := s\<rparr>)" "\<And>new. mirrors ts new \<Longrightarrow> mirrors (t # ts) (sel # new)" by blast
  from step(2) [unfolded reads_fields_def, THEN spec, of "ss @ [sel]"] obtain s' new where
    "parse_selections n (ss @ [sel]) (p\<lparr>ps_scanner := s\<rparr>) = Inr (Some ((ss @ [sel]) @ new),
       p\<lparr>ps_scanner := s', ex_current_object_types := tl (ex_current_object_types p)\<rparr>)" "mirrors ts new" "rest s' = r"
    by auto
  with step(1,3) show "\<exists>s new. parse_selections (Suc n) ss p =
      Inr (Some (ss @ new), p\<lparr>ps_scanner := s, ex_current_object_types := tl (ex_current_object_types p)\<rparr>) \<and>
      mirrors (t # ts) new \<and> rest s = r"
    by (intro exI [of _ s'] exI [of _ "sel # new"]) simp
qed

lemma parse_node:
  assumes ahead: "token_ahead True (ps_scanner p) G_Name name (OpenBrace_char # x)"
    and stack: "ex_current_object_types p = Some d # st"
    and f: "field_of p d name = Some f" "type_declaration p (fdf_type f) = Some d'"
    and inner: "\<And>s. rest s = x \<Longrightarrow>
      reads_fields (Suc n) us y (p\<lparr>ps_scanner := s, ex_current_object_types := Some d' # Some d # st\<rparr>)"
  obtains s sy nm vsy vs where "rest s = y" "nm_identifier nm = name \<and> syntax_kind sy = S_Field" "mirrors us vs"
    "parse_selections (Suc (Suc n)) ss p = parse_selections (Suc n)
       (ss @ [Field_selection sy None (Some nm) None [] (Some (SelectionSet vsy vs))]) (p\<lparr>ps_scanner := s\<rparr>)"
proof -
  have "plain_follow (OpenBrace_char # x) {Colon, OpenParen, At}" by (rule plain_follow_open) simp
  from parse_field_head [OF ahead this stack f(1), of n ss] obtain s sy nm where
    s: "rest s = OpenBrace_char # x" "nm_identifier nm = name \<and> syntax_kind sy = S_Field" and eq: "parse_selections (Suc (Suc n)) ss p =
       field_tail (Suc n) f (\<lambda>inner. parse_selections (Suc n) (ss @ [Field_selection sy None (Some nm) None [] inner]))
         (p\<lparr>ps_scanner := s\<rparr>)"
    by blast
  have "token_ahead False (ps_scanner (p\<lparr>ps_scanner := s\<rparr>)) OpenBrace [OpenBrace_char] x"
    using s(1) by (simp add: token_ahead_brace)
  from parser_scans_optional [OF this] obtain s1 where
    s1: "parser_scan_optional OpenBrace False (p\<lparr>ps_scanner := s\<rparr>) = Inr (True, p\<lparr>ps_scanner := s1\<rparr>)" "rest s1 = x"
    by auto
  obtain t tn sy' where t: "fdf_type f < length (ps_types p)" "ps_types p ! fdf_type f = t"
    "type_bits (ty_type t) AND T_ObjectType \<noteq> 0" "ty_name t = Some tn"
    "map_of (ex_symbols p) (nm_identifier tn) = Some sy'" "sy_declaration sy' = d'"
    using f(2) by (auto simp: type_declaration_def type_masks split: if_splits option.splits)
  from inner [OF s1(2), unfolded reads_fields_def, THEN spec, of "[]"] obtain s2 vs where s2: "parse_selections (Suc n) []
      (p\<lparr>ps_scanner := s1, ex_current_object_types := Some d' # Some d # st\<rparr>) =
      Inr (Some vs, p\<lparr>ps_scanner := s2, ex_current_object_types := Some d # st\<rparr>)" "mirrors us vs" "rest s2 = y"
    by auto
  have [simp]: "p\<lparr>ps_scanner := s2, ex_current_object_types := Some d # st\<rparr> = p\<lparr>ps_scanner := s2\<rparr>"
    using stack by (cases p) simp
  show ?thesis
    by (rule that [OF s2(3) s(2) s2(2)])
      (simp add: eq field_tail_def bind_def s1(1) get_type_def t deref_def ret_def symbol_at_def ex_find_symbol_def gets_def
        push_object_type_def modify_def stack CreateSyntax_def s2(1) finish_syntax_def)
qed

lemma ahead_after_blank:
  assumes "rest s = x \<or> rest s = Space # x" and "\<And>s. rest s = x \<Longrightarrow> token_ahead k s token v r"
  shows "token_ahead k s token v r"
  using assms token_ahead_space(1) [of s x k] token_ahead_space(2) [of s x] by auto

lemma read_fields:
  assumes "selects p d ts" and "ex_current_object_types p = Some d # st"
    and "rest (ps_scanner p) = show_fields ts @ CloseBrace_char # r \<or>
      rest (ps_scanner p) = Space # show_fields ts @ CloseBrace_char # r"
    and "length (show_fields ts) < n"
  shows "reads_fields n ts r p"
  using assms
proof (induction ts arbitrary: p d st r n rule: show_fields.induct)
  case 1
  have ahead: "token_ahead True (ps_scanner p) CloseBrace [CloseBrace_char] r"
    by (rule ahead_after_blank [OF _ token_ahead_brace(2)]) (use "1.prems"(3) in auto)
  from "1.prems"(4) obtain m where m: "n = Suc m" by (cases n) auto
  show ?case unfolding reads_fields_def m
  proof
    fix ss
    from parse_close [OF ahead "1.prems"(2), of m ss] obtain s where "rest s = r"
      "parse_selections (Suc m) ss p = Inr (Some ss, p\<lparr>ps_scanner := s, ex_current_object_types := st\<rparr>)" by blast
    then show "\<exists>s new. parse_selections (Suc m) ss p =
        Inr (Some (ss @ new), p\<lparr>ps_scanner := s, ex_current_object_types := tl (ex_current_object_types p)\<rparr>) \<and>
        mirrors [] new \<and> rest s = r"
      using "1.prems"(2) by (intro exI [of _ s] exI [of _ "[]"]) simp
  qed
next
  case (2 name ts)
  let ?x = "Space # show_fields ts @ CloseBrace_char # r"
  have name: "name_text name" "field_of p d name \<noteq> None" "selects p d ts" "name \<noteq> []"
    using "2.prems"(1) by (auto simp: name_text_def)
  obtain m where m: "n = Suc (Suc m)" "length (show_fields ts) < Suc m"
    using "2.prems"(4) name(4) by (cases n; cases "n - 1"; cases name) auto
  have ahead: "token_ahead True (ps_scanner p) G_Name name ?x"
    by (rule ahead_after_blank [of _ "name @ ?x"])
      (use "2.prems"(3) token_ahead_name [of _ name ?x True] name(1) in \<open>auto simp: not_name_part\<close>)
  have follow: "plain_follow ?x {Colon, OpenParen, At, OpenBrace}"
    by (intro plain_follow_space plain_follow_fields [OF name(3)])
  show ?case unfolding m(1)
  proof (rule reads_fields_step)
    fix ss
    from parse_leaf [OF ahead follow "2.prems"(2) name(2), of m ss] obtain s sy nm where
      s: "rest s = ?x" "nm_identifier nm = name \<and> syntax_kind sy = S_Field" and eq: "parse_selections (Suc (Suc m)) ss p =
        parse_selections (Suc m) (ss @ [Field_selection sy None (Some nm) None [] None]) (p\<lparr>ps_scanner := s\<rparr>)"
      by blast
    have "reads_fields (Suc m) ts r (p\<lparr>ps_scanner := s\<rparr>)"
      using s(1) name(3) m(2) "2.prems"(2) by (intro "2.IH" [of _ d st]) simp_all
    with s(2) eq show "\<exists>s sel. parse_selections (Suc (Suc m)) ss p = parse_selections (Suc m) (ss @ [sel]) (p\<lparr>ps_scanner := s\<rparr>) \<and>
        reads_fields (Suc m) ts r (p\<lparr>ps_scanner := s\<rparr>) \<and>
        (\<forall>new. mirrors ts new \<longrightarrow> mirrors (Field_leaf name # ts) (sel # new))"
      by (intro exI [of _ s] exI [of _ "Field_selection sy None (Some nm) None [] None"]) simp
  qed
next
  case (3 name us ts)
  let ?y = "show_fields ts @ CloseBrace_char # r"
  let ?x = "show_fields us @ CloseBrace_char # ?y"
  obtain f d' where f: "field_of p d name = Some f" "type_declaration p (fdf_type f) = Some d'"
    and sel: "name_text name" "selects p d' us" "selects p d ts" "name \<noteq> []"
    using "3.prems"(1) by (auto simp: name_text_def split: option.splits)
  obtain m where m: "n = Suc (Suc m)" "length (show_fields us) < Suc m" "length (show_fields ts) < Suc m"
    using "3.prems"(4) sel(4) by (cases n; cases "n - 1"; cases name) auto
  have ahead: "token_ahead True (ps_scanner p) G_Name name (OpenBrace_char # ?x)"
    by (rule ahead_after_blank [of _ "name @ OpenBrace_char # ?x"])
      (use "3.prems"(3) token_ahead_name [of _ name "OpenBrace_char # ?x" True] sel(1) in \<open>auto simp: not_name_part\<close>)
  have inner: "reads_fields (Suc m) us ?y (p\<lparr>ps_scanner := s, ex_current_object_types := Some d' # Some d # st\<rparr>)"
    if "rest s = ?x" for s
    using that sel(2) m(2) by (intro "3.IH"(1) [of _ d' "Some d # st"]) simp_all
  show ?case unfolding m(1)
  proof (rule reads_fields_step)
    fix ss
    obtain s sy nm vsy vs where
      s: "rest s = ?y" "nm_identifier nm = name \<and> syntax_kind sy = S_Field" "mirrors us vs" and eq: "parse_selections (Suc (Suc m)) ss p =
        parse_selections (Suc m) (ss @ [Field_selection sy None (Some nm) None [] (Some (SelectionSet vsy vs))])
          (p\<lparr>ps_scanner := s\<rparr>)"
      by (rule parse_node [OF ahead "3.prems"(2) f inner, of ss])
    have "reads_fields (Suc m) ts r (p\<lparr>ps_scanner := s\<rparr>)"
      using s(1) sel(3) m(3) "3.prems"(2) by (intro "3.IH"(2) [of _ d st]) simp_all
    with s(2,3) eq show "\<exists>s sel. parse_selections (Suc (Suc m)) ss p = parse_selections (Suc m) (ss @ [sel]) (p\<lparr>ps_scanner := s\<rparr>) \<and>
        reads_fields (Suc m) ts r (p\<lparr>ps_scanner := s\<rparr>) \<and>
        (\<forall>new. mirrors ts new \<longrightarrow> mirrors (Field_node name us # ts) (sel # new))"
      by (intro exI [of _ s] exI [of _ "Field_selection sy None (Some nm) None [] (Some (SelectionSet vsy vs))"]) simp
  qed
qed

section \<open>A query as a whole\<close>

lemma rest_new: "rest (GraphQlScanner_new src) = src"
  by (simp add: rest_def GraphQlScanner_new_def)

lemma execute_loop_query:
  assumes "ex_query p = Some (Some d)" and "selects p d ts"
    and "rest (ps_scanner p) = show_fields ts @ [CloseBrace_char]" and "length (show_fields ts) < n"
  obtains s op sy vs where "execute_loop (Suc (Suc n)) OpenBrace [] [] p = Inr (([op], []), p\<lparr>ps_scanner := s\<rparr>)"
    "op_operation_type op = Query_operation" "op_selection_set op = Some (SelectionSet sy vs)" "mirrors ts vs"
proof -
  let ?p = "p\<lparr>ex_current_object_types := Some d # ex_current_object_types p\<rparr>"
  have "reads_fields (Suc n) ts [] ?p"
    by (rule read_fields [of _ d]) (use assms in simp_all)
  from this [unfolded reads_fields_def, THEN spec, of "[]"] obtain s vs where
    fields: "parse_selections (Suc n) [] ?p = Inr (Some vs, p\<lparr>ps_scanner := s\<rparr>)" "mirrors ts vs" "rest s = []"
    by auto
  from token_ahead_end [OF fields(3), of False] obtain t where t: "take_next_token False True s = Inr (EndOfDocument, t)"
    by blast
  have root: "root_pointer (Some (Some d)) = Some d" by (simp add: root_pointer_def)
  let ?result = "execute_loop (Suc (Suc n)) OpenBrace [] [] p"
  obtain op sy where "?result = Inr (([op], []), p\<lparr>ps_scanner := t\<rparr>)"
    "op_operation_type op = Query_operation" "op_selection_set op = Some (SelectionSet sy vs)"
    by (simp add: ex_parse_primary_token_def bind_def gets_def assms(1) root push_object_type_def modify_def ret_def
        new_operation_definition_def CreateSyntax_def parse_operation_definition_body_after_open_brace_def fields(1)
        finish_syntax_def TakeNextToken_def on_scanner_def t Syntax.extend_def)
  then show ?thesis using that fields(2) by blast
qed

lemma Execute_fields:
  assumes "ex_query e = Some (Some d)" and "ex_forward_fragment_references e = []" and "selects e d ts"
  shows "\<exists>definition' e' op s vs. Execute (show_query ts) e = Inr (definition', e') \<and>
    ps_diagnostics e' = ps_diagnostics e \<and> xd_fragment_definitions definition' = [] \<and>
    xd_operation_definitions definition' = [op] \<and> op_operation_type op = Query_operation \<and>
    op_selection_set op = Some (SelectionSet s vs) \<and> mirrors ts vs"
proof -
  let ?q = "show_query ts"
  have "token_ahead False (GraphQlScanner_new ?q) OpenBrace [OpenBrace_char] (show_fields ts @ [CloseBrace_char])"
    by (rule token_ahead_brace) (simp add: rest_new show_query_def)
  then obtain s where s: "take_next_token False True (GraphQlScanner_new ?q) = Inr (OpenBrace, s)"
    "rest s = show_fields ts @ [CloseBrace_char]" by (auto simp: token_ahead_def)
  have len: "2 * length ?q + 2 = Suc (Suc (2 * length ?q))" "length (show_fields ts) < 2 * length ?q"
    by (simp_all add: show_query_def)
  let ?p = "e\<lparr>ps_scanner := s\<rparr>"
  obtain t op sy vs where loop: "execute_loop (Suc (Suc (2 * length ?q))) OpenBrace [] [] ?p =
      Inr (([op], []), ?p\<lparr>ps_scanner := t\<rparr>)" "op_operation_type op = Query_operation"
    "op_selection_set op = Some (SelectionSet sy vs)" "mirrors ts vs"
    by (rule execute_loop_query [of ?p d ts "2 * length ?q"]) (use assms s(2) len in simp_all)
  then show ?thesis
    unfolding Execute_def len(1)
    by (simp add: execute_document_def bind_def modify_def TakeNextToken_def on_scanner_def s(1) CreateSyntax_def gets_def
        check_forward_fragment_references_def assms(2) ret_def Syntax.extend_def del: execute_loop.simps)
qed

text \<open>C4. Round trip of queries.  A tree of field names is printed as a query.  Where the names are names of the
  language and the schema has the fields, each with an object, interface or union type where it has
  selections of its own, \<open>Execute\<close> reads the query without adding a report, and the nodes it makes are one
  query operation whose selections mirror the tree: the same names in the same order and nesting, with no
  aliases, arguments or directives.\<close>

theorem Execute_reads_fields:
  assumes "ex_query e = Some (Some d)" and "ex_forward_fragment_references e = []" and "selects e d ts"
  shows "\<exists>definition' e' op s vs. Execute (show_query ts) e = Inr (definition', e') \<and>
    ps_diagnostics e' = ps_diagnostics e \<and> xd_fragment_definitions definition' = [] \<and>
    xd_operation_definitions definition' = [op] \<and> op_operation_type op = Query_operation \<and>
    op_selection_set op = Some (SelectionSet s vs) \<and> mirrors ts vs"
  using assms by (rule Execute_fields)

section \<open>An example\<close>

text \<open>The executor for the schema \<open>type Query{a(b:Int):Query}\<close>, as the parser and the checks of schemas leave it.\<close>

definition example_schema :: ustring where
  "example_schema = u ''type Query{a(b:Int):Query}''"

definition example_executor :: GraphQlExecutor where
  "example_executor = (GraphQlExecutor_new True)
     \<lparr>ps_types :=
        [\<lparr>syntax_kind = S_Type, syntax_start = 15, syntax_end = 18, ty_type = T_Int, ty_is_non_null = False,
          ty_is_list_type = False, ty_is_non_null_list = False, ty_in_input_location = True, ty_name = None,
          ty_parent_directive_definition = None\<rparr>,
         \<lparr>syntax_kind = S_Type, syntax_start = 20, syntax_end = 25, ty_type = T_Object, ty_is_non_null = False,
          ty_is_list_type = False, ty_is_non_null_list = False, ty_in_input_location = False,
          ty_name = Some \<lparr>syntax_kind = S_Name, syntax_start = 20, syntax_end = 25, nm_identifier = u ''Query''\<rparr>,
          ty_parent_directive_definition = None\<rparr>],
      ps_declarations :=
        [\<lparr>syntax_kind = S_Object, syntax_start = 0, syntax_end = 4,
          dc_name = Some \<lparr>syntax_kind = S_Name, syntax_start = 5, syntax_end = 10, nm_identifier = u ''Query''\<rparr>,
          dc_description = [], dc_directives = [],
          dc_body = Object_body (Some [(u ''a'',
            \<lparr>syntax_kind = S_FieldDefinition, syntax_start = 11, syntax_end = 12,
             fdf_name = \<lparr>syntax_kind = S_Name, syntax_start = 11, syntax_end = 12, nm_identifier = u ''a''\<rparr>,
             fdf_description = [],
             fdf_arguments = [(u ''b'',
               \<lparr>syntax_kind = S_InputValueDefinition, syntax_start = 13, syntax_end = 14,
                iv_name = \<lparr>syntax_kind = S_Name, syntax_start = 13, syntax_end = 14, nm_identifier = u ''b''\<rparr>,
                iv_description = [], iv_type = Some 0, iv_directives = []\<rparr>)],
             fdf_type = 1, fdf_directives = []\<rparr>)]) None\<rparr>],
      ex_query := Some (Some 0), ex_mutation := Some None, ex_subscription := Some None,
      ex_symbols := [(u ''Query'', \<lparr>sy_name = u ''Query'', sy_declaration = 0, sy_kind = SL_Object\<rparr>)]\<rparr>"

lemmas schema_new_eval = GraphQlSchema_new_def parse_object_def parse_object_name_def parse_fields_definition_def
  check_schema_def set_root_types_def set_root_type_def find_symbol_def check_forward_references_def
  check_forward_reference_def check_directive_references_def check_object_implementations_def check_union_members_def
  Input_kinds_def Output_kinds_def
  parse_fields_definition_after_open_brace.simps(2) [where n = "pred_numeral k" for k, folded numeral_eq_Suc]

lemma example_executor_parsed:
  "\<exists>schema. GraphQlSchema_new 5 True example_schema = Inr schema \<and>
     add_schema schema (GraphQlExecutor_new True) = example_executor"
  by (simp add: example_schema_def parse_eval schema_new_eval add_schema_def GraphQlExecutor_new_def example_executor_def
      cong: bind_cong_weak)

theorem Execute_reads_fields_witness:
  "\<exists>definition' e' op s vs. Execute (u ''{a{a }a }'') example_executor = Inr (definition', e') \<and>
    ps_diagnostics e' = [] \<and> xd_operation_definitions definition' = [op] \<and>
    op_selection_set op = Some (SelectionSet s vs) \<and>
    mirrors [Field_node (u ''a'') [Field_leaf (u ''a'')], Field_leaf (u ''a'')] vs"
proof -
  let ?ts = "[Field_node (u ''a'') [Field_leaf (u ''a'')], Field_leaf (u ''a'')]"
  have e: "ex_query example_executor = Some (Some 0)" "ex_forward_fragment_references example_executor = []"
    "ps_diagnostics example_executor = []"
    by (simp_all add: example_executor_def GraphQlExecutor_new_def)
  have "selects example_executor 0 ?ts"
    by (simp add: example_executor_def field_of_def type_declaration_def name_text_def is_name_start_def)
  from Execute_reads_fields [OF e(1,2) this] show ?thesis
    using e(3) by (auto simp: show_query_def)
qed

end
