(* ===== verification/GraphQlExecutorFaults.thy ===== *)
theory GraphQlExecutorFaults
  imports GraphQlQueries
begin

text \<open>
  Where the executor does not do what it is meant to: the variables of an operation are lost, a literal in a
  query changes the schema, and a name where a scalar is expected has no defined meaning.
\<close>

section \<open>Results of methods\<close>

definition returns :: "('a \<Rightarrow> bool) \<Rightarrow> ('s, 'a) exec \<Rightarrow> bool" where
  "returns P m \<longleftrightarrow> (\<forall>s x t. m s = Inr (x, t) \<longrightarrow> P x)"

named_theorems return_intros \<open>what methods return\<close>

lemma returnsD: "returns P m \<Longrightarrow> m s = Inr (x, t) \<Longrightarrow> P x"
  by (auto simp: returns_def)

lemma returns_after: "returns Q m \<Longrightarrow> (\<And>x. Q x \<Longrightarrow> returns P (f x)) \<Longrightarrow> returns P (bind m f)"
  by (fastforce simp: returns_def elim!: bind_InrE)

lemma returns_bind [return_intros]: "(\<And>x. returns P (f x)) \<Longrightarrow> returns P (bind m f)"
  by (rule returns_after [of "\<lambda>_. True"]) (simp_all add: returns_def)

lemma returns_ret [return_intros]: "P x \<Longrightarrow> returns P (ret x)"
  by (simp add: returns_def ret_def)

lemma returns_throw [return_intros]: "returns P (throw e)"
  by (simp add: returns_def throw_def)

lemma returns_if [return_intros]: "(b \<Longrightarrow> returns P m) \<Longrightarrow> (\<not> b \<Longrightarrow> returns P m') \<Longrightarrow> returns P (if b then m else m')"
  by simp

lemma returns_option [return_intros]:
  "(r = None \<Longrightarrow> returns P m) \<Longrightarrow> (\<And>x. r = Some x \<Longrightarrow> returns P (f x)) \<Longrightarrow>
   returns P (case r of None \<Rightarrow> m | Some x \<Rightarrow> f x)"
  by (cases r) auto

section \<open>The scanner has no comma token\<close>

abbreviation no_comma :: "(GraphQlScanner, GraphQlToken) exec \<Rightarrow> bool" where
  "no_comma \<equiv> returns (\<lambda>token. token \<noteq> Comma)"

lemma no_comma_number: "no_comma scan_number"
  unfolding scan_number_def scan_exponent_def by (intro return_intros; simp)

lemma no_comma_ellipses: "no_comma scan_ellipses_after_first_dot"
  unfolding scan_ellipses_after_first_dot_def by (intro return_intros; simp)

lemma no_comma_string_block [return_intros]: "no_comma string_block_loop"
proof -
  have "string_block_loop s = Inr (token, t) \<Longrightarrow> token \<noteq> Comma" for s token t
    by (induction s arbitrary: token t rule: string_block_loop.induct)
      (subst (asm) (3) string_block_loop.simps, auto split: if_splits sum.splits; blast)
  then show ?thesis by (simp add: returns_def)
qed

lemma no_comma_string: "no_comma scan_string_value"
proof -
  have "no_comma scan_string_literal"
    unfolding returns_def scan_string_literal_def
    by (auto elim!: bind_InrE simp: ret_def split: option.splits if_splits)
  then show ?thesis
    unfolding scan_string_value_def scan_string_block_after_double_quotes_def by (intro return_intros)
qed

lemma no_comma_keyword: "no_comma (token_from_value n)"
proof -
  have "get_token_from_value n v \<noteq> Comma" for v
    unfolding get_token_from_value_def by (intro if_neq) simp_all
  then show ?thesis by (auto simp: returns_def token_from_value_def Let_def split: sum.splits if_splits)
qed

lemma no_comma_take_loop: "take_loop k w s = Inr (token, t) \<Longrightarrow> token \<noteq> Comma"
proof (induction k w s arbitrary: token t rule: take_loop.induct)
  case (1 k w s)
  have punct: "punctuation c \<noteq> Some Comma" for c by (simp add: punctuation_def)
  have sub: "scan_string_value r \<noteq> Inr (Comma, t)" "scan_ellipses_after_first_dot r \<noteq> Inr (Comma, t)"
    "scan_number r \<noteq> Inr (Comma, t)" "token_from_value n r \<noteq> Inr (Comma, t)" for r n t
    using no_comma_string no_comma_ellipses no_comma_number no_comma_keyword [of n] unfolding returns_def by blast+
  show ?case
    using "1.prems" "1.IH" [OF _ refl refl]
    unfolding take_loop.simps [of k w s] Let_def
    by (auto simp: sub split: if_splits sum.splits option.splits prod.splits simp: punct)
qed

lemma returns_no_comma: "returns (\<lambda>found. \<not> found) (parser_scan_optional Comma k)"
proof -
  have "\<not> found" if found: "parser_scan_optional Comma k p = Inr (found, q)" for p q :: "'x GraphQlParser_scheme" and found
  proof
    assume found
    with that obtain t where "try_scan Comma k True (ps_scanner p) = Inr (Comma, t)"
      by (auto simp: parser_scan_optional_def on_scanner_def ret_def elim!: bind_InrE split: sum.splits)
    from try_scan_result [OF this] show False
      by (auto simp: take_next_token_def dest: no_comma_take_loop)
  qed
  then show ?thesis by (auto simp: returns_def)
qed

section \<open>Variables are lost\<close>

definition no_variables :: "OperationDefinition \<Rightarrow> bool" where
  "no_variables op \<longleftrightarrow> (case op_variable_definitions op of
     None \<Rightarrow> True | Some vds \<Rightarrow> vd_variable_definitions vds = [])"

lemma returns_variable_loop: "returns (\<lambda>vds'. vds' = vds) (parse_variable_definitions_loop n vds)"
proof (cases n)
  case 0
  then show ?thesis by (simp add: returns_throw)
next
  case (Suc m)
  show ?thesis unfolding Suc parse_variable_definitions_loop.simps
    by (intro return_intros refl returns_after [OF returns_no_comma]) simp
qed

lemma returns_variables: "returns (\<lambda>vds. vd_variable_definitions vds = []) (parse_variable_definitions n)"
  unfolding parse_variable_definitions_def
  by (rule returns_bind, rule returns_after [OF returns_variable_loop], intro return_intros) (simp add: Syntax.extend_def)

lemma returns_body:
  "no_variables op \<Longrightarrow> returns (\<lambda>d. \<forall>op. d = Some op \<longrightarrow> no_variables op) (parse_operation_definition_body n op)"
  "no_variables op \<Longrightarrow> returns (\<lambda>d. \<forall>op. d = Some op \<longrightarrow> no_variables op) (parse_operation_definition_body_after_open_brace n op)"
  unfolding parse_operation_definition_body_def parse_operation_definition_body_after_open_brace_def
  by (intro return_intros; auto simp: no_variables_def split: option.splits)+

lemma returns_new_operation: "returns (\<lambda>op. op_variable_definitions op = None) (new_operation_definition operation_type)"
  unfolding new_operation_definition_def by (intro return_intros) (simp add: Syntax.extend_def)

lemma returns_operation:
  "returns (\<lambda>d. \<forall>op. d = Some op \<longrightarrow> no_variables op) (parse_operation_definition n operation_type)"
proof -
  have named: "returns no_variables (if named then
        bind parser_get_token_value (\<lambda>v.
        bind (CreateName (cstr v)) (\<lambda>name.
        bind (parser_scan_optional OpenParen False) (\<lambda>paren.
        if paren then
          bind (parse_variable_definitions n) (\<lambda>vds.
          bind (parser_scan_expected CloseParen False True) (\<lambda>_.
          ret (op\<lparr>op_name := Some name, op_variable_definitions := Some vds\<rparr>)))
        else ret (op\<lparr>op_name := Some name\<rparr>))))
      else ret op)" if "op_variable_definitions op = None" for op named
    by (intro return_intros returns_after [OF returns_variables]) (use that in \<open>simp_all add: no_variables_def\<close>)
  show ?thesis
    unfolding parse_operation_definition_def
    by (rule returns_after [OF returns_new_operation], rule returns_bind, rule returns_after [OF named], assumption,
        rule returns_bind, rule returns_body) (simp add: no_variables_def)
qed

lemma returns_primary:
  "returns (\<lambda>d. \<forall>op. d = Some (Operation_primary op) \<longrightarrow> no_variables op) (ex_parse_primary_token n token)"
proof -
  have op: "returns (\<lambda>d. \<forall>op. d = Some (Operation_primary op) \<longrightarrow> no_variables op)
      (bind m (\<lambda>d. ret (map_option Operation_primary d)))"
    if "returns (\<lambda>d. \<forall>op. d = Some op \<longrightarrow> no_variables op) m" for m
    by (rule returns_after [OF that]) (intro return_intros; auto)
  show ?thesis
    unfolding ex_parse_primary_token_def Let_def
    by (intro returns_if op returns_operation returns_after [OF returns_new_operation] returns_bind returns_ret
        returns_body(2); fastforce simp: no_variables_def)
qed

lemma returns_execute_loop:
  "list_all no_variables ops \<Longrightarrow> returns (\<lambda>r. list_all no_variables (fst r)) (execute_loop n token ops fragments)"
proof (induction n arbitrary: token ops fragments)
  case 0
  then show ?case by (simp add: returns_throw)
next
  case (Suc n)
  show ?case unfolding execute_loop.simps
  proof (rule returns_if)
    show "returns (\<lambda>r. list_all no_variables (fst r)) (ret (ops, fragments))"
      using Suc.prems by (simp add: returns_ret)
    show "returns (\<lambda>r. list_all no_variables (fst r)) (bind (ex_parse_primary_token n token) (\<lambda>d. bind TakeNextToken (\<lambda>token.
        case d of None \<Rightarrow> execute_loop n token ops fragments
        | Some (Fragment_primary f) \<Rightarrow> execute_loop n token ops (fragments @ [f])
        | Some (Operation_primary d) \<Rightarrow> execute_loop n token (ops @ [d]) fragments)))"
      by (rule returns_after [OF returns_primary], rule returns_bind)
        (use Suc in \<open>auto split: option.split PrimaryDefinition.split\<close>)
  qed
qed

text \<open>C26. The variables of an operation are lost.  In whatever state and for whatever query \<open>Execute\<close> returns, no operation of the
  result has a variable definition: a definition is kept only if a comma token follows it, and the scanner
  has no such token, since commas are skipped like blanks.\<close>

theorem Execute_loses_variables:
  assumes "Execute query e = Inr (definition', e')"
  shows "list_all no_variables (xd_operation_definitions definition')"
proof -
  have "returns (\<lambda>d. list_all no_variables (xd_operation_definitions d)) (Execute query)"
    unfolding Execute_def execute_document_def
    by (rule returns_bind, rule returns_bind, rule returns_bind, rule returns_after [OF returns_execute_loop [of "[]"]])
      (auto simp: Syntax.extend_def case_prod_unfold intro!: return_intros)
  from returnsD [OF this assms] show ?thesis .
qed

lemmas executor_eval = Execute_def execute_document_def ex_parse_primary_token_def new_operation_definition_def
  parse_operation_definition_def parse_operation_definition_body_def parse_variable_definitions_def parse_type_def
  type_of_token_def push_object_type_def pop_object_type_def top_object_type_def root_pointer_def current_position_def
  object_like_fields_def check_forward_fragment_references_def finish_syntax_def finished_end_def
  parse_selections.simps(2) [where n = "pred_numeral k" for k, folded numeral_eq_Suc]
  execute_loop.simps(2) [where n = "pred_numeral k" for k, folded numeral_eq_Suc]
  ex_parse_directives.simps(2) [where n = "pred_numeral k" for k, folded numeral_eq_Suc]
  parse_variable_definitions_loop.simps(2) [where n = "pred_numeral k" for k, folded numeral_eq_Suc]

lemma example_run:
  obtains definition' e' op vds where "Execute (u ''query Q(c:Int){a}'') example_executor = Inr (definition', e')"
    "xd_diagnostics definition' = []" "xd_operation_definitions definition' = [op]" "op_variable_definitions op = Some vds"
  by (simp add: parse_eval executor_eval example_executor_def GraphQlExecutor_new_def cong: bind_cong_weak)

theorem Execute_loses_variables_witness:
  "\<exists>definition' e' op vds. Execute (u ''query Q(c:Int){a}'') example_executor = Inr (definition', e') \<and>
     xd_diagnostics definition' = [] \<and> xd_operation_definitions definition' = [op] \<and>
     op_variable_definitions op = Some vds \<and> vd_variable_definitions vds = []"
proof -
  obtain definition' e' op vds where run: "Execute (u ''query Q(c:Int){a}'') example_executor = Inr (definition', e')"
    "xd_diagnostics definition' = []" "xd_operation_definitions definition' = [op]" "op_variable_definitions op = Some vds"
    by (rule example_run)
  from Execute_loses_variables [OF run(1)] run show ?thesis by (auto simp: no_variables_def)
qed

theorem Execute_keeps_schema_witness:
  "\<exists>definition' e'. Execute (u ''query Q(c:Int){a}'') example_executor = Inr (definition', e') \<and>
     ps_declarations e' = ps_declarations example_executor \<and> ex_symbols e' = ex_symbols example_executor \<and>
     types_kept example_executor e'"
proof -
  obtain definition' e' where run: "Execute (u ''query Q(c:Int){a}'') example_executor = Inr (definition', e')"
    by (rule example_run)
  from Execute_keeps_schema [OF run] run show ?thesis by blast
qed

section \<open>A list literal changes the schema\<close>

lemmas value_fuel_eval =
  ex_parse_value.simps(2) [where n = "pred_numeral k" for k, folded numeral_eq_Suc]
  ex_parse_values.simps(2) [where n = "pred_numeral k" for k, folded numeral_eq_Suc]

lemma change_type_InrD:
  assumes "change_type r f p = Inr (x, q)"
  shows "r < length (ps_types q) \<and> ps_types q ! r \<in> range f"
  using assms by (auto simp: change_type_def get_type_def set_type_def modify_def elim!: bind_InrE split: if_splits)

text \<open>C27. A list literal changes the schema.  Whenever a value that starts with a bracket is read for a type, and the
  call returns, the type of the schema is a list type afterwards, whatever it was before: the flag is
  not put back but set.  A query with a list for an argument that takes a single value thus makes the argument
  a list for all later queries.\<close>

theorem list_literal_marks_type:
  assumes "TakeNextToken e = Inr (OpenBracket, e1)" and "ex_parse_value n (Some r) e = Inr (v, e')"
  shows "r < length (ps_types e') \<and> ty_is_list_type (ps_types e' ! r)"
proof (cases n)
  case 0
  with assms(2) show ?thesis by (simp add: throw_def)
next
  case (Suc m)
  from assms(2) obtain p q x where "change_type r (\<lambda>t. t\<lparr>ty_is_list_type := True\<rparr>) p = Inr (x, q)" "e' = q"
    unfolding Suc ex_parse_value.simps
    by (auto simp: assms(1) bind_def [of TakeNextToken] finish_syntax_def gets_def deref_def ret_def elim!: bind_InrE)
  then show ?thesis by (auto dest!: change_type_InrD)
qed

theorem list_literal_marks_type_witness:
  "\<exists>v e'. ex_parse_value 9 (Some 0) (example_executor\<lparr>ps_scanner := GraphQlScanner_new (u ''[1]'')\<rparr>) = Inr (v, e') \<and>
     \<not> ty_is_list_type (ps_types example_executor ! 0) \<and> ty_is_list_type (ps_types e' ! 0)"
proof -
  let ?e = "example_executor\<lparr>ps_scanner := GraphQlScanner_new (u ''[1]'')\<rparr>"
  obtain e1 where e1: "TakeNextToken ?e = Inr (OpenBracket, e1)"
    by (simp add: parse_eval)
  obtain v e' where run: "ex_parse_value 9 (Some 0) ?e = Inr (v, e')"
    by (simp add: parse_eval executor_eval example_executor_def GraphQlExecutor_new_def get_type_name_def
        value_fuel_eval scan_number_def scan_integer_part_def scan_digit_list.simps atoi_def current_char_def
        is_exponent_char_def type_masks cong: bind_cong_weak)
  have "\<not> ty_is_list_type (ps_types example_executor ! 0)" by (simp add: example_executor_def)
  with list_literal_marks_type [OF e1 run] run show ?thesis by blast
qed

section \<open>Names for scalars\<close>

text \<open>A name where a scalar is expected.  Reading a name for a type of the language's own (\<open>Int\<close>, \<open>Float\<close>, \<open>String\<close>,
  \<open>Boolean\<close>, \<open>ID\<close>), which has no name node, is undefined behaviour: the mismatch is reported, and then the
  null pointer is followed to look up an enumeration.\<close>

theorem name_for_scalar_undefined:
  assumes "TakeNextToken e = Inr (G_Name, e1)" and "get_value (ps_scanner e1) = Inr v"
    and "r < length (ps_types e)" and "ty_name (ps_types e ! r) = None"
    and "ty_type (ps_types e ! r) \<in> {T_Int, T_Float, T_String, T_Boolean, T_ID}"
  shows "ex_parse_value (Suc n) (Some r) e = Inl (Undefined_behaviour ''null pointer'')"
proof -
  have types: "ps_types e1 = ps_types e"
    using assms(1) by (auto simp: TakeNextToken_def on_scanner_def split: sum.splits)
  show ?thesis
    unfolding ex_parse_value.simps
    using assms(2-5)
    by (auto simp: bind_def assms(1) modify_def parser_get_token_value_def query_scanner_def deref_def ret_def throw_def
        get_type_def get_type_name_def add_diagnostic_def add_diagnostic_at_def gets_def types)
qed

theorem name_for_scalar_undefined_witness:
  "ex_parse_value (Suc 0) (Some 0) (example_executor\<lparr>ps_scanner := GraphQlScanner_new (u ''c)'')\<rparr>) =
     Inl (Undefined_behaviour ''null pointer'')"
proof -
  let ?e = "example_executor\<lparr>ps_scanner := GraphQlScanner_new (u ''c)'')\<rparr>"
  obtain e1 where "TakeNextToken ?e = Inr (G_Name, e1)" "get_value (ps_scanner e1) = Inr (u ''c'')"
    by (simp add: parse_eval)
  then show ?thesis
    by (rule name_for_scalar_undefined) (simp_all add: example_executor_def)
qed

end
