(* ===== verification/HttpHeaders.thy ===== *)
theory HttpHeaders
  imports Prelude
begin

text \<open>
  The vocabulary of the HTTP scanner, \<open>src/program/http_scanner.h\<close>: request methods, request line
  tokens, the header fields the server knows, and the table from lower-case field names to them.
\<close>

datatype HttpMethod = M_None | Get | Post | Put | Delete | Patch | Head | Connect | Options | Trace

datatype RequestLineToken =
    RL_None
  | RL_Crlf
  | RL_Question
  | RL_Protocol
  | RL_AbsolutePath
  | RL_Query
  | HttpVersion1_1
  | RL_EndOfRequestTarget

datatype (plugins only: size) HttpHeader =
    H_Unknown
  | H_Accept
  | H_AcceptCharset
  | H_AcceptEncoding
  | H_AcceptLanguage
  | H_AcceptPost
  | H_AcceptRanges
  | H_Age
  | H_Allow
  | H_ALPN
  | H_AltSvc
  | H_AltUsed
  | H_AuthenticationInfo
  | H_Authorization
  | H_CacheControl
  | H_CalDAVTimezones
  | H_Connection
  | H_ContentDisposition
  | H_ContentEncoding
  | H_ContentLanguage
  | H_ContentLength
  | H_ContentLocation
  | H_ContentRange
  | H_ContentType
  | H_Cookie
  | H_DASL
  | H_DAV
  | H_Date
  | H_Depth
  | H_Destination
  | H_ETag
  | H_Expect
  | H_Expires
  | H_Forwarded
  | H_From
  | H_Host
  | H_HTTP2Settings
  | H_If
  | H_IfMatch
  | H_IfModifiedSince
  | H_IfNoneMatch
  | H_IfRange
  | H_IfScheduleTagMatch
  | H_IfUnmodifiedSince
  | H_LastModified
  | H_Link
  | H_Location
  | H_LockToken
  | H_MaxForwards
  | H_MIMEVersion
  | H_OrderingType
  | H_Origin
  | H_Overwrite
  | H_Position
  | H_Pragma
  | H_Prefer
  | H_PreferenceApplied
  | H_ProxyAuthenticate
  | H_ProxyAuthenticationInfo
  | H_ProxyAuthorization
  | H_PublicKeyPins
  | H_PublicKeyPinsReportOnly
  | H_Range
  | H_Referer
  | H_RetryAfter
  | H_ScheduleReply
  | H_ScheduleTag
  | H_SecWebSocketAccept
  | H_SecWebSocketExtensions
  | H_SecWebSocketKey
  | H_SecWebSocketProtocol
  | H_SecWebSocketVersion
  | H_Server
  | H_SetCookie
  | H_SLUG
  | H_StrictTransportSecurity
  | H_TE
  | H_Timeout
  | H_Topic
  | H_Trailer
  | H_TransferEncoding
  | H_TTL
  | H_Urgency
  | H_Upgrade
  | H_UserAgent
  | H_Vary
  | H_Via
  | H_WWWAuthenticate
  | H_Warning
  | H_XContentTypeOptions
  | H_End

text \<open>
  \<open>string_to_token\<close> is ordered by \<open>strcmp\<close>; finding a key in it is a lookup of the C string.
\<close>

definition string_to_token :: "(ustring \<times> HttpHeader) list" where
  "string_to_token =
     [(u ''accept'', H_Accept), (u ''accept-charset'', H_AcceptCharset),
      (u ''accept-encoding'', H_AcceptEncoding), (u ''accept-language'', H_AcceptLanguage),
      (u ''accept-post'', H_AcceptPost), (u ''accept-ranges'', H_AcceptRanges),
      (u ''age'', H_Age), (u ''allow'', H_Allow), (u ''alpn'', H_ALPN),
      (u ''alt-svc'', H_AltSvc), (u ''alt-used'', H_AltUsed),
      (u ''authentication-info'', H_AuthenticationInfo), (u ''authorization'', H_Authorization),
      (u ''cache-control'', H_CacheControl), (u ''caldav-timezones'', H_CalDAVTimezones),
      (u ''connection'', H_Connection), (u ''content-disposition'', H_ContentDisposition),
      (u ''content-encoding'', H_ContentEncoding), (u ''content-language'', H_ContentLanguage),
      (u ''content-length'', H_ContentLength), (u ''content-location'', H_ContentLocation),
      (u ''content-range'', H_ContentRange), (u ''content-type'', H_ContentType),
      (u ''cookie'', H_Cookie), (u ''dasl'', H_DASL), (u ''dav'', H_DAV), (u ''date'', H_Date),
      (u ''depth'', H_Depth), (u ''destination'', H_Destination), (u ''etag'', H_ETag),
      (u ''expect'', H_Expect), (u ''expires'', H_Expires), (u ''forwarded'', H_Forwarded),
      (u ''from'', H_From), (u ''host'', H_Host), (u ''http2-settings'', H_HTTP2Settings),
      (u ''if'', H_If), (u ''if-match'', H_IfMatch),
      (u ''if-modified-since'', H_IfModifiedSince), (u ''if-none-match'', H_IfNoneMatch),
      (u ''if-range'', H_IfRange), (u ''if-schedule-tag-match'', H_IfScheduleTagMatch),
      (u ''if-unmodified-since'', H_IfUnmodifiedSince), (u ''last-modified'', H_LastModified),
      (u ''link'', H_Link), (u ''location'', H_Location), (u ''lock-token'', H_LockToken),
      (u ''max-forwards'', H_MaxForwards), (u ''mime-version'', H_MIMEVersion),
      (u ''ordering-type'', H_OrderingType), (u ''origin'', H_Origin),
      (u ''overwrite'', H_Overwrite), (u ''position'', H_Position), (u ''pragma'', H_Pragma),
      (u ''prefer'', H_Prefer), (u ''preference-applied'', H_PreferenceApplied),
      (u ''proxy-authenticate'', H_ProxyAuthenticate),
      (u ''proxy-authentication-info'', H_ProxyAuthenticationInfo),
      (u ''proxy-authorization'', H_ProxyAuthorization),
      (u ''public-key-pins'', H_PublicKeyPins),
      (u ''public-key-pins-report-only'', H_PublicKeyPinsReportOnly), (u ''range'', H_Range),
      (u ''referer'', H_Referer), (u ''retry-after'', H_RetryAfter),
      (u ''schedule-reply'', H_ScheduleReply), (u ''schedule-tag'', H_ScheduleTag),
      (u ''sec-webSocket-accept'', H_SecWebSocketAccept),
      (u ''sec-webSocket-extensions'', H_SecWebSocketExtensions),
      (u ''sec-webSocket-key'', H_SecWebSocketKey),
      (u ''sec-webSocket-protocol'', H_SecWebSocketProtocol),
      (u ''sec-webSocket-version'', H_SecWebSocketVersion), (u ''server'', H_Server),
      (u ''set-cookie'', H_SetCookie), (u ''slug'', H_SLUG),
      (u ''strict-transport-security'', H_StrictTransportSecurity), (u ''te'', H_TE),
      (u ''timeout'', H_Timeout), (u ''topic'', H_Topic), (u ''trailer'', H_Trailer),
      (u ''transfer-encoding'', H_TransferEncoding), (u ''ttl'', H_TTL),
      (u ''urgency'', H_Urgency), (u ''upgrade'', H_Upgrade), (u ''user-agent'', H_UserAgent),
      (u ''vary'', H_Vary), (u ''via'', H_Via), (u ''www-authenticate'', H_WWWAuthenticate),
      (u ''warning'', H_Warning), (u ''x-content-type-options'', H_XContentTypeOptions)]"

end
