(* ===== verification/HttpScanner.thy ===== *)
theory HttpScanner
  imports HttpHeaders
begin

text \<open>
  The HTTP scanner, \<open>src/program/http_scanner.h\<close> and \<open>.cpp\<close>.  The scanner reads a buffer through a
  pointer and is told how many of its bytes belong to the request: \<open>hs_text\<close> holds the bytes
  of the buffer, \<open>hs_size\<close> the size given to the constructor, and a read outside the buffer is
  undefined.  Bytes are numbers below 256; \<open>char\<close> is signed on the platforms the server is built
  for, so a byte from \<open>0x80\<close> on is a negative character.  A \<open>char*\<close> the scanner returns is the C
  string it points to.
\<close>

section \<open>State and cursor\<close>

record HttpSavedTextCursor =
  hc_position :: nat
  hc_start_position :: nat
  hc_end_position :: nat

record HttpScanner =
  hs_text :: ustring
  hs_size :: nat
  hs_position :: nat
  hs_start_position :: nat
  hs_end_position :: nat
  hs_current_header :: "ustring option"
  hs_saved_text_cursors :: "HttpSavedTextCursor list"

definition HttpScanner_new :: "ustring \<Rightarrow> nat \<Rightarrow> HttpScanner" where
  "HttpScanner_new str n =
     \<lparr>hs_text = str, hs_size = n, hs_position = 0, hs_start_position = 0, hs_end_position = 0,
      hs_current_header = None, hs_saved_text_cursors = []\<rparr>"

definition text_at :: "nat \<Rightarrow> (HttpScanner, nat) exec" where
  "text_at i s =
     (if i < length (hs_text s) then Inr (hs_text s ! i, s)
      else Inl (Undefined_behaviour ''read outside the buffer''))"

definition http_current_char :: "(HttpScanner, nat) exec" where
  "http_current_char s = text_at (hs_position s) s"

definition http_increment_position :: "(HttpScanner, unit) exec" where
  "http_increment_position s =
     (if hs_position s \<ge> hs_size s
      then Inl (Logic_error ''You cannot increment more than max size.'')
      else Inr ((), s\<lparr>hs_position := hs_position s + 1\<rparr>))"

definition skip_bytes :: "nat \<Rightarrow> HttpScanner \<Rightarrow> HttpScanner" where
  "skip_bytes n s = s\<lparr>hs_position := hs_position s + n\<rparr>"

definition http_set_token_start_position :: "HttpScanner \<Rightarrow> HttpScanner" where
  "http_set_token_start_position s = s\<lparr>hs_start_position := hs_position s\<rparr>"

definition http_save :: "HttpScanner \<Rightarrow> HttpScanner" where
  "http_save s = s\<lparr>hs_saved_text_cursors :=
     \<lparr>hc_position = hs_position s, hc_start_position = hs_start_position s,
      hc_end_position = hs_end_position s\<rparr> # hs_saved_text_cursors s\<rparr>"

definition http_revert :: "(HttpScanner, unit) exec" where
  "http_revert s = (case hs_saved_text_cursors s of
      [] \<Rightarrow> Inl (Undefined_behaviour ''top of an empty stack'')
    | c # cs \<Rightarrow> Inr ((), s\<lparr>hs_position := hc_position c, hs_start_position := hc_start_position c,
        hs_end_position := hc_end_position c, hs_saved_text_cursors := cs\<rparr>))"

text \<open>
  \<open>strncpy\<close> with the length of the token plus one: it stops at a null byte, and otherwise also reads
  the byte behind the token, which the terminator then replaces.
\<close>

definition get_token_value :: "HttpScanner \<Rightarrow> flash_error + ustring" where
  "get_token_value s =
     (let token = take (hs_position s - hs_start_position s) (drop (hs_start_position s) (hs_text s))
      in if 0 \<in> set token \<or> hs_position s < length (hs_text s) then Inr (cstr token)
         else Inl (Undefined_behaviour ''read outside the buffer''))"

definition tolower :: "nat \<Rightarrow> nat" where
  "tolower c = (if c \<ge> Upper_A \<and> c \<le> Upper_Z then c + 32 else c)"

definition get_lower_cased_value :: "HttpScanner \<Rightarrow> flash_error + ustring" where
  "get_lower_cased_value s =
     (if hs_position s < length (hs_text s)
      then Inr (cstr (map tolower
             (take (hs_position s - hs_start_position s) (drop (hs_start_position s) (hs_text s)))))
      else Inl (Undefined_behaviour ''read outside the buffer''))"

definition lift_result :: "(HttpScanner \<Rightarrow> flash_error + 'a) \<Rightarrow> (HttpScanner, 'a) exec" where
  "lift_result f s = (case f s of Inl e \<Rightarrow> Inl e | Inr x \<Rightarrow> Inr (x, s))"

section \<open>Single characters\<close>

definition scan_optional :: "nat \<Rightarrow> (HttpScanner, bool) exec" where
  "scan_optional ch =
     bind (modify http_save) (\<lambda>_.
     bind http_current_char (\<lambda>c.
     if c = ch then bind http_increment_position (\<lambda>_. ret True)
     else bind http_revert (\<lambda>_. ret False)))"

definition next_char_is :: "nat \<Rightarrow> (HttpScanner, bool) exec" where
  "next_char_is = scan_optional"

definition expected_message :: "nat \<Rightarrow> string" where
  "expected_message ch =
     ''Expected character '' @ [CHR 0x27] @
     (if ch = CarriageReturn then [CHR 0x5C] @ ''r'' @ [CHR 0x27] @ ''.''
      else if ch = NewLine then [CHR 0x5C] @ ''n'' @ [CHR 0x27] @ ''.''
      else [char_of ch] @ [CHR 0x27])"

definition http_scan_expected :: "nat \<Rightarrow> (HttpScanner, unit) exec" where
  "http_scan_expected ch =
     bind http_current_char (\<lambda>c.
     if c = ch then http_increment_position else throw (Logic_error (expected_message ch)))"

definition peek_next_char :: "(HttpScanner, nat) exec" where
  "peek_next_char =
     bind (modify http_save) (\<lambda>_.
     bind http_increment_position (\<lambda>_.
     bind http_current_char (\<lambda>ch.
     bind http_revert (\<lambda>_. ret ch))))"

section \<open>Character classes\<close>

definition is_header_field_start :: "nat \<Rightarrow> bool" where
  "is_header_field_start ch \<longleftrightarrow>
     (ch \<ge> Lower_a \<and> ch \<le> Lower_z) \<or> (ch \<ge> Upper_A \<and> ch \<le> Upper_Z)"

definition is_header_field_part :: "nat \<Rightarrow> bool" where
  "is_header_field_part ch \<longleftrightarrow>
     (ch \<ge> Lower_a \<and> ch \<le> Lower_z) \<or> (ch \<ge> Upper_A \<and> ch \<le> Upper_Z) \<or> ch = Minus"

definition is_method_part :: "nat \<Rightarrow> bool" where
  "is_method_part ch \<longleftrightarrow> ch \<ge> Upper_A \<and> ch \<le> Upper_Z"

definition signed_char :: "nat \<Rightarrow> int" where
  "signed_char ch = (if ch < 128 then int ch else int ch - 256)"

definition is_vchar :: "nat \<Rightarrow> bool" where
  "is_vchar ch \<longleftrightarrow> signed_char ch \<ge> 0x21 \<and> signed_char ch \<le> 0x7E"

definition is_obs_text :: "nat \<Rightarrow> bool" where
  "is_obs_text ch \<longleftrightarrow> signed_char ch \<ge> 0x80 \<and> signed_char ch \<le> 0xFF"

definition isalnum :: "nat \<Rightarrow> bool" where
  "isalnum ch \<longleftrightarrow> (ch \<ge> Digit_0 \<and> ch \<le> Digit_9) \<or> (ch \<ge> Lower_a \<and> ch \<le> Lower_z) \<or>
     (ch \<ge> Upper_A \<and> ch \<le> Upper_Z)"

definition isxdigit :: "nat \<Rightarrow> bool" where
  "isxdigit ch \<longleftrightarrow> (ch \<ge> Digit_0 \<and> ch \<le> Digit_9) \<or> (ch \<ge> Lower_a \<and> ch \<le> Lower_f) \<or>
     (ch \<ge> Upper_A \<and> ch \<le> Upper_F)"

definition is_unreserved_char :: "nat \<Rightarrow> bool" where
  "is_unreserved_char ch \<longleftrightarrow> isalnum ch \<or> ch \<in> {Minus, Dot, Underscore, Tilde}"

definition is_sub_delimiter :: "nat \<Rightarrow> bool" where
  "is_sub_delimiter ch \<longleftrightarrow>
     ch \<in> {Exclamation_char, Dollar_char, Ampersand_char, SingleQuote, OpenParen_char,
       CloseParen_char, Asterisk, Plus, Comma_char, Semicolon, Equal_char}"

text \<open>\<open>is_pchar\<close> of a percent sign also consumes it and the first of its two digits.\<close>

definition expect_hexadecimal :: "(HttpScanner, unit) exec" where
  "expect_hexadecimal =
     bind http_increment_position (\<lambda>_.
     bind http_current_char (\<lambda>c.
     if isxdigit c then ret () else throw (Logic_error ''Expected hex number.'')))"

definition is_pchar :: "nat \<Rightarrow> (HttpScanner, bool) exec" where
  "is_pchar ch =
     (if is_unreserved_char ch then ret True
      else if is_sub_delimiter ch then ret True
      else if ch = Colon_char then ret True
      else if ch = At_char then ret True
      else if ch = Percent then
        bind expect_hexadecimal (\<lambda>_. bind expect_hexadecimal (\<lambda>_. ret True))
      else ret False)"

section \<open>The request line\<close>

definition scan_method :: "(HttpScanner, HttpMethod) exec" where
  "scan_method =
     bind http_current_char (\<lambda>c.
     bind
       (if c = of_char CHR ''C'' then bind (modify (skip_bytes 7)) (\<lambda>_. ret Connect)
        else if c = of_char CHR ''D'' then bind (modify (skip_bytes 6)) (\<lambda>_. ret Delete)
        else if c = of_char CHR ''G'' then bind (modify (skip_bytes 3)) (\<lambda>_. ret Get)
        else if c = of_char CHR ''H'' then bind (modify (skip_bytes 4)) (\<lambda>_. ret Head)
        else if c = of_char CHR ''O'' then bind (modify (skip_bytes 7)) (\<lambda>_. ret Options)
        else if c = of_char CHR ''P'' then
          bind http_increment_position (\<lambda>_.
          bind http_current_char (\<lambda>c.
          if c = of_char CHR ''A'' then bind (modify (skip_bytes 4)) (\<lambda>_. ret Patch)
          else if c = of_char CHR ''O'' then bind (modify (skip_bytes 3)) (\<lambda>_. ret Post)
          else if c = of_char CHR ''U'' then bind (modify (skip_bytes 2)) (\<lambda>_. ret Put)
          else ret M_None))
        else if c = of_char CHR ''T'' then bind (modify (skip_bytes 5)) (\<lambda>_. ret Trace)
        else ret M_None) (\<lambda>token.
     bind (gets (\<lambda>s. hs_position s \<ge> hs_size s)) (\<lambda>too_far.
     if too_far then throw (Logic_error ''Invalid request.'') else ret token)))"

named_theorems http_simps \<open>effect of the HTTP scanner's primitives\<close>

lemma http_increment_Inr [dest!]:
  assumes "http_increment_position s = Inr (x, t)"
  shows "t = s\<lparr>hs_position := Suc (hs_position s)\<rparr> \<and> hs_position s < hs_size s"
  using assms by (auto simp: http_increment_position_def split: if_splits)

lemma http_current_char_Inr [dest!]:
  assumes "http_current_char s = Inr (c, t)"
  shows "t = s \<and> hs_position s < length (hs_text s) \<and> c = hs_text s ! hs_position s"
  using assms by (auto simp: http_current_char_def text_at_def split: if_splits)

text \<open>
  \<open>advances s t\<close>: the scanner moved forward inside the request; the buffer, the size, the token start
  and the saved cursors are as they were.
\<close>

definition advances :: "HttpScanner \<Rightarrow> HttpScanner \<Rightarrow> bool" where
  "advances s t \<longleftrightarrow> hs_text t = hs_text s \<and> hs_size t = hs_size s \<and>
     hs_position s \<le> hs_position t \<and> (hs_position s \<le> hs_size s \<longrightarrow> hs_position t \<le> hs_size s) \<and>
     hs_start_position t = hs_start_position s \<and> hs_current_header t = hs_current_header s"

lemma advances_refl [simp]: "advances s s"
  by (simp add: advances_def)

lemma advances_trans: "advances s t \<Longrightarrow> advances t r \<Longrightarrow> advances s r"
  by (auto simp: advances_def)

lemma is_pchar_advances:
  assumes "is_pchar ch s = Inr (b, t)"
  shows "advances s t"
  using assms
  by (auto simp: is_pchar_def expect_hexadecimal_def exec_simps advances_def
      elim!: bind_InrE split: if_splits)

text \<open>The loops of \<open>scan_absolute_path\<close> and \<open>scan_query\<close>, with the characters they accept besides \<open>pchar\<close>.\<close>

function pchar_loop :: "nat set \<Rightarrow> nat \<Rightarrow> (HttpScanner, unit) exec" where
  "pchar_loop extra ch s =
     (if hs_position s < hs_size s then
        (case is_pchar ch s of
           Inl e \<Rightarrow> Inl e
         | Inr (b, s1) \<Rightarrow>
             if b \<or> ch \<in> extra then
               (case http_increment_position s1 of
                  Inl e \<Rightarrow> Inl e
                | Inr (_, s2) \<Rightarrow>
                    (case http_current_char s2 of
                       Inl e \<Rightarrow> Inl e
                     | Inr (ch', _) \<Rightarrow> pchar_loop extra ch' s2))
             else Inr ((), s1))
      else Inr ((), s))"
  by pat_completeness auto
termination
  by (relation "measure (\<lambda>(extra, ch, s). hs_size s - hs_position s)")
     (auto simp: advances_def dest!: is_pchar_advances)

declare pchar_loop.simps [simp del]

definition scan_absolute_path :: "(HttpScanner, ustring) exec" where
  "scan_absolute_path =
     bind (modify http_set_token_start_position) (\<lambda>_.
     bind (http_scan_expected Slash) (\<lambda>_.
     bind http_current_char (\<lambda>ch.
     bind (pchar_loop {Slash} ch) (\<lambda>_. lift_result get_token_value))))"

definition scan_query :: "(HttpScanner, ustring) exec" where
  "scan_query =
     bind (modify http_set_token_start_position) (\<lambda>_.
     bind (next_char_is Question) (\<lambda>b.
     bind (if b then bind http_current_char (pchar_loop {Slash, Question}) else ret ()) (\<lambda>_.
     lift_result get_token_value)))"

definition scan_http_version :: "(HttpScanner, RequestLineToken) exec" where
  "scan_http_version =
     bind (http_scan_expected (of_char CHR ''H'')) (\<lambda>_.
     bind (modify (skip_bytes 7)) (\<lambda>_.
     bind http_current_char (\<lambda>ch. ret HttpVersion1_1)))"

function scan_request_target :: "(HttpScanner, unit) exec" where
  "scan_request_target s =
     (if hs_position s < hs_size s then
        (case http_current_char s of
           Inl e \<Rightarrow> Inl e
         | Inr (ch, _) \<Rightarrow>
             (let s1 = s\<lparr>hs_position := hs_position s + 1\<rparr> in
              if ch = Space then Inr ((), s1)
              else if ch = Slash then scan_request_target s1
              else
                (case is_pchar ch s1 of
                   Inl e \<Rightarrow> Inl e
                 | Inr (b, s2) \<Rightarrow>
                     if b then scan_request_target s2
                     else if ch = Question then Inr ((), s2)
                     else scan_request_target s2)))
      else Inl (Logic_error ''Should not reach here.''))"
  by pat_completeness auto
termination
  by (relation "measure (\<lambda>s. hs_size s - hs_position s)")
     (auto simp: advances_def dest!: is_pchar_advances)

declare scan_request_target.simps [simp del]

section \<open>Headers\<close>

definition is_blank_char :: "nat \<Rightarrow> bool" where
  "is_blank_char ch \<longleftrightarrow> ch = Space \<or> ch = HorizontalTab"

function skip_blanks :: "nat \<Rightarrow> (HttpScanner, unit) exec" where
  "skip_blanks ch s =
     (if hs_position s < hs_size s \<and> is_blank_char ch then
        (let s1 = s\<lparr>hs_position := hs_position s + 1\<rparr> in
         case http_current_char s1 of
           Inl e \<Rightarrow> Inl e
         | Inr (ch', _) \<Rightarrow> skip_blanks ch' s1)
      else Inr ((), s))"
  by pat_completeness auto
termination
  by (relation "measure (\<lambda>(ch, s). hs_size s - hs_position s)") auto

declare skip_blanks.simps [simp del]

definition scan_field_content :: "(HttpScanner, bool) exec" where
  "scan_field_content =
     bind (modify http_save) (\<lambda>_.
     bind http_current_char (\<lambda>ch.
     if is_vchar ch \<or> is_obs_text ch then
       bind http_increment_position (\<lambda>_.
       bind http_current_char (\<lambda>ch.
       if is_blank_char ch then
         bind http_increment_position (\<lambda>_.
         bind http_current_char (\<lambda>ch.
         bind (skip_blanks ch) (\<lambda>_.
         bind http_current_char (\<lambda>ch.
         if \<not> is_vchar ch then bind http_revert (\<lambda>_. ret False)
         else bind http_increment_position (\<lambda>_. ret True)))))
       else ret True))
     else bind http_revert (\<lambda>_. ret False)))"

lemma skip_blanks_advances:
  "skip_blanks ch s = Inr (x, t) \<Longrightarrow>
   advances s t \<and> hs_saved_text_cursors t = hs_saved_text_cursors s"
proof (induction ch s rule: skip_blanks.induct)
  case (1 ch s)
  show ?case
  proof (cases "hs_position s < hs_size s \<and> is_blank_char ch")
    case False
    with "1.prems" show ?thesis by (auto simp: skip_blanks.simps [of ch s])
  next
    case True
    let ?s = "s\<lparr>hs_position := hs_position s + 1\<rparr>"
    from True "1.prems" obtain c p where c: "http_current_char ?s = Inr (c, p)"
      and "skip_blanks c ?s = Inr (x, t)"
      by (auto simp: skip_blanks.simps [of ch s] Let_def split: sum.splits)
    with "1.IH" [OF True refl c refl] True show ?thesis by (auto simp: advances_def)
  qed
qed

lemma http_save_simps [http_simps]:
  "hs_text (http_save s) = hs_text s" "hs_size (http_save s) = hs_size s"
  "hs_position (http_save s) = hs_position s" "hs_start_position (http_save s) = hs_start_position s"
  "hs_current_header (http_save s) = hs_current_header s"
  by (simp_all add: http_save_def)

lemma http_revert_save:
  assumes "http_revert t = Inr (x, r)" and "hs_saved_text_cursors t = hs_saved_text_cursors (http_save s)"
    and "hs_text t = hs_text s" and "hs_size t = hs_size s" and "hs_current_header t = hs_current_header s"
  shows "r = s\<lparr>hs_end_position := hs_end_position r\<rparr>"
  using assms by (auto simp: http_revert_def http_save_def)

lemma scan_field_content_advances:
  assumes "scan_field_content s = Inr (b, t)"
  shows "advances s t \<and> (b \<longrightarrow> hs_position s < hs_position t)"
proof -
  note advances_def [simp] http_save_simps [simp] http_revert_def [simp] http_save_def [simp]
  from assms show ?thesis
    unfolding scan_field_content_def
    by (auto simp: exec_simps elim!: bind_InrE split: if_splits dest!: skip_blanks_advances)
qed

function scan_header_value :: "(HttpScanner, unit) exec" where
  "scan_header_value s =
     (if hs_position s < hs_size s then
        (case scan_field_content s of
           Inl e \<Rightarrow> Inl e
         | Inr (b, s1) \<Rightarrow>
             if b then scan_header_value s1
             else
               (case http_current_char s1 of
                  Inl e \<Rightarrow> Inl e
                | Inr (ch, _) \<Rightarrow>
                    if is_obs_text ch then
                      (case http_increment_position s1 of
                         Inl e \<Rightarrow> Inl e
                       | Inr (_, s2) \<Rightarrow> scan_header_value s2)
                    else Inr ((), s1)))
      else Inr ((), s))"
  by pat_completeness auto
termination
  by (relation "measure (\<lambda>s. hs_size s - hs_position s)")
     (auto simp: advances_def dest!: scan_field_content_advances)

declare scan_header_value.simps [simp del]

function scan_header_name :: "(HttpScanner, unit) exec" where
  "scan_header_name s =
     (if hs_position s < hs_size s then
        (case http_current_char s of
           Inl e \<Rightarrow> Inl e
         | Inr (ch, _) \<Rightarrow>
             if is_header_field_part ch
             then scan_header_name (s\<lparr>hs_position := hs_position s + 1\<rparr>)
             else Inr ((), s))
      else Inr ((), s))"
  by pat_completeness auto
termination
  by (relation "measure (\<lambda>s. hs_size s - hs_position s)") auto

declare scan_header_name.simps [simp del]

definition get_header :: "ustring \<Rightarrow> HttpHeader" where
  "get_header name = (case map_of string_to_token name of Some h \<Rightarrow> h | None \<Rightarrow> H_Unknown)"

definition scan_header :: "(HttpScanner, HttpHeader) exec" where
  "scan_header =
     bind (modify http_set_token_start_position) (\<lambda>_.
     bind http_current_char (\<lambda>c.
     if \<not> is_header_field_start c then
       bind (scan_optional CarriageReturn) (\<lambda>b.
       if b then bind (http_scan_expected NewLine) (\<lambda>_. ret H_End)
       else throw (Logic_error ''Parse error in the header''))
     else
       bind scan_header_name (\<lambda>_.
       bind (lift_result get_lower_cased_value) (\<lambda>name.
       bind (http_scan_expected Colon_char) (\<lambda>_.
       bind (scan_optional Space) (\<lambda>_.
       bind (modify http_set_token_start_position) (\<lambda>_.
       bind scan_header_value (\<lambda>_.
       bind (lift_result get_token_value) (\<lambda>v.
       bind (modify (\<lambda>s. s\<lparr>hs_current_header := Some v\<rparr>)) (\<lambda>_.
       bind (scan_optional Space) (\<lambda>_.
       bind (http_scan_expected CarriageReturn) (\<lambda>_.
       bind (http_scan_expected NewLine) (\<lambda>_. ret (get_header name))))))))))))))"

definition get_header_value :: "HttpScanner \<Rightarrow> ustring option" where
  "get_header_value s = hs_current_header s"

section \<open>Bodies\<close>

function body_loop :: "nat \<Rightarrow> HttpScanner \<Rightarrow> HttpScanner" where
  "body_loop n s =
     (if hs_position s < hs_size s \<and> 0 < n
      then body_loop (n - 1) (s\<lparr>hs_position := hs_position s + 1\<rparr>) else s)"
  by pat_completeness auto
termination
  by (relation "measure fst") auto

declare body_loop.simps [simp del]

text \<open>The parameter of \<open>scan_body\<close> is an \<open>unsigned int\<close>.\<close>

definition scan_body :: "32 word \<Rightarrow> (HttpScanner, ustring) exec" where
  "scan_body len =
     bind (modify http_set_token_start_position) (\<lambda>_.
     bind (modify (body_loop (unat len))) (\<lambda>_. lift_result get_token_value))"

function rest_of_line_loop :: "(HttpScanner, unit) exec" where
  "rest_of_line_loop s =
     (if hs_position s < hs_size s then
        (case http_current_char s of
           Inl e \<Rightarrow> Inl e
         | Inr (ch, _) \<Rightarrow>
             if ch \<noteq> CarriageReturn
             then rest_of_line_loop (s\<lparr>hs_position := hs_position s + 1\<rparr>)
             else Inr ((), s))
      else Inr ((), s))"
  by pat_completeness auto
termination
  by (relation "measure (\<lambda>s. hs_size s - hs_position s)") auto

declare rest_of_line_loop.simps [simp del]

definition http_scan_rest_of_line :: "(HttpScanner, unit) exec" where
  "http_scan_rest_of_line =
     bind rest_of_line_loop (\<lambda>_.
     bind (http_scan_expected CarriageReturn) (\<lambda>_. http_scan_expected NewLine))"

end
