(* ===== verification/HttpParser.thy ===== *)
theory HttpParser
  imports HttpScanner
begin

text \<open>
  The HTTP request parser, \<open>src/program/http_parser.h\<close> and \<open>.cpp\<close>.  The parser's state is its
  scanner.  A header map sends a header to the \<open>char*\<close> stored for it, \<open>None\<close> being the null pointer
  that \<open>headers[...]\<close> inserts for a header that is not there.
\<close>

record RequestLine =
  rl_method :: HttpMethod
  rl_path :: ustring
  rl_query :: ustring

type_synonym header_map = "HttpHeader \<rightharpoonup> ustring option"

record HttpRequest =
  rq_method :: HttpMethod
  rq_path :: ustring
  rq_query :: ustring
  rq_headers :: header_map
  rq_body :: "ustring option"

definition HttpParser_new :: "ustring \<Rightarrow> nat \<Rightarrow> HttpScanner" where
  "HttpParser_new str n = HttpScanner_new str n"

definition ParseRequestLine :: "(HttpScanner, RequestLine) exec" where
  "ParseRequestLine =
     bind scan_method (\<lambda>m.
     bind (http_scan_expected Space) (\<lambda>_.
     bind scan_absolute_path (\<lambda>path.
     bind scan_query (\<lambda>query.
     bind (http_scan_expected Space) (\<lambda>_.
     bind scan_http_version (\<lambda>_.
     bind (http_scan_expected CarriageReturn) (\<lambda>_.
     bind (http_scan_expected NewLine) (\<lambda>_.
     ret \<lparr>rl_method = m, rl_path = path, rl_query = query\<rparr>))))))))"

section \<open>Headers\<close>

lemma http_scan_expected_Inr:
  assumes "http_scan_expected ch s = Inr (x, t)"
  shows "t = s\<lparr>hs_position := Suc (hs_position s)\<rparr> \<and> hs_position s < hs_size s \<and>
    hs_position s < length (hs_text s) \<and> hs_text s ! hs_position s = ch"
  using assms by (auto simp: http_scan_expected_def exec_simps elim!: bind_InrE split: if_splits)

lemma scan_optional_Inr:
  assumes "scan_optional ch s = Inr (b, t)"
  shows "hs_text t = hs_text s \<and> hs_size t = hs_size s \<and>
    hs_position t = hs_position s + (if b then 1 else 0) \<and> (b \<longrightarrow> hs_position s < hs_size s) \<and>
    hs_start_position t = hs_start_position s \<and> hs_current_header t = hs_current_header s"
  using assms
  by (auto simp: scan_optional_def exec_simps http_save_def http_revert_def
      elim!: bind_InrE split: if_splits)

text \<open>What every step of the scanner keeps: the buffer and its size; and it never moves back.\<close>

definition onwards :: "HttpScanner \<Rightarrow> HttpScanner \<Rightarrow> bool" where
  "onwards s t \<longleftrightarrow> hs_text t = hs_text s \<and> hs_size t = hs_size s \<and> hs_position s \<le> hs_position t"

lemma onwards_trans: "onwards s t \<Longrightarrow> onwards t r \<Longrightarrow> onwards s r"
  by (auto simp: onwards_def)

lemma advances_onwards: "advances s t \<Longrightarrow> onwards s t"
  by (simp add: advances_def onwards_def)

lemma scan_optional_onwards: "scan_optional ch s = Inr (b, t) \<Longrightarrow> onwards s t"
  using scan_optional_Inr by (fastforce simp: onwards_def)

lemma scan_header_name_advances:
  "scan_header_name s = Inr (x, t) \<Longrightarrow>
   advances s t \<and> hs_saved_text_cursors t = hs_saved_text_cursors s"
proof (induction s rule: scan_header_name.induct)
  case (1 s)
  show ?case
  proof (cases "hs_position s < hs_size s")
    case False
    with "1.prems" show ?thesis by (simp add: scan_header_name.simps [of s])
  next
    case True
    with "1.prems" obtain c p where c: "http_current_char s = Inr (c, p)"
      by (auto simp: scan_header_name.simps [of s] split: sum.splits)
    with "1.IH" [OF True c refl] "1.prems" True show ?thesis
      by (auto simp: scan_header_name.simps [of s] advances_def split: if_splits)
  qed
qed

lemma scan_header_value_advances:
  "scan_header_value s = Inr (x, t) \<Longrightarrow> advances s t"
proof (induction s rule: scan_header_value.induct)
  case (1 s)
  show ?case
  proof (cases "hs_position s < hs_size s")
    case False
    with "1.prems" show ?thesis by (simp add: scan_header_value.simps [of s])
  next
    case True
    with "1.prems" obtain b s1 where b: "scan_field_content s = Inr (b, s1)"
      by (auto simp: scan_header_value.simps [of s] split: sum.splits)
    note adv = conjunct1 [OF scan_field_content_advances [OF b]]
    show ?thesis
    proof (cases b)
      case btrue: True
      with "1.prems" True b have "scan_header_value s1 = Inr (x, t)"
        by (simp add: scan_header_value.simps [of s])
      with "1.IH"(1) [OF True b refl btrue] show ?thesis using adv advances_trans by blast
    next
      case False
      with "1.prems" True b obtain c p where c: "http_current_char s1 = Inr (c, p)"
        by (auto simp: scan_header_value.simps [of s] split: sum.splits)
      show ?thesis
      proof (cases "is_obs_text c")
        case obs: True
        with "1.prems" True b False c obtain y s2 where s2: "http_increment_position s1 = Inr (y, s2)"
          by (auto simp: scan_header_value.simps [of s] split: sum.splits)
        with obs "1.prems" True b False c have "scan_header_value s2 = Inr (x, t)"
          by (simp add: scan_header_value.simps [of s])
        with "1.IH"(2) [OF True b refl False c refl obs s2] have "advances s2 t" by blast
        moreover have "advances s1 s2" using s2 by (auto simp: advances_def)
        ultimately show ?thesis using adv advances_trans by blast
      next
        case no: False
        with "1.prems" True b False c adv show ?thesis
          by (simp add: scan_header_value.simps [of s])
      qed
    qed
  qed
qed

lemma lift_result_Inr: "lift_result f s = Inr (v, t) \<Longrightarrow> t = s \<and> f s = Inr v"
  by (simp add: lift_result_def split: sum.splits)

lemma scan_header_progress:
  assumes "scan_header s = Inr (h, t)"
  shows "hs_text t = hs_text s \<and> hs_size t = hs_size s \<and> hs_position s < hs_position t \<and>
    hs_position t \<le> hs_size s"
  using assms unfolding scan_header_def
  by (auto simp: exec_simps http_set_token_start_position_def onwards_def
      elim!: bind_InrE split: if_splits
      dest!: http_scan_expected_Inr scan_optional_onwards lift_result_Inr
        scan_header_name_advances [THEN conjunct1, THEN advances_onwards]
        scan_header_value_advances [THEN advances_onwards])

function headers_loop :: "header_map \<Rightarrow> (HttpScanner, header_map) exec" where
  "headers_loop headers s =
     (case scan_header s of
        Inl e \<Rightarrow> Inl e
      | Inr (header, t) \<Rightarrow>
          if header = H_End then Inr (headers, t)
          else headers_loop (headers(header \<mapsto> get_header_value t)) t)"
  by pat_completeness auto
termination
  by (relation "measure (\<lambda>(h, s). hs_size s - hs_position s)") (auto dest!: scan_header_progress)

declare headers_loop.simps [simp del]

definition parse_headers :: "(HttpScanner, header_map) exec" where
  "parse_headers = headers_loop Map.empty"

section \<open>Bodies and requests\<close>

text \<open>
  \<open>atoll\<close>: white space, an optional sign, digits; the rest is ignored.  Its result is undefined
  where the number does not fit a \<open>long long\<close>.
\<close>

definition isspace :: "nat \<Rightarrow> bool" where
  "isspace c \<longleftrightarrow> c = Space \<or> (9 \<le> c \<and> c \<le> 13)"

fun decimal :: "int \<Rightarrow> ustring \<Rightarrow> int" where
  "decimal n [] = n"
| "decimal n (c # cs) =
     (if Digit_0 \<le> c \<and> c \<le> Digit_9 then decimal (10 * n + (int c - 0x30)) cs else n)"

definition atoll :: "ustring \<Rightarrow> flash_error + int" where
  "atoll str =
     (let r = dropWhile isspace str;
          v = (case r of
                 [] \<Rightarrow> 0
               | c # cs \<Rightarrow> if c = Minus then - decimal 0 cs
                           else if c = Plus then decimal 0 cs else decimal 0 r)
      in if - (2 ^ 63) \<le> v \<and> v < 2 ^ 63 then Inr v
         else Inl (Undefined_behaviour ''atoll out of range''))"

definition parse_body :: "int \<Rightarrow> (HttpScanner, ustring) exec" where
  "parse_body len = scan_body (word_of_int len)"

definition Parse :: "(HttpScanner, HttpRequest) exec" where
  "Parse =
     bind ParseRequestLine (\<lambda>line.
     bind parse_headers (\<lambda>headers.
     if rl_method line = Get then
       ret \<lparr>rq_method = rl_method line, rq_path = rl_path line, rq_query = rl_query line,
            rq_headers = headers, rq_body = None\<rparr>
     else
       (let entry = (case headers H_ContentLength of None \<Rightarrow> None | Some p \<Rightarrow> p);
            headers' = headers(H_ContentLength \<mapsto> entry)
        in bind (case entry of
               None \<Rightarrow> ret None
             | Some header \<Rightarrow>
                 bind (lift_result (\<lambda>_. atoll header)) (\<lambda>len.
                 bind (parse_body len) (\<lambda>body. ret (Some body)))) (\<lambda>body.
           ret \<lparr>rq_method = rl_method line, rq_path = rl_path line, rq_query = rl_query line,
                rq_headers = headers', rq_body = body\<rparr>))))"

end
