(* ===== verification/HttpWriter.thy ===== *)
theory HttpWriter
  imports HttpHeaders
begin

text \<open>
  The buffered writer of HTTP messages, class \<open>HttpWriter\<close> of \<open>src/program/http_response.h\<close> and
  \<open>.cpp\<close>.  libuv and OpenSSL are parameters: \<open>uv_write\<close> is the result of handing a buffer to libuv
  after the buffers handed to it before, \<open>records\<close> the chunks \<open>BIO_read\<close> returns after \<open>SSL_write\<close>
  of a plain text.  \<open>hw_sent\<close> lists the buffers handed to \<open>uv_write\<close>, in order.
\<close>

section \<open>Model\<close>

record HttpWriter =
  hw_use_ssl :: bool
  hw_write_buffer :: ustring
  hw_position :: nat
  hw_is_end :: bool
  hw_sent :: "ustring list"

record transport =
  uv_write :: "ustring list \<Rightarrow> ustring \<Rightarrow> int"
  records :: "ustring \<Rightarrow> ustring list"

definition buffer_size :: nat where
  "buffer_size = 4096"

text \<open>The contents of a fresh \<open>new char[buffer_size_]\<close> are indeterminate: the parameter \<open>garbage\<close>.\<close>

definition HttpWriter_new :: "ustring \<Rightarrow> bool \<Rightarrow> HttpWriter" where
  "HttpWriter_new garbage use_ssl =
     \<lparr>hw_use_ssl = use_ssl, hw_write_buffer = garbage, hw_position = 0, hw_is_end = False,
      hw_sent = []\<rparr>"

definition WriteToSocket :: "HttpWriter \<Rightarrow> HttpWriter" where
  "WriteToSocket w = w\<lparr>hw_sent := hw_sent w @ [take (hw_position w) (hw_write_buffer w)]\<rparr>"

text \<open>The loop over the encrypted chunks; \<open>True\<close> where it ran to the end.\<close>

fun send_records :: "transport \<Rightarrow> ustring list \<Rightarrow> HttpWriter \<Rightarrow> bool \<times> HttpWriter" where
  "send_records env [] w = (True, w)"
| "send_records env (b # bs) w =
     (let w' = w\<lparr>hw_sent := hw_sent w @ [b]\<rparr>
      in if uv_write env (hw_sent w) b < 0 then (False, w') else send_records env bs w')"

definition FlushBuffer :: "transport \<Rightarrow> HttpWriter \<Rightarrow> HttpWriter" where
  "FlushBuffer env w =
     (if hw_position w = 0 then w
      else if hw_use_ssl w then
        (let (finished, w') =
               send_records env (records env (take (hw_position w) (hw_write_buffer w))) w
         in if finished then w'\<lparr>hw_position := 0\<rparr> else w')
      else (WriteToSocket w)\<lparr>hw_position := 0\<rparr>)"

definition put_byte :: "transport \<Rightarrow> nat \<Rightarrow> (HttpWriter, unit) exec" where
  "put_byte env c w0 =
     (let w = (if hw_position w0 = buffer_size then FlushBuffer env w0 else w0) in
      if hw_position w < length (hw_write_buffer w) then
        Inr ((), w\<lparr>hw_write_buffer := (hw_write_buffer w)[hw_position w := c],
                    hw_position := hw_position w + 1\<rparr>)
      else Inl (Undefined_behaviour ''write outside the buffer''))"

fun put_bytes :: "transport \<Rightarrow> ustring \<Rightarrow> (HttpWriter, unit) exec" where
  "put_bytes env [] = ret ()"
| "put_bytes env (c # cs) = bind (put_byte env c) (\<lambda>_. put_bytes env cs)"

definition Write :: "transport \<Rightarrow> ustring \<Rightarrow> (HttpWriter, unit) exec" where
  "Write env str = put_bytes env (cstr str)"

fun Write_all :: "transport \<Rightarrow> ustring list \<Rightarrow> (HttpWriter, unit) exec" where
  "Write_all env [] = ret ()"
| "Write_all env (str # strs) = bind (Write env str) (\<lambda>_. Write_all env strs)"

definition crlf :: ustring where
  "crlf = [CarriageReturn, NewLine]"

definition WriteLine :: "transport \<Rightarrow> ustring list \<Rightarrow> (HttpWriter, unit) exec" where
  "WriteLine env strs = bind (Write_all env strs) (\<lambda>_. Write env crlf)"

definition method_prefix :: "HttpMethod \<Rightarrow> ustring option" where
  "method_prefix m =
     (case m of Get \<Rightarrow> Some (u ''GET '') | Post \<Rightarrow> Some (u ''POST '') | Patch \<Rightarrow> Some (u ''PATCH '')
      | Head \<Rightarrow> Some (u ''HEAD '') | _ \<Rightarrow> None)"

definition WriteRequest :: "transport \<Rightarrow> HttpMethod \<Rightarrow> ustring \<Rightarrow> (HttpWriter, unit) exec" where
  "WriteRequest env m path =
     bind (case method_prefix m of Some p \<Rightarrow> Write env p | None \<Rightarrow> ret ()) (\<lambda>_.
     bind (Write env path) (\<lambda>_. Write env (u '' HTTP/1.1'' @ crlf)))"

definition End :: "transport \<Rightarrow> HttpWriter \<Rightarrow> HttpWriter" where
  "End env w = (FlushBuffer env w)\<lparr>hw_is_end := True\<rparr>"

section \<open>The writer is a byte stream\<close>

text \<open>
  The contract of a text sink: what was put into it, in order, is its contents.  A put either
  succeeds in a good state or is not there at all.
\<close>

locale byte_sink =
  fixes put :: "ustring \<Rightarrow> ('s, unit) exec" and contents :: "'s \<Rightarrow> ustring" and good :: "'s \<Rightarrow> bool"
  assumes put_contents: "good s \<Longrightarrow> \<exists>t. put x s = Inr ((), t) \<and> good t \<and> contents t = contents s @ cstr x"
begin

lemma put2:
  assumes "good s"
  shows "\<exists>t. bind (put x) (\<lambda>_. put y) s = Inr ((), t) \<and> good t \<and>
    contents t = contents s @ cstr x @ cstr y"
proof -
  obtain t where t: "put x s = Inr ((), t)" "good t" "contents t = contents s @ cstr x"
    using put_contents [OF assms] by blast
  obtain r where "put y t = Inr ((), r)" "good r" "contents r = contents t @ cstr y"
    using put_contents [OF t(2)] by blast
  with t show ?thesis by (simp add: exec_simps)
qed

lemma put_then:
  assumes "good s" and "\<And>t. good t \<Longrightarrow> contents t = contents s @ cstr x \<Longrightarrow> \<exists>r. m t = Inr ((), r) \<and> good r \<and> contents r = contents t @ y"
  shows "\<exists>r. bind (put x) (\<lambda>_. m) s = Inr ((), r) \<and> good r \<and> contents r = contents s @ cstr x @ y"
proof -
  obtain t where t: "put x s = Inr ((), t)" "good t" "contents t = contents s @ cstr x"
    using put_contents [OF assms(1)] by blast
  with assms(2) [OF t(2,3)] show ?thesis by (auto simp: exec_simps)
qed

end

definition plain_writer :: "HttpWriter \<Rightarrow> bool" where
  "plain_writer w \<longleftrightarrow> \<not> hw_use_ssl w \<and> length (hw_write_buffer w) = buffer_size \<and>
     hw_position w \<le> buffer_size \<and> list_all (\<lambda>b. length b \<le> buffer_size) (hw_sent w)"

definition contents :: "HttpWriter \<Rightarrow> ustring" where
  "contents w = concat (hw_sent w) @ take (hw_position w) (hw_write_buffer w)"

lemma FlushBuffer_plain:
  assumes "plain_writer w"
  shows "plain_writer (FlushBuffer env w)" and "contents (FlushBuffer env w) = contents w"
    and "hw_position (FlushBuffer env w) = 0"
  using assms by (auto simp: FlushBuffer_def WriteToSocket_def plain_writer_def contents_def)

lemma put_byte_plain:
  assumes "plain_writer w"
  shows "\<exists>w'. put_byte env c w = Inr ((), w') \<and> plain_writer w' \<and> contents w' = contents w @ [c]"
proof -
  define v where "v = (if hw_position w = buffer_size then FlushBuffer env w else w)"
  have v: "plain_writer v" "contents v = contents w" "hw_position v < buffer_size"
    using assms FlushBuffer_plain [OF assms, of env]
    by (auto simp: v_def plain_writer_def buffer_size_def)
  then show ?thesis
    by (auto simp: put_byte_def v_def [symmetric] Let_def plain_writer_def contents_def
        take_Suc_conv_app_nth)
qed

lemma put_bytes_plain:
  "plain_writer w \<Longrightarrow>
   \<exists>w'. put_bytes env cs w = Inr ((), w') \<and> plain_writer w' \<and> contents w' = contents w @ cs"
proof (induction cs arbitrary: w)
  case Nil
  then show ?case by (simp add: exec_simps)
next
  case (Cons c cs)
  obtain v where v: "put_byte env c w = Inr ((), v)" "plain_writer v" "contents v = contents w @ [c]"
    using put_byte_plain [OF Cons.prems] by blast
  with Cons.IH [OF v(2)] show ?case by (auto simp: exec_simps)
qed

interpretation http_sink: byte_sink "Write env" contents plain_writer for env
  by unfold_locales (simp add: Write_def put_bytes_plain)

lemma Write_all_plain:
  "plain_writer w \<Longrightarrow> \<exists>w'. Write_all env strs w = Inr ((), w') \<and> plain_writer w' \<and>
     contents w' = contents w @ concat (map cstr strs)"
proof (induction strs arbitrary: w)
  case Nil
  then show ?case by (simp add: exec_simps)
next
  case (Cons str strs)
  have "\<exists>r. Write_all env strs v = Inr ((), r) \<and> plain_writer r \<and>
      contents r = contents v @ concat (map cstr strs)" if "plain_writer v" for v
    using Cons.IH that by simp
  from http_sink.put_then [OF Cons.prems this, of str env] show ?case by simp
qed

lemma cstr_append: "0 \<notin> set a \<Longrightarrow> cstr (a @ b) = a @ cstr b"
  by (induction a) (auto simp: cstr_def)

lemma WriteRequest_plain:
  assumes "plain_writer w" and "0 \<notin> set path"
  shows "\<exists>w'. WriteRequest env m path w = Inr ((), w') \<and> plain_writer w' \<and>
    contents w' = contents w @ (case method_prefix m of Some p \<Rightarrow> p | None \<Rightarrow> []) @ path @
      u '' HTTP/1.1'' @ crlf"
proof -
  have rest: "\<exists>r. bind (Write env path) (\<lambda>_. Write env (u '' HTTP/1.1'' @ crlf)) v = Inr ((), r) \<and>
      plain_writer r \<and> contents r = contents v @ path @ u '' HTTP/1.1'' @ crlf" if "plain_writer v" for v
    using http_sink.put2 [OF that, of env path "u '' HTTP/1.1'' @ crlf"] assms(2) by (simp add: crlf_def)
  have prefix: "0 \<notin> set p" if "method_prefix m = Some p" for p
    using that by (auto simp: method_prefix_def split: HttpMethod.splits)
  show ?thesis
  proof (cases "method_prefix m")
    case None
    with rest [OF assms(1)] show ?thesis by (simp add: WriteRequest_def exec_simps)
  next
    case (Some p)
    with http_sink.put_then [OF assms(1) rest, of p] prefix show ?thesis
      by (simp add: WriteRequest_def)
  qed
qed

lemma contents_new: "contents (HttpWriter_new garbage b) = []"
  by (simp add: contents_def HttpWriter_new_def)



end
