(* ===== verification/HttpServer.thy ===== *)
theory HttpServer
  imports MemoryPool HttpParser HttpWriter GraphQlExecutor
begin

text \<open>
  The gateway, \<open>src/program/http_server.h\<close> and \<open>.cpp\<close>: the callbacks that libuv runs, over one state.
  \<open>Listen\<close> makes one \<open>GatewayClient\<close> and every connection gets a pointer to it, so the client is a member of
  the state.  Objects that live until the process ends are numbered: the TCP handles, the TLS sessions
  (\<open>SSL_new\<close>) and the \<open>ClientRequest\<close>s.

  What libuv, OpenSSL, jsoncpp and the compiler decide is the record \<open>platform\<close>.  A TLS session is a value of
  the type \<open>'ssl\<close>.  What the callbacks ask of libuv and what they print is the list \<open>sv_effects\<close>, in order.
\<close>

section \<open>State\<close>

text \<open>An IPv4 address and a port.\<close>

type_synonym sockaddr = "ustring \<times> nat"

record BackendEndpoint =
  be_origin :: ustring
  be_host :: ustring
  be_hostname :: ustring
  be_port :: nat
  be_path :: ustring

text \<open>The keys of \<open>fields\<close> are the pointers to the keys of \<open>field_to_endpoint\<close>, one for each of its entries.\<close>

record GatewayClient =
  gc_tcp_handle :: "nat option"
  gc_ssl_handle :: "nat option"
  gc_fields :: "(ustring \<times> Selection) list"
  gc_fragments :: "FragmentDefinition list option"

record ClientRequest =
  cr_hostname :: ustring
  cr_port :: nat
  cr_host :: ustring
  cr_path :: ustring
  cr_tcp_handle :: "nat option"

datatype server_effect =
    Uv_close nat
  | Read_start nat
  | Client_write nat ustring
  | Lookup nat
  | Tcp_connect nat nat sockaddr
  | Backend_write nat "ustring list"
  | Free_buffer
  | Message string int
  | Loop_close
  | Exit_process

record SSL_CTX =
  ctx_method :: string
  ctx_options :: "string list"
  ctx_certificate :: string
  ctx_private_key :: string
  ctx_cipher_list :: string

text \<open>What \<open>Listen\<close> starts on the event loop.\<close>

datatype startup =
    Signal_start string
  | Timer_start nat nat
  | Tcp_bind ustring nat
  | Tcp_listen nat

record 'ssl HttpServer =
  sv_parent_pid :: int
  sv_ssl_ctx :: SSL_CTX
  sv_memory_pool :: MemoryPool
  sv_client :: GatewayClient
  sv_sessions :: "'ssl list"
  sv_handles :: nat
  sv_requests :: "ClientRequest list"
  sv_effects :: "server_effect list"
  sv_startup :: "startup list"

text \<open>
  \<open>BIO_write\<close> gets the length that libuv reports with the bytes.  \<open>SSL_read\<close> gives its result and the contents
  of the buffer after the call.  \<open>BIO_read\<close> gives the chunks that the calls in the loop of \<open>FlushWriteBio\<close> return
  up to the first that returns none.  \<open>json_query\<close> is \<open>request_body["query"].asString()\<close> after \<open>parse\<close>, which
  throws for some types of values.  \<open>node_requests\<close> lists the sizes and alignments of the nodes that are allocated
  while a source is parsed; they are those of the compiler's layout.  \<open>uninitialised\<close> is the contents of
  the writer's fresh buffer.
\<close>

record 'ssl platform =
  SSL_new :: 'ssl
  SSL_is_init_finished :: "'ssl \<Rightarrow> bool"
  BIO_write :: "int \<Rightarrow> ustring \<Rightarrow> 'ssl \<Rightarrow> 'ssl"
  SSL_accept :: "'ssl \<Rightarrow> 'ssl"
  SSL_read :: "nat \<Rightarrow> 'ssl \<Rightarrow> (int \<times> ustring) \<times> 'ssl"
  BIO_read :: "'ssl \<Rightarrow> ustring list \<times> 'ssl"
  json_query :: "ustring \<Rightarrow> flash_error + ustring"
  socket_write :: "nat \<Rightarrow> ustring \<Rightarrow> int"
  uv_getaddrinfo :: "ustring \<Rightarrow> ustring \<Rightarrow> int"
  uv_ip4_name :: "sockaddr \<Rightarrow> int \<times> ustring"
  uv_ip4_addr :: "ustring \<Rightarrow> nat \<Rightarrow> int \<times> sockaddr"
  backend_transport :: transport
  uninitialised :: ustring
  node_requests :: "ustring \<Rightarrow> (nat \<times> nat) list"
  pool_zeroed :: bool
  stack_depth :: nat

type_synonym ('ssl, 'a) server = "('ssl HttpServer, 'a) exec"

definition emit :: "server_effect \<Rightarrow> ('ssl, unit) server" where
  "emit x = modify (\<lambda>s. s\<lparr>sv_effects := sv_effects s @ [x]\<rparr>)"

definition valid_pointer :: "'a option \<Rightarrow> ('s, 'a) exec" where
  "valid_pointer x = (case x of None \<Rightarrow> throw (Undefined_behaviour ''invalid pointer'') | Some y \<Rightarrow> ret y)"

text \<open>A call on \<open>gateway_client->ssl_handle\<close>.\<close>

definition on_session :: "('ssl \<Rightarrow> 'a \<times> 'ssl) \<Rightarrow> ('ssl, 'a) server" where
  "on_session f =
     bind (gets (\<lambda>s. gc_ssl_handle (sv_client s))) (\<lambda>h.
     bind (valid_pointer h) (\<lambda>i.
     bind (gets sv_sessions) (\<lambda>sessions.
     if i < length sessions then
       (let (x, t) = f (sessions ! i) in
        bind (modify (\<lambda>s. s\<lparr>sv_sessions := sessions[i := t]\<rparr>)) (\<lambda>_. ret x))
     else throw (Undefined_behaviour ''invalid pointer''))))"

definition client_handle :: "('ssl, nat) server" where
  "client_handle = bind (gets (\<lambda>s. gc_tcp_handle (sv_client s))) valid_pointer"

definition client_request :: "nat \<Rightarrow> ('ssl, ClientRequest) server" where
  "client_request i =
     bind (gets sv_requests) (\<lambda>rs.
     if i < length rs then ret (rs ! i) else throw (Undefined_behaviour ''invalid pointer''))"

definition new_handle :: "('ssl, nat) server" where
  "new_handle =
     bind (gets sv_handles) (\<lambda>h. bind (modify (\<lambda>s. s\<lparr>sv_handles := h + 1\<rparr>)) (\<lambda>_. ret h))"

section \<open>Writing to the client\<close>

definition gateway_WriteToSocket :: "'ssl platform \<Rightarrow> ustring \<Rightarrow> ('ssl, unit) server" where
  "gateway_WriteToSocket env buf =
     (if buf = [] then ret ()
      else
        bind client_handle (\<lambda>h.
        bind (emit (Client_write h buf)) (\<lambda>_.
        if socket_write env h buf < 0 then emit (Message ''ERROR: WriteToSocket erro'' 0) else ret ())))"

definition FlushWriteBio :: "'ssl platform \<Rightarrow> ('ssl, unit) server" where
  "FlushWriteBio env = bind (on_session (BIO_read env)) (for_each (gateway_WriteToSocket env))"

definition OnWriteEnd :: "int \<Rightarrow> ('ssl, unit) server" where
  "OnWriteEnd status = (if status < 0 then emit (Message ''uv_err_name'' status) else ret ())"

definition handle_error :: "int \<Rightarrow> ('ssl, unit) server" where
  "handle_error status = emit (Message ''ERROR: %s'' status)"

section \<open>Requests to the backend\<close>

definition OnForwardRequestRead :: "nat \<Rightarrow> int \<Rightarrow> ('ssl, unit) server" where
  "OnForwardRequestRead h len =
     bind (if 0 \<le> len then emit (Message ''read: %s'' len) else emit (Uv_close h)) (\<lambda>_.
     emit Free_buffer)"

definition backend_request :: "'ssl platform \<Rightarrow> ClientRequest \<Rightarrow> (HttpWriter, unit) exec" where
  "backend_request env r =
     (let tp = backend_transport env in
      bind (WriteRequest tp Post (cr_path r)) (\<lambda>_.
      bind (WriteLine tp [u ''Host: '', cr_host r]) (\<lambda>_.
      bind (WriteLine tp [u ''User-Agent: flash'']) (\<lambda>_.
      bind (WriteLine tp [u ''Accept: */*'']) (\<lambda>_.
      bind (WriteLine tp [u ''Content-Type: application/json; charset=utf-8'']) (\<lambda>_.
      bind (WriteLine tp [u ''Content-Length: 24'']) (\<lambda>_.
      bind (WriteLine tp []) (\<lambda>_.
      bind (Write tp (u ''{ \"query\": \"{ field }\" }'')) (\<lambda>_.
      modify (End tp))))))))))"

definition send_query :: "'ssl platform \<Rightarrow> nat \<Rightarrow> ClientRequest \<Rightarrow> ('ssl, unit) server" where
  "send_query env h r =
     (case backend_request env r (HttpWriter_new (uninitialised env) False) of
        Inl e \<Rightarrow> throw e
      | Inr (_, w) \<Rightarrow> emit (Backend_write h (hw_sent w)))"

definition OnClientConnect :: "'ssl platform \<Rightarrow> nat \<Rightarrow> int \<Rightarrow> ('ssl, unit) server" where
  "OnClientConnect env i status =
     bind (if status = -1 then emit (Message ''error on write_end'' status) else ret ()) (\<lambda>_.
     bind (client_request i) (\<lambda>r.
     bind (valid_pointer (cr_tcp_handle r)) (\<lambda>h.
     bind (emit (Read_start h)) (\<lambda>_.
     bind (gets (\<lambda>s. gc_fields (sv_client s))) (for_each (\<lambda>field. send_query env h r))))))"

text \<open>The result of the name lookup is dereferenced whatever its status was; it is a null pointer where that failed.\<close>

definition OnResolvedIpv4 :: "'ssl platform \<Rightarrow> nat \<Rightarrow> sockaddr option \<Rightarrow> ('ssl, unit) server" where
  "OnResolvedIpv4 env i res =
     bind (valid_pointer res) (\<lambda>address.
     let (r, ip_addr) = uv_ip4_name env address in
     if r \<noteq> 0 then emit (Message ''Error getting ipv4 address: %s.'' r)
     else
       bind (client_request i) (\<lambda>cr.
       let (r, request_address) = uv_ip4_addr env ip_addr (cr_port cr) in
       if r \<noteq> 0 then emit (Message ''Error getting ipv4 address: %s.'' r)
       else
         bind new_handle (\<lambda>h.
         bind (modify (\<lambda>s. s\<lparr>sv_requests := (sv_requests s)[i := cr\<lparr>cr_tcp_handle := Some h\<rparr>]\<rparr>)) (\<lambda>_.
         emit (Tcp_connect h i request_address)))))"

definition ForwardRequest :: "'ssl platform \<Rightarrow> nat \<Rightarrow> ('ssl, unit) server" where
  "ForwardRequest env i =
     bind (client_request i) (\<lambda>cr.
     let r = uv_getaddrinfo env (cr_hostname cr) (u ''80'') in
     if r \<noteq> 0 then
       bind (emit (Message ''Error at dns request: %s.'' r)) (\<lambda>_.
       bind client_handle (\<lambda>h. emit (Uv_close h)))
     else emit (Lookup i))"

definition field_to_endpoint :: "(ustring \<times> BackendEndpoint) list" where
  "field_to_endpoint =
     [(u ''field'', \<lparr>be_origin = u ''http://localhost:4000/graphql'', be_host = u ''localhost:4000'',
        be_hostname = u ''localhost'', be_port = 4000, be_path = u ''/graphql''\<rparr>)]"

section \<open>Requests of the client\<close>

fun allocate_nodes :: "(nat \<times> nat) list \<Rightarrow> (MemoryPool \<times> MemoryPoolTicket, unit) exec" where
  "allocate_nodes [] = ret ()"
| "allocate_nodes ((sz, alignment) # rs) = bind (Allocate sz alignment) (\<lambda>_. allocate_nodes rs)"

definition allocate_from_pool :: "(nat \<times> nat) list \<Rightarrow> MemoryPoolTicket \<Rightarrow> ('ssl, MemoryPoolTicket) server" where
  "allocate_from_pool rs ticket s =
     (case allocate_nodes rs (sv_memory_pool s, ticket) of
        Inl e \<Rightarrow> Inl e
      | Inr (_, (pool, ticket)) \<Rightarrow> Inr (ticket, s\<lparr>sv_memory_pool := pool\<rparr>))"

definition take_ticket :: "('ssl, MemoryPoolTicket) server" where
  "take_ticket s =
     (case TakeTicket (sv_memory_pool s) of
        Inl e \<Rightarrow> Inl e
      | Inr (ticket, pool) \<Rightarrow> Inr (ticket, s\<lparr>sv_memory_pool := pool\<rparr>))"

text \<open>The result of a component that has a state of its own.\<close>

definition result_of :: "flash_error + 'a \<Rightarrow> ('s, 'a) exec" where
  "result_of r = (case r of Inl e \<Rightarrow> throw e | Inr x \<Rightarrow> ret x)"

definition gateway_schema :: ustring where
  "gateway_schema = u ''type Query { field: Int }''"

text \<open>
  \<open>Parse\<close> throws where the request is malformed and never returns a null pointer, so the branch for one does
  not occur.  The body is a C string.
\<close>

definition ParseRequest :: "'ssl platform \<Rightarrow> ustring \<Rightarrow> nat \<Rightarrow> ('ssl, ExecutableDefinition option) server" where
  "ParseRequest env read_buffer n =
     bind (result_of (Parse (HttpParser_new read_buffer n))) (\<lambda>(request, _).
     bind take_ticket (\<lambda>ticket.
     bind (allocate_from_pool (node_requests env gateway_schema) ticket) (\<lambda>ticket.
     bind (result_of (GraphQlSchema_new (stack_depth env) (pool_zeroed env) gateway_schema)) (\<lambda>schema.
     let graphql_executor = add_schema schema (GraphQlExecutor_new (pool_zeroed env)) in
     case rq_body request of
       None \<Rightarrow> ret None
     | Some body \<Rightarrow>
         bind (result_of (json_query env (cstr body))) (\<lambda>graphql_query.
         bind (allocate_from_pool (node_requests env graphql_query) ticket) (\<lambda>_.
         bind (result_of (Execute graphql_query graphql_executor)) (\<lambda>(executable_definition, _).
         ret (Some executable_definition))))))))"

fun find_default_operation :: "OperationDefinition list \<Rightarrow> flash_error + OperationDefinition option" where
  "find_default_operation [] = Inr None"
| "find_default_operation (op # ops) =
     (case op_name op of
        None \<Rightarrow> Inl (Undefined_behaviour ''invalid pointer'')
      | Some name \<Rightarrow>
          if nm_identifier name = u ''default_operation'' then Inr (Some op) else find_default_operation ops)"

definition choose_operation :: "OperationDefinition list \<Rightarrow> flash_error + OperationDefinition option" where
  "choose_operation ops = (case ops of [op] \<Rightarrow> Inr (Some op) | _ \<Rightarrow> find_default_operation ops)"

definition selection_kind :: "Selection \<Rightarrow> SyntaxKind" where
  "selection_kind sel = (case sel of
     InlineFragment sy _ _ \<Rightarrow> syntax_kind sy
   | Field_selection sy _ _ _ _ _ \<Rightarrow> syntax_kind sy
   | FragmentSpread sy _ _ \<Rightarrow> syntax_kind sy)"

definition selection_name :: "Selection \<Rightarrow> Name option" where
  "selection_name sel = (case sel of Field_selection _ _ name _ _ _ \<Rightarrow> name | _ \<Rightarrow> None)"

definition emplace_field :: "ustring \<Rightarrow> Selection \<Rightarrow> GatewayClient \<Rightarrow> GatewayClient" where
  "emplace_field key field c =
     (if map_of (gc_fields c) key = None then c\<lparr>gc_fields := gc_fields c @ [(key, field)]\<rparr> else c)"

text \<open>The loop over the selections; \<open>False\<close> where it returns from \<open>on_read\<close>.\<close>

fun forward_selections ::
  "'ssl platform \<Rightarrow> FragmentDefinition list \<Rightarrow> Selection list \<Rightarrow> ('ssl, bool) server" where
  "forward_selections env fragments [] = ret True"
| "forward_selections env fragments (selection # selections) =
     (if selection_kind selection \<noteq> S_Field then ret False
      else
        bind (valid_pointer (selection_name selection)) (\<lambda>name.
        let key = cstr (nm_identifier name) in
        case map_of field_to_endpoint key of
          None \<Rightarrow> ret False
        | Some endpoint \<Rightarrow>
            bind (modify (\<lambda>s. s\<lparr>sv_client := (emplace_field key selection (sv_client s))
              \<lparr>gc_fragments := Some fragments\<rparr>\<rparr>)) (\<lambda>_.
            bind (gets (\<lambda>s. length (sv_requests s))) (\<lambda>i.
            bind (modify (\<lambda>s. s\<lparr>sv_requests := sv_requests s @
              [\<lparr>cr_hostname = be_hostname endpoint, cr_port = be_port endpoint, cr_host = be_host endpoint,
                cr_path = be_path endpoint, cr_tcp_handle = None\<rparr>]\<rparr>)) (\<lambda>_.
            bind (ForwardRequest env i) (\<lambda>_. forward_selections env fragments selections))))))"

definition dispatch_definition :: "'ssl platform \<Rightarrow> ExecutableDefinition \<Rightarrow> ('ssl, bool) server" where
  "dispatch_definition env d =
     bind (result_of (choose_operation (xd_operation_definitions d))) (\<lambda>operation.
     case operation of
       None \<Rightarrow> ret False
     | Some op \<Rightarrow>
         bind (valid_pointer (op_selection_set op)) (\<lambda>ss.
         case ss of SelectionSet _ selections \<Rightarrow>
           forward_selections env (xd_fragment_definitions d) selections))"

text \<open>\<open>on_read\<close> once data is decrypted, up to the point where it frees its buffer.\<close>

definition on_decrypted :: "'ssl platform \<Rightarrow> int \<Rightarrow> ustring \<Rightarrow> ('ssl, unit) server" where
  "on_decrypted env read_size read_buffer =
     bind (if read_size = 0 then ret True
           else
             bind (ParseRequest env read_buffer (nat read_size)) (\<lambda>executable_definition.
             case executable_definition of
               None \<Rightarrow> ret False
             | Some d \<Rightarrow> dispatch_definition env d)) (\<lambda>to_the_end.
     if to_the_end then emit Free_buffer else ret ())"

definition on_read :: "'ssl platform \<Rightarrow> nat \<Rightarrow> int \<Rightarrow> ustring \<Rightarrow> ('ssl, unit) server" where
  "on_read env h len base =
     (if len = 0 then bind (emit Free_buffer) (\<lambda>_. emit (Uv_close h))
      else
        bind (on_session (\<lambda>ssl. (SSL_is_init_finished env ssl, ssl))) (\<lambda>finished.
        bind (on_session (\<lambda>ssl. ((), BIO_write env len base ssl))) (\<lambda>_.
        if \<not> finished then
          bind (on_session (\<lambda>ssl. ((), SSL_accept env ssl))) (\<lambda>_. FlushWriteBio env)
        else
          bind (on_session (SSL_read env 10240)) (\<lambda>(read_size, read_buffer).
          if read_size < 0 then handle_error read_size
          else on_decrypted env read_size read_buffer))))"

section \<open>Connections and the life of the server\<close>

definition OnNewConnection :: "'ssl platform \<Rightarrow> int \<Rightarrow> int \<Rightarrow> int \<Rightarrow> ('ssl, unit) server" where
  "OnNewConnection env status accept_result read_result =
     bind (if status < 0 then emit (Message ''New connection error %s'' status) else ret ()) (\<lambda>_.
     bind (modify (\<lambda>s. s\<lparr>sv_sessions := sv_sessions s @ [SSL_new env],
       sv_client := (sv_client s)\<lparr>gc_ssl_handle := Some (length (sv_sessions s))\<rparr>\<rparr>)) (\<lambda>_.
     bind new_handle (\<lambda>h.
     bind (modify (\<lambda>s. s\<lparr>sv_client := (sv_client s)\<lparr>gc_tcp_handle := Some h\<rparr>\<rparr>)) (\<lambda>_.
     if accept_result = 0 then
       bind (emit (Read_start h)) (\<lambda>_.
       if read_result = -1 then
         bind (emit (Message ''ERROR: uv_read_start error: %s'' read_result)) (\<lambda>_. emit Exit_process)
       else ret ())
     else emit (Uv_close h)))))"

definition HttpServer_Close :: "('ssl, unit) server" where
  "HttpServer_Close = emit Loop_close"

definition HandleSignal :: "('ssl, unit) server" where
  "HandleSignal = emit Loop_close"

definition OnInterval :: "int \<Rightarrow> ('ssl, unit) server" where
  "OnInterval ppid = bind (gets sv_parent_pid) (\<lambda>p. if ppid \<noteq> p then HttpServer_Close else ret ())"

definition cipher_list :: string where
  "cipher_list =
     ''ECDHE-RSA-AES256-GCM-SHA384:ECDHE-ECDSA-AES256-GCM-SHA384:'' @
     ''ECDHE-RSA-AES128-GCM-SHA256:ECDHE-ECDSA-AES128-GCM-SHA256:'' @
     ''DHE-RSA-AES128-GCM-SHA256:ECDHE-RSA-AES128-SHA256:'' @
     ''DHE-RSA-AES128-SHA256:ECDHE-RSA-AES256-SHA384:DHE-RSA-AES256-SHA384:'' @
     ''ECDHE-RSA-AES256-SHA256:DHE-RSA-AES256-SHA256:HIGH:!aNULL:!eNULL:'' @
     ''!EXPORT:!DES:!RC4:!MD5:!PSK:!SRP:!CAMELLIA''"

text \<open>
  Parameters: \<open>resolve_path\<close> is \<open>resolve_paths\<close> below \<open>root_dir\<close>, \<open>key_made\<close> whether
  \<open>EC_KEY_new_by_curve_name\<close> gave a key, \<open>key_set\<close> the result of \<open>SSL_CTX_set_tmp_ecdh\<close>.
\<close>

definition SetSecurityContext :: "(string \<Rightarrow> string) \<Rightarrow> bool \<Rightarrow> int \<Rightarrow> flash_error + SSL_CTX" where
  "SetSecurityContext resolve_path key_made key_set =
     (if \<not> key_made then Inl (Logic_error ''Could not generate elliptic curve diffie hellman key.'')
      else if key_set \<noteq> 1 then Inl (Logic_error ''Could not set elliptic curve diffie hellman key.'')
      else Inr \<lparr>ctx_method = ''TLSv1_2_server_method'',
        ctx_options = [''SSL_OP_NO_SSLv2'', ''SSL_OP_NO_SSLv3'', ''SSL_OP_SINGLE_ECDH_USE'', ''SSL_OP_SINGLE_DH_USE'',
          ''SSL_OP_CIPHER_SERVER_PREFERENCE''],
        ctx_certificate = resolve_path ''certs/cert.pem'', ctx_private_key = resolve_path ''certs/key.pem'',
        ctx_cipher_list = cipher_list\<rparr>)"

text \<open>The state once \<open>Listen\<close> returns; \<open>address\<close> is that of the pool's memory.\<close>

definition Listen ::
  "ustring \<Rightarrow> nat \<Rightarrow> int \<Rightarrow> (string \<Rightarrow> string) \<Rightarrow> bool \<Rightarrow> int \<Rightarrow> nat \<Rightarrow> int \<Rightarrow> flash_error + 'ssl HttpServer" where
  "Listen host port ppid resolve_path key_made key_set address listen_result =
     (case SetSecurityContext resolve_path key_made key_set of
        Inl e \<Rightarrow> Inl e
      | Inr ctx \<Rightarrow>
          (case MemoryPool_new (1024 * 4 * 10000) (1024 * 4) address of
             Inl e \<Rightarrow> Inl e
           | Inr pool \<Rightarrow>
               Inr \<lparr>sv_parent_pid = ppid, sv_ssl_ctx = ctx, sv_memory_pool = pool,
                 sv_client = \<lparr>gc_tcp_handle = None, gc_ssl_handle = None, gc_fields = [], gc_fragments = None\<rparr>,
                 sv_sessions = [], sv_handles = 0, sv_requests = [],
                 sv_effects = (if listen_result \<noteq> 0 then [Message ''Listen error %s'' listen_result] else []),
                 sv_startup = [Signal_start ''SIGTERM'', Signal_start ''SIGINT'', Signal_start ''SIGHUP'', Timer_start 0 0,
                   Tcp_bind host port, Tcp_listen 128]\<rparr>))"

text \<open>\<open>main\<close> of \<open>program.cpp\<close>, up to the event loop.\<close>

definition program_main :: "int \<Rightarrow> (string \<Rightarrow> string) \<Rightarrow> bool \<Rightarrow> int \<Rightarrow> nat \<Rightarrow> int \<Rightarrow> flash_error + 'ssl HttpServer" where
  "program_main = Listen (u ''0.0.0.0'') 8000"

text \<open>What libuv can call next, with the arguments it passes.\<close>

datatype uv_event =
    New_connection int int int
  | Read nat int ustring
  | Write_ended int
  | Resolved nat "sockaddr option"
  | Connected nat int
  | Backend_read nat int
  | Interval int
  | Signal

definition run_callback :: "'ssl platform \<Rightarrow> uv_event \<Rightarrow> ('ssl, unit) server" where
  "run_callback env ev = (case ev of
     New_connection status accept_result read_result \<Rightarrow> OnNewConnection env status accept_result read_result
   | Read h len base \<Rightarrow> on_read env h len base
   | Write_ended status \<Rightarrow> OnWriteEnd status
   | Resolved i res \<Rightarrow> OnResolvedIpv4 env i res
   | Connected i status \<Rightarrow> OnClientConnect env i status
   | Backend_read h len \<Rightarrow> OnForwardRequestRead h len
   | Interval ppid \<Rightarrow> OnInterval ppid
   | Signal \<Rightarrow> HandleSignal)"

text \<open>
  When libuv makes a call: data arrives on a handle that is being read, a lookup or connection that was asked for
  completes, and nothing happens after the process has ended.
\<close>

definition may_occur :: "uv_event \<Rightarrow> 'ssl HttpServer \<Rightarrow> bool" where
  "may_occur ev s \<longleftrightarrow> Exit_process \<notin> set (sv_effects s) \<and> (case ev of
     Read h len base \<Rightarrow> Read_start h \<in> set (sv_effects s)
   | Backend_read h len \<Rightarrow> Read_start h \<in> set (sv_effects s)
   | Resolved i res \<Rightarrow> Lookup i \<in> set (sv_effects s)
   | Connected i status \<Rightarrow> list_ex (\<lambda>x. case x of Tcp_connect _ j _ \<Rightarrow> j = i | _ \<Rightarrow> False) (sv_effects s)
   | _ \<Rightarrow> True)"

end
