(* ===== verification/HttpParsing.thy ===== *)
theory HttpParsing
  imports HttpParser
begin

text \<open>
  Properties of the HTTP parser: where it may read, what it makes of a request line and of a header
  line, which headers it can never recognise, and how much of a body it takes.
\<close>

section \<open>Saved cursors\<close>

definition http_reverted :: "HttpScanner \<Rightarrow> HttpScanner" where
  "http_reverted s = (case http_revert s of Inl _ \<Rightarrow> s | Inr (_, t) \<Rightarrow> t)"

definition http_cursor :: "HttpScanner \<Rightarrow> HttpSavedTextCursor" where
  "http_cursor s = \<lparr>hc_position = hs_position s, hc_start_position = hs_start_position s,
     hc_end_position = hs_end_position s\<rparr>"

interpretation hs_cursor: saved_cursor http_save http_reverted http_cursor hs_saved_text_cursors
  by unfold_locales
     (auto simp: http_save_def http_reverted_def http_revert_def http_cursor_def)

lemma http_revert_reverted:
  "hs_saved_text_cursors s \<noteq> [] \<Longrightarrow> http_revert s = Inr ((), http_reverted s)"
  by (auto simp: http_reverted_def http_revert_def split: list.split)

lemma http_reverted_frame [simp]:
  "hs_text (http_reverted s) = hs_text s" "hs_size (http_reverted s) = hs_size s"
  by (auto simp: http_reverted_def http_revert_def split: list.split)

section \<open>Memory safety\<close>

text \<open>
  \<open>room n d s\<close>: the request has \<open>n\<close> bytes, the position is at most \<open>d\<close> bytes past them, and eight bytes of the buffer lie
  behind it.  \<open>guarded_from d m d'\<close>: from such a state \<open>m\<close> reads inside the buffer, and ends in such a
  state, with \<open>d'\<close>, or in a \<open>std::logic_error\<close> (or in an \<open>atoll\<close> that is out of range).
\<close>

definition room :: "nat \<Rightarrow> nat \<Rightarrow> HttpScanner \<Rightarrow> bool" where
  "room n d s \<longleftrightarrow> hs_size s = n \<and> hs_position s \<le> hs_size s + d \<and> hs_size s + 8 \<le> length (hs_text s)"

definition rejected :: "flash_error \<Rightarrow> bool" where
  "rejected e \<longleftrightarrow> (\<exists>msg. e = Logic_error msg) \<or> e = Undefined_behaviour ''atoll out of range''"

definition guarded_from :: "nat \<Rightarrow> (HttpScanner, 'a) exec \<Rightarrow> nat \<Rightarrow> bool" where
  "guarded_from d m d' \<longleftrightarrow> (\<forall>n s. room n d s \<longrightarrow> wp m (\<lambda>_. room n d') rejected s)"

abbreviation guarded :: "(HttpScanner, 'a) exec \<Rightarrow> bool" where
  "guarded m \<equiv> guarded_from 0 m 0"

named_theorems guarded_intros \<open>operations that stay inside the buffer\<close>

lemma guardedI: "(\<And>n s. room n d s \<Longrightarrow> wp m (\<lambda>_. room n d') rejected s) \<Longrightarrow> guarded_from d m d'"
  by (simp add: guarded_from_def)

lemma guardedD: "guarded_from d m d' \<Longrightarrow> room n d s \<Longrightarrow> wp m (\<lambda>_. room n d') rejected s"
  by (simp add: guarded_from_def)

lemma guarded_from_bind:
  assumes "guarded_from d m d'" and "\<And>x. guarded_from d' (f x) d''"
  shows "guarded_from d (bind m f) d''"
  using assms unfolding guarded_from_def wp_bind by (blast intro: wp_mono)

lemmas guarded_bind [guarded_intros] = guarded_from_bind [of 0 _ 0 _ 0]

lemma guarded_if [guarded_intros]:
  "guarded_from d m d' \<Longrightarrow> guarded_from d n d' \<Longrightarrow> guarded_from d (if b then m else n) d'"
  by simp

lemma guarded_ret [guarded_intros]: "guarded (ret x)"
  by (simp add: guarded_from_def wp_simps)

lemma guarded_throw [guarded_intros]: "guarded_from d (throw (Logic_error msg)) d'"
  by (simp add: guarded_from_def wp_simps rejected_def)

lemma guarded_start [guarded_intros]: "guarded (modify http_set_token_start_position)"
  by (simp add: guarded_from_def wp_simps room_def http_set_token_start_position_def)

lemma wp_http_current_char [wp_simps]:
  "hs_position s < length (hs_text s) \<Longrightarrow>
   wp http_current_char Q E s = Q (hs_text s ! hs_position s) s"
  by (simp add: wp_def http_current_char_def text_at_def)

lemma guarded_current_char [guarded_intros]: "guarded http_current_char"
  by (auto simp: guarded_from_def wp_simps room_def)

lemma wp_http_increment [wp_simps]:
  "wp http_increment_position Q E s =
     (if hs_position s \<ge> hs_size s
      then E (Logic_error ''You cannot increment more than max size.'')
      else Q () (s\<lparr>hs_position := hs_position s + 1\<rparr>))"
  by (simp add: wp_def http_increment_position_def)

lemma guarded_increment_from: "guarded_from d http_increment_position 0"
  by (auto simp: guarded_from_def wp_simps room_def rejected_def)

lemmas guarded_increment [guarded_intros] = guarded_increment_from [of 0]

lemma guarded_scan_expected_from: "d \<le> 7 \<Longrightarrow> guarded_from d (http_scan_expected ch) 0"
  using guarded_increment_from [of d]
  by (auto simp: http_scan_expected_def guarded_from_def wp_simps room_def rejected_def)

lemmas guarded_scan_expected [guarded_intros] = guarded_scan_expected_from [of 0, simplified]

lemma wp_http_revert:
  "hs_saved_text_cursors s \<noteq> [] \<Longrightarrow> wp http_revert Q E s = Q () (http_reverted s)"
  by (simp add: wp_def http_revert_reverted)

lemma room_reverted:
  assumes "room n 0 s" and "hs_saved_text_cursors t = hs_saved_text_cursors (http_save s)"
    and "hs_text t = hs_text s" and "hs_size t = hs_size s"
  shows "room n 0 (http_reverted t)"
  using hs_cursor.revert_after(1) [OF assms(2)] assms by (simp add: room_def http_cursor_def)

lemma guarded_scan_optional [guarded_intros]: "guarded (scan_optional ch)"
proof (rule guardedI)
  fix n s assume s: "room n 0 s"
  then have "room n 0 (http_save s)" "room n 7 (http_save s)" by (simp_all add: room_def http_save_def)
  moreover have "room n 0 (http_reverted (http_save s))"
    using s by (rule room_reverted) (simp_all add: http_save_def)
  moreover have "hs_saved_text_cursors (http_save s) \<noteq> []" by (simp add: http_save_def)
  ultimately show "wp (scan_optional ch) (\<lambda>_. room n 0) rejected s"
    by (auto simp: scan_optional_def wp_simps wp_http_revert room_def rejected_def)
qed

lemma guarded_pchar [guarded_intros]: "guarded (is_pchar ch)"
  unfolding is_pchar_def expect_hexadecimal_def by (intro guarded_intros)

lemma guarded_token_value [guarded_intros]: "guarded (lift_result get_token_value)"
  by (auto simp: guarded_from_def wp_def lift_result_def get_token_value_def room_def Let_def)

lemma guarded_lower_cased_value [guarded_intros]: "guarded (lift_result get_lower_cased_value)"
  by (auto simp: guarded_from_def wp_def lift_result_def get_lower_cased_value_def room_def)

lemma guarded_pchar_loop [guarded_intros]: "guarded (pchar_loop extra ch)"
proof (rule guardedI)
  fix n s assume "room n 0 s"
  then show "wp (pchar_loop extra ch) (\<lambda>_. room n 0) rejected s"
  proof (induction extra ch s rule: pchar_loop.induct)
    case (1 extra ch s)
    show ?case
    proof (cases "hs_position s < hs_size s")
      case False
      then show ?thesis using "1.prems" by (simp add: wp_def pchar_loop.simps)
    next
      case True
      note unfold = wp_def pchar_loop.simps [of extra ch s] True
      show ?thesis
      proof (cases "is_pchar ch s")
        case (Inl e)
        with guardedD [OF guarded_pchar "1.prems", of ch] True show ?thesis by (simp add: unfold)
      next
        case (Inr p)
        obtain b s1 where p: "p = (b, s1)" by (cases p)
        with Inr guardedD [OF guarded_pchar "1.prems", of ch] have s1: "room n 0 s1" by (simp add: wp_def)
        show ?thesis
        proof (cases "(b \<or> ch \<in> extra) \<and> hs_position s1 < hs_size s1")
          case False
          with Inr p s1 True show ?thesis
            by (auto simp: unfold http_increment_position_def rejected_def)
        next
          case go: True
          let ?s2 = "s1\<lparr>hs_position := hs_position s1 + 1\<rparr>"
          have s2: "room n 0 ?s2" using s1 go by (simp add: room_def)
          then have c: "http_current_char ?s2 = Inr (hs_text ?s2 ! hs_position ?s2, ?s2)"
            by (simp add: http_current_char_def text_at_def room_def)
          have i: "http_increment_position s1 = Inr ((), ?s2)"
            using go by (simp add: http_increment_position_def)
          from "1.IH" [OF True Inr p [symmetric] conjunct1 [OF go] i refl c refl s2] go Inr p i c True
          show ?thesis by (simp add: unfold)
        qed
      qed
    qed
  qed
qed

lemma guarded_scan_method [guarded_intros]: "guarded scan_method"
  by (rule guardedI)
     (auto simp: scan_method_def wp_simps skip_bytes_def room_def rejected_def)

lemma guarded_request_target [guarded_intros]:
  "guarded scan_absolute_path" "guarded scan_query"
  unfolding scan_absolute_path_def scan_query_def next_char_is_def by (intro guarded_intros)+

lemma guarded_http_version: "guarded_from 0 scan_http_version 7"
proof -
  have "guarded_from 0 (modify (skip_bytes 7)) 7"
    by (simp add: guarded_from_def wp_simps room_def skip_bytes_def)
  moreover have "guarded_from 7 (bind http_current_char (\<lambda>ch. ret HttpVersion1_1)) 7"
    by (simp add: guarded_from_def wp_simps room_def)
  ultimately show ?thesis
    unfolding scan_http_version_def
    by (intro guarded_from_bind [of 0 _ 0] guarded_from_bind [of 0 _ 7] guarded_scan_expected)
qed

lemma guarded_version_line:
  "guarded (bind scan_http_version (\<lambda>_. bind (http_scan_expected CarriageReturn) (\<lambda>_.
     bind (http_scan_expected NewLine) (\<lambda>_. ret x))))"
proof -
  have "guarded_from 7 (bind (http_scan_expected CarriageReturn) (\<lambda>_.
      bind (http_scan_expected NewLine) (\<lambda>_. ret x))) 0"
    by (rule guarded_from_bind [OF guarded_scan_expected_from]) (simp, intro guarded_intros)
  from guarded_from_bind [OF guarded_http_version this] show ?thesis .
qed

lemma guarded_request_line [guarded_intros]: "guarded ParseRequestLine"
  unfolding ParseRequestLine_def
  by (intro guarded_version_line guarded_bind guarded_scan_method guarded_scan_expected
      guarded_request_target)

lemma guarded_skip_blanks:
  "room n 0 s \<Longrightarrow> wp (skip_blanks ch) (\<lambda>_ t. room n 0 t \<and> hs_saved_text_cursors t = hs_saved_text_cursors s \<and>
     hs_text t = hs_text s \<and> hs_size t = hs_size s) rejected s"
proof (induction ch s rule: skip_blanks.induct)
  case (1 ch s)
  show ?case
  proof (cases "hs_position s < hs_size s \<and> is_blank_char ch")
    case False
    with "1.prems" show ?thesis by (auto simp: wp_def skip_blanks.simps [of ch s])
  next
    case True
    let ?s = "s\<lparr>hs_position := hs_position s + 1\<rparr>"
    have s: "room n 0 ?s" using True "1.prems" by (simp add: room_def)
    then have c: "http_current_char ?s = Inr (hs_text ?s ! hs_position ?s, ?s)"
      by (simp add: http_current_char_def text_at_def room_def)
    from "1.IH" [OF True refl c refl s] c True show ?thesis
      by (simp add: wp_def skip_blanks.simps [of ch s])
  qed
qed

lemma guarded_field_content [guarded_intros]: "guarded scan_field_content"
proof (rule guardedI)
  fix n s assume s: "room n 0 s"
  have undo: "wp http_revert (\<lambda>_ r. room n 0 r) rejected t"
    if "hs_saved_text_cursors t = hs_saved_text_cursors (http_save s)"
      "hs_text t = hs_text s" "hs_size t = hs_size s" for t
    using that room_reverted [OF s that] by (subst wp_http_revert) (simp_all add: http_save_def)
  have blanks: "wp (bind (skip_blanks c) (\<lambda>_. bind http_current_char (\<lambda>ch.
         if \<not> is_vchar ch then bind http_revert (\<lambda>_. ret False)
         else bind http_increment_position (\<lambda>_. ret True)))) (\<lambda>_. room n 0) rejected t"
    if "room n 0 t" "hs_saved_text_cursors t = hs_saved_text_cursors (http_save s)"
      "hs_text t = hs_text s" "hs_size t = hs_size s" for c t
    unfolding wp_bind
    by (rule wp_mono [OF guarded_skip_blanks [OF that(1)]])
       (use that undo in \<open>auto simp: wp_simps room_def rejected_def\<close>)
  show "wp scan_field_content (\<lambda>_. room n 0) rejected s"
    using s undo blanks
    by (auto simp: scan_field_content_def wp_simps room_def http_save_def rejected_def)
qed

lemma guarded_header_value [guarded_intros]: "guarded scan_header_value"
proof (rule guardedI)
  fix n s assume "room n 0 s"
  then show "wp scan_header_value (\<lambda>_. room n 0) rejected s"
  proof (induction s rule: scan_header_value.induct)
    case (1 s)
    note content = guardedD [OF guarded_field_content "1.prems"]
    show ?case
    proof (cases "hs_position s < hs_size s")
      case False
      with "1.prems" show ?thesis by (simp add: wp_def scan_header_value.simps)
    next
      case True
      note unfold = wp_def scan_header_value.simps [of s] True
      show ?thesis
      proof (cases "scan_field_content s")
        case (Inl e)
        with content True show ?thesis by (simp add: unfold)
      next
        case (Inr p)
        obtain b s1 where p: "p = (b, s1)" by (cases p)
        with Inr content have s1: "room n 0 s1" by (simp add: wp_def)
        then have c: "http_current_char s1 = Inr (hs_text s1 ! hs_position s1, s1)"
          by (simp add: http_current_char_def text_at_def room_def)
        have i: "http_increment_position s1 = Inr ((), s1\<lparr>hs_position := hs_position s1 + 1\<rparr>)"
          "room n 0 (s1\<lparr>hs_position := hs_position s1 + 1\<rparr>)" if "hs_position s1 < hs_size s1"
          using that s1 by (simp_all add: http_increment_position_def room_def)
        show ?thesis
          using "1.IH"(1) [OF True Inr p [symmetric] _ s1]
            "1.IH"(2) [OF True Inr p [symmetric] _ c refl _ i(1) refl i(2)] Inr p c i True s1
          by (cases "hs_position s1 < hs_size s1")
             (auto simp: unfold http_increment_position_def rejected_def)
      qed
    qed
  qed
qed

lemma guarded_header_name [guarded_intros]: "guarded scan_header_name"
proof (rule guardedI)
  fix n s assume "room n 0 s"
  then show "wp scan_header_name (\<lambda>_. room n 0) rejected s"
  proof (induction s rule: scan_header_name.induct)
    case (1 s)
    have c: "http_current_char s = Inr (hs_text s ! hs_position s, s)"
      using "1.prems" by (simp add: http_current_char_def text_at_def room_def)
    show ?case
    proof (cases "hs_position s < hs_size s")
      case True
      moreover have "room n 0 (s\<lparr>hs_position := hs_position s + 1\<rparr>)" using True "1.prems" by (simp add: room_def)
      ultimately show ?thesis
        using "1.IH" [OF True c refl] c "1.prems" by (auto simp: wp_def scan_header_name.simps [of s])
    qed (use "1.prems" in \<open>simp add: wp_def scan_header_name.simps [of s]\<close>)
  qed
qed

lemma guarded_current_header [guarded_intros]: "guarded (modify (\<lambda>s. s\<lparr>hs_current_header := Some v\<rparr>))"
  by (simp add: guarded_from_def wp_simps room_def)

lemma guarded_scan_header [guarded_intros]: "guarded scan_header"
  unfolding scan_header_def by (intro guarded_intros)

lemma guarded_headers_loop [guarded_intros]: "guarded (headers_loop headers)"
proof (rule guardedI)
  fix n s assume "room n 0 s"
  then show "wp (headers_loop headers) (\<lambda>_. room n 0) rejected s"
  proof (induction headers s rule: headers_loop.induct)
    case (1 headers s)
    note header = guardedD [OF guarded_scan_header "1.prems"]
    show ?case
    proof (cases "scan_header s")
      case (Inl e)
      with header show ?thesis by (simp add: wp_def headers_loop.simps)
    next
      case (Inr p)
      obtain h t where p: "p = (h, t)" by (cases p)
      with Inr header have t: "room n 0 t" by (simp add: wp_def)
      from "1.IH" [OF Inr p [symmetric] _ t] Inr p t show ?thesis
        by (cases "h = H_End") (simp_all add: wp_def headers_loop.simps [of headers s] fun_upd_def)
    qed
  qed
qed

lemma body_loop_position:
  "hs_position s \<le> hs_size s \<Longrightarrow>
   body_loop n s = s\<lparr>hs_position := min (hs_position s + n) (hs_size s)\<rparr>"
proof (induction n s rule: body_loop.induct)
  case (1 n s)
  then show ?case by (subst body_loop.simps) (auto simp: min_def)
qed

lemma guarded_body [guarded_intros]: "guarded (scan_body len)"
proof -
  have "guarded (modify (body_loop n))" for n
    by (auto simp: guarded_from_def wp_simps room_def body_loop_position)
  then show ?thesis unfolding scan_body_def by (intro guarded_intros)
qed

lemma guarded_atoll [guarded_intros]: "guarded (lift_result (\<lambda>_. atoll str))"
  by (auto simp: guarded_from_def wp_def lift_result_def atoll_def Let_def rejected_def split: sum.split if_splits)

lemma guarded_option [guarded_intros]:
  "guarded m \<Longrightarrow> (\<And>x. guarded (f x)) \<Longrightarrow> guarded (case v of None \<Rightarrow> m | Some x \<Rightarrow> f x)"
  by (cases v) simp_all



section \<open>The request line\<close>

text \<open>The rest of the request, and moving over \<open>n\<close> bytes of it.\<close>

definition ahead :: "HttpScanner \<Rightarrow> ustring" where
  "ahead s = take (hs_size s - hs_position s) (drop (hs_position s) (hs_text s))"

lemma ahead_ConsD:
  assumes "ahead s = c # r"
  shows "hs_position s < hs_size s" and "hs_position s < length (hs_text s)"
    and "hs_text s ! hs_position s = c" and "ahead (skip_bytes 1 s) = r"
    and "http_current_char s = Inr (c, s)" and "http_increment_position s = Inr ((), skip_bytes 1 s)"
proof -
  show pos: "hs_position s < hs_size s" "hs_position s < length (hs_text s)"
    using assms by (auto simp: ahead_def not_le intro: leI)
       (metis diff_is_0_eq' linorder_not_le list.distinct(1) take0, metis drop_all linorder_not_le list.distinct(1) take_Nil)
  then have "drop (hs_position s) (hs_text s) = hs_text s ! hs_position s # drop (Suc (hs_position s)) (hs_text s)"
    and d: "hs_size s - hs_position s = Suc (hs_size s - Suc (hs_position s))"
    by (simp_all add: Cons_nth_drop_Suc)
  with assms show c: "hs_text s ! hs_position s = c" and "ahead (skip_bytes 1 s) = r"
    by (simp_all add: ahead_def skip_bytes_def)
  from pos c show "http_current_char s = Inr (c, s)"
    "http_increment_position s = Inr ((), skip_bytes 1 s)"
    by (simp_all add: http_current_char_def text_at_def http_increment_position_def skip_bytes_def)
qed

lemma skip_bytes_simps [simp]:
  "skip_bytes 0 s = s" "skip_bytes m (skip_bytes n s) = skip_bytes (n + m) s"
  "hs_text (skip_bytes n s) = hs_text s" "hs_size (skip_bytes n s) = hs_size s"
  "hs_position (skip_bytes n s) = hs_position s + n"
  "hs_start_position (skip_bytes n s) = hs_start_position s"
  "hs_current_header (skip_bytes n s) = hs_current_header s"
  by (simp_all add: skip_bytes_def add.assoc)

lemma ahead_skip: "ahead (skip_bytes n s) = drop n (ahead s)"
  by (simp add: ahead_def drop_take add.commute)

lemma scan_expected_ahead:
  "ahead s = c # r \<Longrightarrow> http_scan_expected c s = Inr ((), skip_bytes 1 s)"
  by (simp add: http_scan_expected_def exec_simps ahead_ConsD)

text \<open>States that differ in the saved cursors only are treated alike by what follows.\<close>

definition path_char :: "nat \<Rightarrow> bool" where
  "path_char c \<longleftrightarrow> is_unreserved_char c \<or> is_sub_delimiter c \<or> c = Colon_char \<or> c = At_char"

lemma is_pchar_path: "path_char c \<Longrightarrow> is_pchar c s = Inr (True, s)"
  by (auto simp: path_char_def is_pchar_def exec_simps)

lemma is_pchar_other: "\<not> path_char c \<Longrightarrow> c \<noteq> Percent \<Longrightarrow> is_pchar c s = Inr (False, s)"
  by (auto simp: path_char_def is_pchar_def exec_simps)

lemma pchar_loop_ahead:
  assumes "ahead s = cs @ d # r" and "list_all (\<lambda>c. path_char c \<or> c \<in> extra \<and> c \<noteq> Percent) cs"
    and "\<not> path_char d" and "d \<noteq> Percent" and "d \<notin> extra"
  shows "pchar_loop extra (hd (ahead s)) s = Inr ((), skip_bytes (length cs) s)"
  using assms
proof (induction cs arbitrary: s)
  case Nil
  then show ?case
    using ahead_ConsD(1) [of s d r] by (subst pchar_loop.simps) (simp add: is_pchar_other)
next
  case (Cons c cs)
  let ?s = "skip_bytes 1 s"
  have a: "ahead s = c # cs @ d # r" using Cons.prems by simp
  note step = ahead_ConsD [OF a]
  obtain e q where eq: "cs @ d # r = e # q" by (cases cs) auto
  obtain b where p: "is_pchar c s = Inr (b, s)" "b \<or> c \<in> extra"
    using Cons.prems(2) is_pchar_path [of c s] is_pchar_other [of c s] by auto
  have "http_current_char ?s = Inr (hd (ahead ?s), ?s)"
    using step(4) eq ahead_ConsD(5) [of ?s e q] by simp
  moreover have "pchar_loop extra (hd (ahead ?s)) ?s = Inr ((), skip_bytes (length cs) ?s)"
    using Cons.prems step(4) by (intro Cons.IH) simp_all
  ultimately show ?case
    using p step(1,6) a by (subst pchar_loop.simps) simp
qed

lemma get_token_value_ahead:
  assumes "ahead s = cs @ d # r" and "hs_start_position s = hs_position s" and "0 \<notin> set cs"
  shows "get_token_value (skip_bytes (length cs) s) = Inr cs"
proof -
  have "ahead (skip_bytes (length cs) s) = d # r" using assms(1) by (simp add: ahead_skip)
  note pos = ahead_ConsD(2) [OF this]
  have "take (length cs) (drop (hs_position s) (hs_text s)) = cs"
    using arg_cong [OF assms(1), of "take (length cs)"] pos
    by (auto simp: ahead_def min_def split: if_splits)
  with pos assms show ?thesis by (simp add: get_token_value_def Let_def)
qed

lemma set_start_simps [simp]:
  "ahead (http_set_token_start_position s) = ahead s"
  "hs_start_position (http_set_token_start_position s) = hs_position s"
  "hs_position (http_set_token_start_position s) = hs_position s"
  by (simp_all add: ahead_def http_set_token_start_position_def)

definition stops :: "nat set \<Rightarrow> nat \<Rightarrow> bool" where
  "stops extra d \<longleftrightarrow> \<not> path_char d \<and> d \<noteq> Percent \<and> d \<notin> extra"

lemma path_char_nonzero: "path_char c \<Longrightarrow> c \<noteq> 0"
  by (auto simp: path_char_def is_unreserved_char_def is_sub_delimiter_def isalnum_def)

lemma no_null:
  assumes "list_all (\<lambda>c. path_char c \<or> c \<in> extra \<and> c \<noteq> Percent) cs" and "0 \<notin> extra"
  shows "0 \<notin> set cs"
  using assms path_char_nonzero by (auto simp: list_all_iff)

lemma scan_absolute_path_ahead:
  assumes "ahead s = (Slash # p) @ d # r" and "list_all (\<lambda>c. path_char c \<or> c = Slash) p"
    and "stops {Slash} d"
  shows "\<exists>t. scan_absolute_path s = Inr (Slash # p, t) \<and> ahead t = d # r"
proof -
  let ?s = "http_set_token_start_position s"
  let ?t = "skip_bytes (length (Slash # p)) ?s"
  have a: "ahead ?s = Slash # p @ d # r" using assms(1) by simp
  note step = ahead_ConsD [OF a]
  obtain e q where eq: "p @ d # r = e # q" by (cases p) auto
  have p: "list_all (\<lambda>c. path_char c \<or> c \<in> {Slash} \<and> c \<noteq> Percent) p"
    using assms(2) by (auto simp: list_all_iff)
  have "pchar_loop {Slash} (hd (ahead (skip_bytes 1 ?s))) (skip_bytes 1 ?s) =
      Inr ((), skip_bytes (length p) (skip_bytes 1 ?s))"
    using assms(3) step(4) p by (intro pchar_loop_ahead) (auto simp: stops_def)
  moreover have "http_current_char (skip_bytes 1 ?s) = Inr (hd (ahead (skip_bytes 1 ?s)), skip_bytes 1 ?s)"
    using step(4) eq ahead_ConsD(5) [of "skip_bytes 1 ?s" e q] by simp
  moreover have "get_token_value ?t = Inr (Slash # p)"
    using assms(1) no_null [OF p] by (intro get_token_value_ahead) simp_all
  ultimately have "scan_absolute_path s = Inr (Slash # p, ?t)"
    using scan_expected_ahead [OF a]
    by (simp add: scan_absolute_path_def exec_simps lift_result_def)
  then show ?thesis using assms(1) by (simp add: ahead_skip)
qed

lemma ahead_cong:
  "hs_text t = hs_text s \<Longrightarrow> hs_size t = hs_size s \<Longrightarrow> hs_position t = hs_position s \<Longrightarrow> ahead t = ahead s"
  by (simp add: ahead_def)

lemma scan_optional_no:
  assumes "ahead s = d # r" and "d \<noteq> c"
  shows "\<exists>t. scan_optional c s = Inr (False, t) \<and> ahead t = d # r \<and>
    hs_position t = hs_position s \<and> hs_start_position t = hs_start_position s"
proof -
  have "http_current_char (http_save s) = Inr (d, http_save s)"
    using assms(1) by (intro ahead_ConsD(5)) (simp add: ahead_def http_save_def)
  then have "scan_optional c s = Inr (False, http_reverted (http_save s))"
    using assms(2) by (simp add: scan_optional_def exec_simps http_revert_reverted http_save_def)
  moreover have "http_cursor (http_reverted (http_save s)) = http_cursor s"
    by (rule hs_cursor.revert_save)
  ultimately show ?thesis
    using assms(1) ahead_cong [of "http_reverted (http_save s)" s]
    by (simp add: http_cursor_def http_save_simps)
qed

lemma scan_optional_yes:
  assumes "ahead s = c # r"
  shows "scan_optional c s = Inr (True, skip_bytes 1 (http_save s))"
proof -
  have "ahead (http_save s) = c # r" using assms by (simp add: ahead_def http_save_def)
  from ahead_ConsD [OF this] show ?thesis by (simp add: scan_optional_def exec_simps)
qed

lemma get_token_value_empty:
  "ahead s = d # r \<Longrightarrow> hs_position s = hs_start_position s \<Longrightarrow> get_token_value s = Inr []"
  using ahead_ConsD(2) [of s d r] by (simp add: get_token_value_def cstr_def)

lemma scan_query_none:
  assumes "ahead s = d # r" and "d \<noteq> Question"
  shows "\<exists>t. scan_query s = Inr ([], t) \<and> ahead t = d # r"
proof -
  obtain t where t: "scan_optional Question (http_set_token_start_position s) = Inr (False, t)"
    "ahead t = d # r" "hs_position t = hs_position s" "hs_start_position t = hs_position s"
    using scan_optional_no [of "http_set_token_start_position s" d r Question] assms by auto
  with get_token_value_empty [OF t(2)] show ?thesis
    by (simp add: scan_query_def next_char_is_def exec_simps bind_def [of "scan_optional Question"]
        lift_result_def)
qed

lemma scan_query_some:
  assumes "ahead s = (Question # p) @ d # r"
    and "list_all (\<lambda>c. path_char c \<or> c = Slash \<or> c = Question) p" and "stops {Slash, Question} d"
  shows "\<exists>t. scan_query s = Inr (Question # p, t) \<and> ahead t = d # r"
proof -
  let ?s = "http_save (http_set_token_start_position s)"
  let ?t = "skip_bytes (length (Question # p)) ?s"
  have s: "ahead ?s = (Question # p) @ d # r"
    using assms(1) ahead_cong [of ?s s] by (simp add: http_save_simps http_set_token_start_position_def)
  then have a: "ahead ?s = Question # p @ d # r" by simp
  note step = ahead_ConsD [OF a]
  obtain e q where eq: "p @ d # r = e # q" by (cases p) auto
  have p: "list_all (\<lambda>c. path_char c \<or> c \<in> {Slash, Question} \<and> c \<noteq> Percent) p"
    using assms(2) by (auto simp: list_all_iff)
  have "pchar_loop {Slash, Question} (hd (ahead (skip_bytes 1 ?s))) (skip_bytes 1 ?s) =
      Inr ((), skip_bytes (length p) (skip_bytes 1 ?s))"
    using assms(3) step(4) p by (intro pchar_loop_ahead) (auto simp: stops_def)
  moreover have "http_current_char (skip_bytes 1 ?s) = Inr (hd (ahead (skip_bytes 1 ?s)), skip_bytes 1 ?s)"
    using step(4) eq ahead_ConsD(5) [of "skip_bytes 1 ?s" e q] by simp
  moreover have "get_token_value ?t = Inr (Question # p)"
    using s no_null [OF p] by (intro get_token_value_ahead) (simp_all add: http_save_simps)
  moreover have "scan_optional Question (http_set_token_start_position s) = Inr (True, skip_bytes 1 ?s)"
    using assms(1) by (intro scan_optional_yes) simp
  ultimately have "scan_query s = Inr (Question # p, ?t)"
    by (simp add: scan_query_def next_char_is_def exec_simps lift_result_def)
  then show ?thesis using s by (simp add: ahead_skip)
qed

definition method_name :: "HttpMethod \<Rightarrow> ustring" where
  "method_name m = u (case m of M_None \<Rightarrow> '''' | Get \<Rightarrow> ''GET'' | Post \<Rightarrow> ''POST'' | Put \<Rightarrow> ''PUT''
     | Delete \<Rightarrow> ''DELETE'' | Patch \<Rightarrow> ''PATCH'' | Head \<Rightarrow> ''HEAD'' | Connect \<Rightarrow> ''CONNECT''
     | Options \<Rightarrow> ''OPTIONS'' | Trace \<Rightarrow> ''TRACE'')"

lemma scan_method_one:
  assumes "http_current_char s = Inr (c, s)" and "hs_position s + n < hs_size s"
    and "(c, n, m) \<in> {(67, 7, Connect), (68, 6, Delete), (71, 3, Get), (72, 4, Head), (79, 7, Options),
      (84, 5, Trace)}"
  shows "scan_method s = Inr (m, skip_bytes n s)"
  using assms by (elim insertE emptyE) (simp_all add: scan_method_def bind_def exec_basic)

lemma scan_method_two:
  assumes "http_current_char s = Inr (80, s)" and "http_increment_position s = Inr ((), skip_bytes 1 s)"
    and "http_current_char (skip_bytes 1 s) = Inr (c, skip_bytes 1 s)"
    and "hs_position s + Suc n < hs_size s"
    and "(c, n, m) \<in> {(65, 4, Patch), (79, 3, Post), (85, 2, Put)}"
  shows "scan_method s = Inr (m, skip_bytes (Suc n) s)"
  using assms by (elim insertE emptyE) (simp_all add: scan_method_def bind_def exec_basic numeral_3_eq_3)

lemma scan_method_ahead:
  assumes "ahead s = method_name m @ d # r" and "m \<noteq> M_None"
  shows "scan_method s = Inr (m, skip_bytes (length (method_name m)) s)"
proof -
  obtain c e cs where c: "method_name m = c # e # cs"
    using assms(2) by (cases m) (auto simp: method_name_def)
  have a: "ahead s = c # e # cs @ d # r" using assms(1) c by simp
  note step = ahead_ConsD [OF a]
  note second = ahead_ConsD(5) [OF step(4)]
  have "ahead (skip_bytes (length (method_name m)) s) = d # r" using assms(1) by (simp add: ahead_skip)
  note far = ahead_ConsD(1) [OF this, unfolded skip_bytes_simps]
  show ?thesis
  proof (cases "m \<in> {Patch, Post, Put}")
    case True
    then have "c = 80" "(e, length (method_name m) - 1, m) \<in> {(65, 4, Patch), (79, 3, Post), (85, 2, Put)}"
      using c by (auto simp: method_name_def)
    with scan_method_two [of s e "length (method_name m) - 1" m] step(5,6) second far c show ?thesis
      by simp
  next
    case False
    then have "(c, length (method_name m), m) \<in> {(67, 7, Connect), (68, 6, Delete), (71, 3, Get),
        (72, 4, Head), (79, 7, Options), (84, 5, Trace)}"
      using c assms(2) by (cases m) (auto simp: method_name_def)
    with scan_method_one [OF step(5) far] show ?thesis by blast
  qed
qed

lemma scan_http_version_ahead:
  assumes "ahead s = u ''HTTP/1.1'' @ d # r"
  shows "scan_http_version s = Inr (HttpVersion1_1, skip_bytes 8 s)"
proof -
  have a: "ahead s = 72 # u ''TTP/1.1'' @ d # r" using assms by simp
  have "ahead (skip_bytes 8 s) = d # r" using assms by (simp add: ahead_skip)
  with ahead_ConsD(5) [OF this] scan_expected_ahead [OF a] show ?thesis
    by (simp add: scan_http_version_def exec_simps)
qed

definition target :: "ustring \<Rightarrow> ustring option \<Rightarrow> ustring" where
  "target p q = (Slash # p) @ (case q of None \<Rightarrow> [] | Some x \<Rightarrow> Question # x)"

definition target_ok :: "ustring \<Rightarrow> ustring option \<Rightarrow> bool" where
  "target_ok p q \<longleftrightarrow> list_all (\<lambda>c. path_char c \<or> c = Slash) p \<and>
     (case q of None \<Rightarrow> True | Some x \<Rightarrow> list_all (\<lambda>c. path_char c \<or> c = Slash \<or> c = Question) x)"

lemma stops_chars: "stops {Slash} Question" "stops {Slash} Space" "stops {Slash, Question} Space"
  by (simp_all add: stops_def path_char_def is_unreserved_char_def is_sub_delimiter_def isalnum_def)

lemma scan_target_ahead:
  assumes "ahead s = target p q @ Space # r" and "target_ok p q"
  shows "\<exists>t t'. scan_absolute_path s = Inr (Slash # p, t) \<and>
    scan_query t = Inr (case q of None \<Rightarrow> [] | Some x \<Rightarrow> Question # x, t') \<and> ahead t' = Space # r"
proof (cases q)
  case None
  then obtain t where "scan_absolute_path s = Inr (Slash # p, t)" "ahead t = Space # r"
    using scan_absolute_path_ahead [of s p Space r] assms stops_chars
    by (auto simp: target_def target_ok_def)
  with None scan_query_none [of t Space r] show ?thesis by auto
next
  case (Some x)
  then obtain t where "scan_absolute_path s = Inr (Slash # p, t)" "ahead t = (Question # x) @ Space # r"
    using scan_absolute_path_ahead [of s p Question "x @ Space # r"] assms stops_chars
    by (auto simp: target_def target_ok_def)
  with Some assms(2) scan_query_some [of t x Space r] stops_chars show ?thesis
    by (auto simp: target_ok_def)
qed

lemma ParseRequestLine_ahead:
  assumes "ahead s = method_name m @ [Space] @ target p q @ [Space] @ u ''HTTP/1.1'' @ [CarriageReturn, NewLine] @ r"
    and "m \<noteq> M_None" and "target_ok p q"
  shows "\<exists>t. ParseRequestLine s = Inr (\<lparr>rl_method = m, rl_path = Slash # p,
      rl_query = (case q of None \<Rightarrow> [] | Some x \<Rightarrow> Question # x)\<rparr>, t) \<and> ahead t = r"
proof -
  let ?v = "u ''HTTP/1.1'' @ CarriageReturn # NewLine # r"
  let ?s1 = "skip_bytes (length (method_name m)) s"
  have m: "scan_method s = Inr (m, ?s1)"
    using assms(1,2) by (intro scan_method_ahead [of _ _ Space]) simp_all
  have a1: "ahead ?s1 = Space # target p q @ Space # ?v"
    using assms(1) by (simp add: ahead_skip)
  have "ahead (skip_bytes 1 ?s1) = target p q @ Space # ?v" using ahead_ConsD(4) [OF a1] by simp
  from scan_target_ahead [OF this assms(3)] obtain t t' where
    tt: "scan_absolute_path (skip_bytes 1 ?s1) = Inr (Slash # p, t)"
    "scan_query t = Inr (case q of None \<Rightarrow> [] | Some x \<Rightarrow> Question # x, t')" "ahead t' = Space # ?v"
    by blast
  have a3: "ahead (skip_bytes 1 t') = ?v" using ahead_ConsD(4) [OF tt(3)] by simp
  note v = scan_http_version_ahead [OF a3]
  have a4: "ahead (skip_bytes 9 t') = CarriageReturn # NewLine # r"
    "ahead (skip_bytes 10 t') = NewLine # r" "ahead (skip_bytes 11 t') = r"
    using tt(3) by (simp_all add: ahead_skip)
  have "ParseRequestLine s = Inr (\<lparr>rl_method = m, rl_path = Slash # p,
      rl_query = (case q of None \<Rightarrow> [] | Some x \<Rightarrow> Question # x)\<rparr>, skip_bytes 11 t')"
    using m scan_expected_ahead [OF a1] tt(1,2) scan_expected_ahead [OF tt(3)] v
      scan_expected_ahead [OF a4(1)] scan_expected_ahead [OF a4(2)]
    by (simp add: ParseRequestLine_def exec_simps)
  with a4(3) show ?thesis by blast
qed

end
