(* ===== verification/HttpHeaderLines.thy ===== *)
theory HttpHeaderLines
  imports HttpParsing
begin

text \<open>
  Header lines and bodies: what the scanner makes of a well-formed header line, the lines and the
  headers it cannot handle, and how much of a body the parser takes.
\<close>

section \<open>A header line\<close>

lemma ahead_save [simp]: "ahead (http_save s) = ahead s"
  by (simp add: ahead_def http_save_def)

lemma is_vchar_iff: "c < 128 \<Longrightarrow> is_vchar c \<longleftrightarrow> 0x21 \<le> c \<and> c \<le> 0x7E"
  by (simp add: is_vchar_def signed_char_def)

lemma is_vcharD: "is_vchar c \<Longrightarrow> 0x21 \<le> c \<and> c \<noteq> CarriageReturn \<and> \<not> is_blank_char c"
  by (auto simp: is_vchar_def signed_char_def is_blank_char_def split: if_splits)

text \<open>No byte is \<open>obs-text\<close>: a signed character is never at least \<open>0x80\<close>.\<close>

lemma is_obs_text_never: "c < 256 \<Longrightarrow> \<not> is_obs_text c"
  by (simp add: is_obs_text_def signed_char_def)

lemma scan_field_content_word:
  assumes "ahead s = c # d # r" and "is_vchar c" and "\<not> is_blank_char d"
  shows "scan_field_content s = Inr (True, skip_bytes 1 (http_save s))"
proof -
  have a: "ahead (http_save s) = c # d # r" using assms(1) by simp
  note step = ahead_ConsD [OF a]
  show ?thesis
    using step(5,6) ahead_ConsD(5) [OF step(4)] assms(2,3)
    by (simp add: scan_field_content_def bind_def exec_basic)
qed

lemma scan_field_content_stop:
  assumes "ahead s = d # r" and "\<not> is_vchar d" and "\<not> is_obs_text d"
  shows "\<exists>t. scan_field_content s = Inr (False, t) \<and> ahead t = d # r \<and>
    hs_position t = hs_position s \<and> hs_start_position t = hs_start_position s"
proof -
  have a: "ahead (http_save s) = d # r" using assms(1) by simp
  have "scan_field_content s = Inr (False, http_reverted (http_save s))"
    using ahead_ConsD(5) [OF a] assms(2,3)
    by (simp add: scan_field_content_def bind_def exec_basic http_revert_reverted http_save_def)
  moreover have "http_cursor (http_reverted (http_save s)) = http_cursor s"
    by (rule hs_cursor.revert_save)
  ultimately show ?thesis
    using assms(1) ahead_cong [of "http_reverted (http_save s)" s]
    by (simp add: http_cursor_def http_save_simps)
qed

lemma scan_field_content_gap:
  assumes "ahead s = c # Space # d # r" and "is_vchar c" and "\<not> is_blank_char d"
  shows "if is_vchar d then scan_field_content s = Inr (True, skip_bytes 3 (http_save s))
    else \<exists>t. scan_field_content s = Inr (False, t) \<and> ahead t = c # Space # d # r \<and>
      hs_position t = hs_position s \<and> hs_start_position t = hs_start_position s"
proof -
  let ?s = "http_save s"
  have a: "ahead ?s = c # Space # d # r" "ahead (skip_bytes 1 ?s) = Space # d # r"
    "ahead (skip_bytes 2 ?s) = d # r"
    using assms(1) by (simp_all add: ahead_skip)
  note c1 = ahead_ConsD [OF a(1)] and c2 = ahead_ConsD [OF a(2)] and c3 = ahead_ConsD [OF a(3)]
  have blanks: "skip_blanks d (skip_bytes 2 ?s) = Inr ((), skip_bytes 2 ?s)"
    using assms(3) by (subst skip_blanks.simps) simp
  note eval = scan_field_content_def bind_def exec_basic
  have blank: "is_blank_char Space" by (simp add: is_blank_char_def)
  show ?thesis
  proof (cases "is_vchar d")
    case True
    then show ?thesis
      using c1(5,6) c2(5,6) c3(5,6) blanks blank assms(2)
      by (simp add: eval numeral_2_eq_2 numeral_3_eq_3)
  next
    case False
    let ?t = "http_reverted (skip_bytes 2 ?s)"
    have saved: "hs_saved_text_cursors (skip_bytes 2 ?s) = hs_saved_text_cursors ?s"
      by (simp add: skip_bytes_def)
    have "scan_field_content s = Inr (False, ?t)"
      using False c1(5,6) c2(5,6) c3(5) blanks blank assms(2)
        http_revert_reverted [of "skip_bytes 2 ?s"] saved
      by (simp add: eval numeral_2_eq_2 http_save_def)
    moreover have "http_cursor ?t = http_cursor s" by (rule hs_cursor.revert_after [OF saved])
    ultimately show ?thesis
      using False assms(1) ahead_cong [of ?t s] by (simp add: http_cursor_def http_save_simps)
  qed
qed

text \<open>
  The values the scanner accepts: visible characters, and single spaces between them as long as no two of
  the spaces have just one character between them.
\<close>

fun header_value :: "ustring \<Rightarrow> bool" where
  "header_value [] \<longleftrightarrow> True"
| "header_value [c] \<longleftrightarrow> is_vchar c"
| "header_value (c # d # r) \<longleftrightarrow> is_vchar c \<and>
     (if d = Space then (case r of [] \<Rightarrow> False | e # r' \<Rightarrow> is_vchar e \<and> header_value r')
      else header_value (d # r))"

lemma header_value_start: "header_value (d # r) \<Longrightarrow> is_vchar d"
  by (cases r) auto

lemma header_value_chars: "header_value v \<Longrightarrow> 0 \<notin> set v"
  by (induction v rule: header_value.induct) (auto split: if_splits list.splits dest: is_vcharD)

lemma header_value_visible: "list_all is_vchar v \<Longrightarrow> header_value v"
  by (induction v rule: header_value.induct) (auto dest: is_vcharD split: list.splits)

lemma scan_header_value_stop:
  assumes "ahead s = CarriageReturn # r"
  shows "\<exists>t. scan_header_value s = Inr ((), t) \<and> ahead t = CarriageReturn # r \<and>
    hs_position t = hs_position s \<and> hs_start_position t = hs_start_position s \<and> hs_text t = hs_text s"
proof -
  have cr: "\<not> is_vchar CarriageReturn" "\<not> is_obs_text CarriageReturn"
    by (simp_all add: is_vchar_def is_obs_text_def signed_char_def)
  from assms obtain t where t: "scan_field_content s = Inr (False, t)" "ahead t = CarriageReturn # r"
    "hs_position t = hs_position s" "hs_start_position t = hs_start_position s"
    using scan_field_content_stop [of s CarriageReturn r] cr by auto
  have "hs_text t = hs_text s" using scan_field_content_advances [OF t(1)] by (simp add: advances_def)
  moreover have "hs_position s < hs_size s" using ahead_ConsD(1) assms by simp
  ultimately show ?thesis
    using t ahead_ConsD(5) [OF t(2)] cr by (subst scan_header_value.simps) simp
qed

lemma scan_header_value_step:
  assumes "scan_field_content s = Inr (True, t)" and "ahead s = c # r"
  shows "scan_header_value s = scan_header_value t"
  using assms(1) ahead_ConsD(1) [OF assms(2)] by (subst scan_header_value.simps) simp

lemma scan_header_value_words:
  assumes "ahead s = v @ CarriageReturn # r" and "header_value v"
  shows "\<exists>t. scan_header_value s = Inr ((), t) \<and> ahead t = CarriageReturn # r \<and>
    hs_position t = hs_position s + length v \<and> hs_start_position t = hs_start_position s \<and>
    hs_text t = hs_text s"
  using assms
proof (induction v arbitrary: s rule: header_value.induct)
  case 1
  then show ?case using scan_header_value_stop by simp
next
  case (2 c)
  then have "scan_field_content s = Inr (True, skip_bytes 1 (http_save s))"
    by (intro scan_field_content_word [of _ _ CarriageReturn r]) (auto simp: is_blank_char_def)
  moreover have "ahead (skip_bytes 1 (http_save s)) = CarriageReturn # r"
    using "2.prems"(1) by (simp add: ahead_skip)
  from scan_header_value_stop [OF this] show ?case
    using scan_header_value_step [OF calculation, of c] "2.prems"(1) by (simp add: http_save_simps)
next
  case (3 c d v)
  show ?case
  proof (cases "d = Space")
    case True
    with "3.prems"(2) obtain e w where v: "v = e # w" "is_vchar c" "is_vchar e" "header_value w"
      by (auto split: list.splits)
    have "\<not> is_blank_char e" using is_vcharD [OF v(3)] by simp
    with scan_field_content_gap [of s c e "w @ CarriageReturn # r"] "3.prems"(1) True v
    have "scan_field_content s = Inr (True, skip_bytes 3 (http_save s))" by simp
    from scan_header_value_step [OF this, of c] "3.prems"(1)
    have "scan_header_value s = scan_header_value (skip_bytes 3 (http_save s))" by simp
    moreover have "ahead (skip_bytes 3 (http_save s)) = w @ CarriageReturn # r"
      using "3.prems"(1) True v(1) by (simp add: ahead_skip)
    ultimately show ?thesis
      using "3.IH"(1) [OF True v(1), of "skip_bytes 3 (http_save s)"] v True
      by (auto simp: http_save_simps)
  next
    case False
    with "3.prems"(2) have v: "is_vchar c" "header_value (d # v)" by simp_all
    have "\<not> is_blank_char d" using is_vcharD [OF header_value_start [OF v(2)]] by simp
    then have "scan_field_content s = Inr (True, skip_bytes 1 (http_save s))"
      using "3.prems"(1) v(1) by (intro scan_field_content_word [of _ _ d "v @ CarriageReturn # r"]) auto
    from scan_header_value_step [OF this, of c] "3.prems"(1)
    have "scan_header_value s = scan_header_value (skip_bytes 1 (http_save s))" by simp
    moreover have "ahead (skip_bytes 1 (http_save s)) = (d # v) @ CarriageReturn # r"
      using "3.prems"(1) by (simp add: ahead_skip)
    ultimately show ?thesis
      using "3.IH"(2) [OF False _ v(2), of "skip_bytes 1 (http_save s)"] by (auto simp: http_save_simps)
  qed
qed

lemma scan_header_name_ahead:
  assumes "ahead s = name @ d # r" and "list_all is_header_field_part name" and "\<not> is_header_field_part d"
  shows "scan_header_name s = Inr ((), skip_bytes (length name) s)"
  using assms
proof (induction name arbitrary: s)
  case Nil
  then have a: "ahead s = d # r" by simp
  show ?case
    using ahead_ConsD(1,5) [OF a] Nil.prems by (subst scan_header_name.simps) simp
next
  case (Cons c name)
  then have a: "ahead s = c # name @ d # r" by simp
  note step = ahead_ConsD [OF a]
  have "scan_header_name s = scan_header_name (skip_bytes 1 s)"
    using step(1,5) Cons.prems(2) by (subst scan_header_name.simps) (simp add: skip_bytes_def)
  with Cons.IH [OF step(4)] Cons.prems show ?case by simp
qed

lemma header_field_chars:
  "is_header_field_start c \<Longrightarrow> is_header_field_part c"
  "is_header_field_part c \<Longrightarrow> tolower c \<noteq> 0 \<and> (tolower c = Minus \<or> Lower_a \<le> tolower c \<and> tolower c \<le> Lower_z)"
  by (auto simp: is_header_field_start_def is_header_field_part_def tolower_def)

lemma take_ahead:
  assumes "ahead s = cs @ r"
  shows "take (length cs) (drop (hs_position s) (hs_text s)) = cs"
  using arg_cong [OF assms, of "take (length cs)"] arg_cong [OF assms, of length]
  by (auto simp: ahead_def min_def split: if_splits)

lemma get_lower_cased_value_ahead:
  assumes "ahead s = name @ d # r" and "hs_start_position s = hs_position s"
    and "list_all is_header_field_part name"
  shows "get_lower_cased_value (skip_bytes (length name) s) = Inr (map tolower name)"
proof -
  have "ahead (skip_bytes (length name) s) = d # r" using assms(1) by (simp add: ahead_skip)
  note pos = ahead_ConsD(2) [OF this]
  have "0 \<notin> set (map tolower name)"
    using assms(3) header_field_chars(2) by (force simp: list_all_iff)
  with pos take_ahead [OF assms(1)] assms(2) show ?thesis by (simp add: get_lower_cased_value_def)
qed

lemma scan_header_to_value:
  assumes "ahead s = name @ [Colon_char, Space] @ r" and "name = c # cs" and "is_header_field_start c"
    and "list_all is_header_field_part cs"
  shows "\<exists>t. ahead t = r \<and> hs_start_position t = hs_position t \<and>
    scan_header s = bind scan_header_value (\<lambda>_.
       bind (lift_result get_token_value) (\<lambda>v.
       bind (modify (\<lambda>s. s\<lparr>hs_current_header := Some v\<rparr>)) (\<lambda>_.
       bind (scan_optional Space) (\<lambda>_.
       bind (http_scan_expected CarriageReturn) (\<lambda>_.
       bind (http_scan_expected NewLine) (\<lambda>_. ret (get_header (map tolower name)))))))) t"
proof -
  let ?s = "http_set_token_start_position s"
  let ?n = "skip_bytes (length name) ?s"
  have parts: "list_all is_header_field_part name" using assms header_field_chars(1) by simp
  have a: "ahead ?s = name @ Colon_char # Space # r" using assms(1) by simp
  have c: "http_current_char ?s = Inr (c, ?s)" using ahead_ConsD(5) [of ?s c] a assms(2) by simp
  have n: "scan_header_name ?s = Inr ((), ?n)"
    using scan_header_name_ahead [OF a parts] by (simp add: is_header_field_part_def)
  have l: "get_lower_cased_value ?n = Inr (map tolower name)"
    using get_lower_cased_value_ahead [OF a _ parts] by simp
  have an: "ahead ?n = Colon_char # Space # r" using a by (simp add: ahead_skip)
  have colon: "http_scan_expected Colon_char ?n = Inr ((), skip_bytes 1 ?n)"
    using scan_expected_ahead [OF an] .
  have as: "ahead (skip_bytes 1 ?n) = Space # r" using ahead_ConsD(4) [OF an] .
  note sp = scan_optional_yes [OF as]
  let ?t = "http_set_token_start_position (skip_bytes 1 (http_save (skip_bytes 1 ?n)))"
  have "ahead ?t = r" using a by (simp add: ahead_skip)
  then show ?thesis
    using c n l colon sp assms(3)
    by (intro exI [of _ ?t]) (simp add: scan_header_def bind_def exec_basic lift_result_def)
qed

lemma scan_header_line_ok:
  assumes "ahead s = name @ [Colon_char, Space] @ v @ [CarriageReturn, NewLine] @ r"
    and "name = c # cs" and "is_header_field_start c" and "list_all is_header_field_part cs"
    and "header_value v"
  shows "\<exists>t. scan_header s = Inr (get_header (map tolower name), t) \<and>
    get_header_value t = Some v \<and> ahead t = r"
proof -
  obtain t where a: "ahead t = v @ CarriageReturn # NewLine # r" "hs_start_position t = hs_position t"
    and scan: "scan_header s = bind scan_header_value (\<lambda>_.
       bind (lift_result get_token_value) (\<lambda>v.
       bind (modify (\<lambda>s. s\<lparr>hs_current_header := Some v\<rparr>)) (\<lambda>_.
       bind (scan_optional Space) (\<lambda>_.
       bind (http_scan_expected CarriageReturn) (\<lambda>_.
       bind (http_scan_expected NewLine) (\<lambda>_. ret (get_header (map tolower name)))))))) t"
    using scan_header_to_value [of s name "v @ CarriageReturn # NewLine # r" c cs] assms by auto
  obtain t1 where t1: "scan_header_value t = Inr ((), t1)" "ahead t1 = CarriageReturn # NewLine # r"
    "hs_position t1 = hs_position t + length v" "hs_start_position t1 = hs_position t" "hs_text t1 = hs_text t"
    using scan_header_value_words [OF a(1) assms(5)] a(2) by auto
  have "0 \<notin> set v" by (rule header_value_chars [OF assms(5)])
  then have val: "get_token_value t1 = Inr v"
    using t1(3-5) take_ahead [OF a(1)] ahead_ConsD(2) [OF t1(2)] by (simp add: get_token_value_def)
  let ?t2 = "t1\<lparr>hs_current_header := Some v\<rparr>"
  have a2: "ahead ?t2 = CarriageReturn # NewLine # r" using t1(2) ahead_cong [of ?t2 t1] by simp
  obtain t3 where t3: "scan_optional Space ?t2 = Inr (False, t3)" "ahead t3 = CarriageReturn # NewLine # r"
    using scan_optional_no [OF a2, of Space] by auto
  have "hs_current_header t3 = Some v" using scan_optional_Inr [OF t3(1)] by simp
  moreover have a4: "ahead (skip_bytes 1 t3) = NewLine # r" "ahead (skip_bytes 2 t3) = r"
    using t3(2) by (simp_all add: ahead_skip)
  ultimately show ?thesis
    using scan t1(1) val t3(1) scan_expected_ahead [OF t3(2)] scan_expected_ahead [OF a4(1)]
    by (simp add: bind_def exec_basic lift_result_def get_header_value_def numeral_2_eq_2)
qed

text \<open>Header lines. A field name of letters and dashes, a colon, a space, a value
  (visible characters, with single spaces between words) and the line break are scanned completely: the result is the table's entry for the
  lower-case name, and the stored header value is the value.\<close>

theorem scan_header_line:
  assumes "ahead s = name @ [Colon_char, Space] @ v @ [CarriageReturn, NewLine] @ r"
    and "name = c # cs" and "is_header_field_start c" and "list_all is_header_field_part cs"
    and "header_value v"
  shows "\<exists>t. scan_header s = Inr (get_header (map tolower name), t) \<and>
    get_header_value t = Some v \<and> ahead t = r"
  using assms by (rule scan_header_line_ok)

theorem scan_header_line_witness:
  "\<exists>t. scan_header (HttpScanner_new (u ''Host: x'' @ [13, 10]) 9) = Inr (H_Host, t) \<and>
     get_header_value t = Some (u ''x'')"
proof -
  have "ahead (HttpScanner_new (u ''Host: x'' @ [13, 10]) 9) =
      u ''Host'' @ [Colon_char, Space] @ u ''x'' @ [CarriageReturn, NewLine] @ []"
    by (simp add: ahead_def HttpScanner_new_def)
  from scan_header_line [OF this, of "of_char CHR ''H''" "u ''ost''"]
  show ?thesis
    by (auto simp: is_header_field_start_def is_header_field_part_def is_vchar_def signed_char_def
        tolower_def get_header_def string_to_token_def)
qed

section \<open>Header lines the scanner rejects\<close>

lemma scan_header_value_blank_stop:
  assumes "ahead s = Space # r"
  shows "\<exists>t. scan_header_value s = Inr ((), t) \<and> ahead t = Space # r \<and>
    hs_start_position t = hs_start_position s \<and> hs_position t = hs_position s"
proof -
  have sp: "\<not> is_vchar Space" "\<not> is_obs_text Space"
    by (simp_all add: is_vchar_def is_obs_text_def signed_char_def)
  obtain t where t: "scan_field_content s = Inr (False, t)" "ahead t = Space # r"
    "hs_position t = hs_position s" "hs_start_position t = hs_start_position s"
    using scan_field_content_stop [OF assms sp] by blast
  then show ?thesis
    using ahead_ConsD(1) [OF assms] ahead_ConsD(5) [OF t(2)] sp
    by (subst scan_header_value.simps) simp
qed

lemma after_value_rejects:
  assumes "ahead t = c # r" and "c \<noteq> CarriageReturn" and "c = Space \<longrightarrow> r \<noteq> [] \<and> hd r \<noteq> CarriageReturn"
  shows "bind (scan_optional Space) (\<lambda>_. bind (http_scan_expected CarriageReturn) k) t =
    Inl (Logic_error (expected_message CarriageReturn))"
proof (cases "c = Space")
  case True
  obtain d q where r: "r = d # q" "d \<noteq> CarriageReturn" using assms(3) True by (cases r) auto
  have "ahead (skip_bytes 1 (http_save t)) = d # q" using assms(1) r by (simp add: ahead_skip)
  from ahead_ConsD(5) [OF this] scan_optional_yes [of t c r] assms(1) True r(2) show ?thesis
    by (simp add: bind_def http_scan_expected_def exec_basic)
next
  case False
  obtain t' where t': "scan_optional Space t = Inr (False, t')" "ahead t' = c # r"
    using scan_optional_no [OF assms(1) False] by blast
  with ahead_ConsD(5) [OF t'(2)] assms(2) show ?thesis
    by (simp add: bind_def http_scan_expected_def exec_basic)
qed

text \<open>Header lines that are rejected although HTTP allows them: a value that ends in a space (the
  optional trailing white space \<open>scan_header\<close> means to skip), and a value with a one-character word
  between two others. Both end in the exception for a missing carriage return.\<close>

theorem scan_header_rejects_blanks:
  assumes "name = c # cs" and "is_header_field_start c" and "list_all is_header_field_part cs"
    and "ahead s = name @ [Colon_char, Space] @ v @ [CarriageReturn, NewLine] @ r"
    and "v = [x, Space] \<or> v = [x, Space, y, Space, z]" and "list_all is_vchar [x, y, z]"
  shows "scan_header s = Inl (Logic_error (expected_message CarriageReturn))"
proof -
  obtain t where a: "ahead t = v @ CarriageReturn # NewLine # r" "hs_start_position t = hs_position t"
    and scan: "scan_header s = bind scan_header_value (\<lambda>_.
       bind (lift_result get_token_value) (\<lambda>v.
       bind (modify (\<lambda>s. s\<lparr>hs_current_header := Some v\<rparr>)) (\<lambda>_.
       bind (scan_optional Space) (\<lambda>_.
       bind (http_scan_expected CarriageReturn) (\<lambda>_.
       bind (http_scan_expected NewLine) (\<lambda>_. ret (get_header (map tolower name)))))))) t"
    using scan_header_to_value [of s name "v @ CarriageReturn # NewLine # r" c cs] assms by auto
  have bad: "scan_header s = Inl (Logic_error (expected_message CarriageReturn))"
    if "scan_header_value t = Inr ((), t1)" "ahead t1 = d # q" "d \<noteq> CarriageReturn"
      "d = Space \<longrightarrow> q \<noteq> [] \<and> hd q \<noteq> CarriageReturn" for t1 d q
  proof -
    note asm = that
    obtain w where w: "get_token_value t1 = Inr w"
      using ahead_ConsD(2) [OF asm(2)] by (auto simp: get_token_value_def Let_def)
    have "ahead (t1\<lparr>hs_current_header := Some w\<rparr>) = d # q" using asm(2) by (simp add: ahead_def)
    from after_value_rejects [OF this asm(3,4)] scan asm(1) w show ?thesis
      by (simp add: bind_def exec_basic lift_result_def)
  qed
  have x: "is_vchar x" "\<not> is_obs_text x" "x \<noteq> CarriageReturn" "x \<noteq> Space"
    using assms(6) is_vcharD [of x] by (auto simp: is_obs_text_def is_vchar_def is_blank_char_def)
  have cr: "\<not> is_vchar CarriageReturn" "\<not> is_blank_char CarriageReturn"
    by (simp_all add: is_vchar_def signed_char_def is_blank_char_def)
  from assms(5) show ?thesis
  proof
    assume v: "v = [x, Space]"
    then have at: "ahead t = x # Space # CarriageReturn # NewLine # r" using a by simp
    obtain t1 where t1: "scan_field_content t = Inr (False, t1)" "ahead t1 = x # Space # CarriageReturn # NewLine # r"
      using scan_field_content_gap [OF at x(1) cr(2)] cr(1) by auto
    have "scan_header_value t = Inr ((), t1)"
      using ahead_ConsD(1) [OF at] t1(1) ahead_ConsD(5) [OF t1(2)] x(2)
      by (subst scan_header_value.simps) simp
    from bad [OF this t1(2)] x show ?thesis by simp
  next
    assume v: "v = [x, Space, y, Space, z]"
    then have at: "ahead t = x # Space # y # Space # z # CarriageReturn # NewLine # r" using a by simp
    let ?t = "skip_bytes 3 (http_save t)"
    have "scan_field_content t = Inr (True, ?t)"
      using scan_field_content_gap [OF at x(1)] is_vcharD assms(6) by auto
    then have step: "scan_header_value t = scan_header_value ?t"
      using ahead_ConsD(1) [OF at] by (subst scan_header_value.simps) simp
    have "ahead ?t = Space # z # CarriageReturn # NewLine # r" using at by (simp add: ahead_skip)
    from scan_header_value_blank_stop [OF this] step obtain t1 where
      "scan_header_value t = Inr ((), t1)" "ahead t1 = Space # z # CarriageReturn # NewLine # r" by auto
    from bad [OF this] is_vcharD assms(6) show ?thesis by auto
  qed
qed

theorem scan_header_rejects_blanks_witness:
  "scan_header (HttpScanner_new (u ''X: a b c'' @ [13, 10]) 10) =
     Inl (Logic_error (expected_message CarriageReturn))"
proof -
  have "ahead (HttpScanner_new (u ''X: a b c'' @ [13, 10]) 10) =
      u ''X'' @ [Colon_char, Space] @ [97, Space, 98, Space, 99] @ [CarriageReturn, NewLine] @ []"
    by (simp add: ahead_def HttpScanner_new_def)
  from scan_header_rejects_blanks [OF _ _ _ this, of "of_char CHR ''X''" "[]" 97 98 99] show ?thesis
    by (simp add: is_header_field_start_def is_vchar_def signed_char_def)
qed

section \<open>Headers that are never recognised\<close>

lemma scan_header_name_parts:
  "scan_header_name s = Inr (x, t) \<Longrightarrow>
   \<forall>i. hs_position s \<le> i \<and> i < hs_position t \<longrightarrow> is_header_field_part (hs_text s ! i)"
proof (induction s rule: scan_header_name.induct)
  case (1 s)
  show ?case
  proof (cases "hs_position s < hs_size s \<and> (\<exists>c p. http_current_char s = Inr (c, p) \<and> is_header_field_part c)")
    case True
    then obtain c p where c: "http_current_char s = Inr (c, p)" "is_header_field_part c"
      and pos: "hs_position s < hs_size s" by metis
    let ?s = "s\<lparr>hs_position := hs_position s + 1\<rparr>"
    have "scan_header_name ?s = Inr (x, t)"
      using "1.prems" c pos by (simp add: scan_header_name.simps [of s])
    from "1.IH" [OF pos c(1) refl c(2) this] c show ?thesis
      by (auto simp: Suc_le_eq) (metis le_neq_implies_less)
  next
    case False
    with "1.prems" have "t = s"
      by (auto simp: scan_header_name.simps [of s] split: if_splits sum.splits)
    then show ?thesis by auto
  qed
qed

lemma set_cstr: "set (cstr xs) \<subseteq> set xs"
  unfolding cstr_def by (auto dest: set_takeWhileD)

text \<open>The names of the table that no scanned name can be: they hold an upper-case letter or a digit.\<close>

definition dead_headers :: "HttpHeader set" where
  "dead_headers = {H_HTTP2Settings, H_SecWebSocketAccept, H_SecWebSocketExtensions, H_SecWebSocketKey,
     H_SecWebSocketProtocol, H_SecWebSocketVersion}"

definition field_name_char :: "nat \<Rightarrow> bool" where
  "field_name_char c \<longleftrightarrow> c = Minus \<or> Lower_a \<le> c \<and> c \<le> Lower_z"

lemma string_to_token_dead:
  "list_all (\<lambda>(name, h). h \<in> dead_headers \<longrightarrow> \<not> list_all field_name_char name) string_to_token"
  by (simp add: string_to_token_def dead_headers_def field_name_char_def)

lemma get_header_dead:
  assumes "list_all field_name_char name"
  shows "get_header name \<notin> dead_headers"
proof (cases "map_of string_to_token name")
  case None
  then show ?thesis by (simp add: get_header_def dead_headers_def)
next
  case (Some h)
  with string_to_token_dead assms show ?thesis
    by (auto simp: get_header_def list_all_iff dest: map_of_SomeD)
qed

lemma scanned_name_chars:
  assumes "scan_header_name s = Inr (x, t)" and "hs_start_position s = hs_position s"
    and "get_lower_cased_value t = Inr name"
  shows "list_all field_name_char name"
proof -
  have t: "hs_start_position t = hs_position s" "hs_text t = hs_text s"
    using scan_header_name_advances [OF assms(1)] assms(2) by (auto simp: advances_def)
  let ?raw = "take (hs_position t - hs_position s) (drop (hs_position s) (hs_text s))"
  have "is_header_field_part c" if "c \<in> set ?raw" for c
  proof -
    from that obtain i where "i < length ?raw" "c = ?raw ! i" by (metis in_set_conv_nth)
    then have "c = hs_text s ! (hs_position s + i)" "hs_position s + i < hs_position t" by auto
    then show ?thesis using scan_header_name_parts [OF assms(1)] by simp
  qed
  then have "list_all field_name_char (map tolower ?raw)"
    using header_field_chars(2) by (fastforce simp: list_all_iff field_name_char_def)
  moreover have "name = cstr (map tolower ?raw)"
    using assms(3) t by (simp add: get_lower_cased_value_def split: if_splits)
  ultimately show ?thesis
    using set_cstr unfolding list_all_iff by blast
qed

text \<open>Six headers of the table can never come out of \<open>scan_header\<close>, whatever the request: the keys
  \<open>sec-webSocket-\<dots>\<close> hold an upper-case \<open>S\<close> while names are looked up in lower case, and
  \<open>http2-settings\<close> holds a digit, which the scanner does not take for part of a name.\<close>

theorem dead_headers_never_scanned:
  assumes "scan_header s = Inr (h, t)"
  shows "h \<notin> dead_headers"
proof -
  let ?s = "http_set_token_start_position s"
  from assms consider "h = H_End"
    | x t1 name where "scan_header_name ?s = Inr (x, t1)" "get_lower_cased_value t1 = Inr name"
        "h = get_header name"
    unfolding scan_header_def
    by (auto simp: exec_simps elim!: bind_InrE split: if_splits dest!: lift_result_Inr)
  then show ?thesis
  proof cases
    case 1
    then show ?thesis by (simp add: dead_headers_def)
  next
    case (2 x t1 name)
    with scanned_name_chars [OF 2(1) _ 2(2)] get_header_dead show ?thesis by simp
  qed
qed

section \<open>Bodies\<close>

lemma parse_body_result:
  assumes "hs_position s \<le> hs_size s" and "hs_size s < length (hs_text s)"
  shows "parse_body len s =
    (let n = nat (len mod 2 ^ 32); t = http_set_token_start_position s in
     Inr (cstr (take n (ahead s)), skip_bytes (min n (hs_size s - hs_position s)) t))"
proof -
  define n where "n = unat (word_of_int len :: 32 word)"
  have n: "nat (len mod 4294967296) = n" by (simp add: n_def unat_eq_nat_uint uint_word_of_int)
  let ?t = "http_set_token_start_position s"
  have "body_loop n ?t = skip_bytes (min n (hs_size s - hs_position s)) ?t"
    using assms(1) body_loop_position [of ?t n]
    by (auto simp: skip_bytes_def http_set_token_start_position_def min_def)
  moreover have "get_token_value (skip_bytes (min n (hs_size s - hs_position s)) ?t) =
      Inr (cstr (take n (ahead s)))"
    using assms by (auto simp: get_token_value_def ahead_def Let_def http_set_token_start_position_def min.commute)
  ultimately show ?thesis
    by (simp add: parse_body_def scan_body_def exec_simps lift_result_def n n_def [symmetric] Let_def)
qed

text \<open>Bodies. The parser takes as many bytes as the \<open>Content-Length\<close> says, but modulo \<open>2 ^ 32\<close>
  (the length is passed as an \<open>unsigned int\<close>), and no more than the request has left; the body it returns
  ends at the first null byte.\<close>

theorem parse_body_takes:
  assumes "hs_position s \<le> hs_size s" and "hs_size s < length (hs_text s)"
  shows "parse_body len s =
    (let n = nat (len mod 2 ^ 32); t = http_set_token_start_position s in
     Inr (cstr (take n (ahead s)), skip_bytes (min n (hs_size s - hs_position s)) t))"
  using assms by (rule parse_body_result)

theorem parse_body_takes_witness:
  "\<exists>t. parse_body 4294967298 (HttpScanner_new (u ''abcd'' @ [0]) 4) = Inr (u ''ab'', t)"
proof -
  have "hs_position (HttpScanner_new (u ''abcd'' @ [0]) 4) \<le> hs_size (HttpScanner_new (u ''abcd'' @ [0]) 4)"
    "hs_size (HttpScanner_new (u ''abcd'' @ [0]) 4) < length (hs_text (HttpScanner_new (u ''abcd'' @ [0]) 4))"
    by (simp_all add: HttpScanner_new_def)
  from parse_body_takes [OF this, of 4294967298] show ?thesis
    by (simp add: HttpScanner_new_def ahead_def Let_def cstr_def)
qed

theorem dead_headers_never_scanned_witness:
  "\<exists>h t. scan_header (HttpScanner_new (u ''sec-websocket-key: x'' @ [13, 10]) 22) = Inr (h, t) \<and>
     h \<notin> dead_headers"
proof -
  let ?s = "HttpScanner_new (u ''sec-websocket-key: x'' @ [13, 10]) 22"
  have "ahead ?s = u ''sec-websocket-key'' @ [Colon_char, Space] @ u ''x'' @ [CarriageReturn, NewLine] @ []"
    by (simp add: ahead_def HttpScanner_new_def)
  then obtain h t where "scan_header ?s = Inr (h, t)"
    using scan_header_line_ok [of ?s "u ''sec-websocket-key''" "u ''x''" "[]" "of_char CHR ''s''" "u ''ec-websocket-key''"]
    by (auto simp: is_header_field_start_def is_header_field_part_def is_vchar_def signed_char_def)
  with dead_headers_never_scanned [OF this] show ?thesis by blast
qed

end
