(* ===== verification/HttpMessages.thy ===== *)
theory HttpMessages
  imports HttpHeaderLines HttpWriter
begin

text \<open>
  Whole requests: a request line, header lines, an empty line and a body.  What \<open>HttpParser\<close> makes of such a
  text, and what \<open>HttpWriter\<close> sends when it is given one line after the other.
\<close>

section \<open>Header lines one after the other\<close>

type_synonym header_line = "ustring \<times> ustring"

definition header_line :: "header_line \<Rightarrow> ustring" where
  "header_line = (\<lambda>(name, v). name @ [Colon_char, Space] @ v @ crlf)"

definition header_lines :: "header_line list \<Rightarrow> ustring" where
  "header_lines ls = concat (map header_line ls)"

definition good_header :: "header_line \<Rightarrow> bool" where
  "good_header = (\<lambda>(name, v). (case name of
       [] \<Rightarrow> False | c # cs \<Rightarrow> is_header_field_start c \<and> list_all is_header_field_part cs) \<and> header_value v)"

text \<open>The header map the lines stand for; a later line of the same header replaces an earlier one.\<close>

fun header_entries :: "header_line list \<Rightarrow> header_map \<Rightarrow> header_map" where
  "header_entries [] m = m"
| "header_entries ((name, v) # ls) m = header_entries ls (m(get_header (map tolower name) \<mapsto> Some v))"

lemma string_to_token_not_End: "list_all (\<lambda>(_, h). h \<noteq> H_End) string_to_token"
  by (simp add: string_to_token_def)

lemma get_header_not_End: "get_header name \<noteq> H_End"
  using string_to_token_not_End
  by (auto simp: get_header_def list_all_iff dest: map_of_SomeD split: option.split)

lemma scan_header_End:
  assumes "ahead s = crlf @ r"
  shows "\<exists>t. scan_header s = Inr (H_End, t) \<and> ahead t = r"
proof -
  let ?s = "http_set_token_start_position s"
  have a: "ahead ?s = CarriageReturn # NewLine # r" using assms by (simp add: crlf_def)
  have b: "ahead (skip_bytes 1 (http_save ?s)) = NewLine # r" using a by (simp add: ahead_skip)
  have "\<not> is_header_field_start CarriageReturn" by (simp add: is_header_field_start_def)
  then show ?thesis
    using ahead_ConsD(5) [OF a] scan_optional_yes [OF a] scan_expected_ahead [OF b] ahead_ConsD(4) [OF b]
    by (simp add: scan_header_def bind_def exec_basic)
qed

lemma headers_loop_lines:
  assumes "ahead s = header_lines ls @ crlf @ r" and "list_all good_header ls"
  shows "\<exists>t. headers_loop m s = Inr (header_entries ls m, t) \<and> ahead t = r"
  using assms
proof (induction ls arbitrary: m s)
  case Nil
  with scan_header_End [of s r] obtain t where "scan_header s = Inr (H_End, t)" "ahead t = r"
    by (auto simp: header_lines_def)
  then show ?case by (subst headers_loop.simps) simp
next
  case (Cons l ls)
  obtain name v where l: "l = (name, v)" by (cases l)
  with Cons.prems(2) obtain c cs where name: "name = c # cs" "is_header_field_start c"
    "list_all is_header_field_part cs" "header_value v"
    by (cases name) (auto simp: good_header_def)
  let ?h = "get_header (map tolower name)"
  have "ahead s = name @ [Colon_char, Space] @ v @ [CarriageReturn, NewLine] @ header_lines ls @ crlf @ r"
    using Cons.prems(1) by (simp add: l header_lines_def header_line_def crlf_def)
  from scan_header_line_ok [OF this name] obtain t where
    t: "scan_header s = Inr (?h, t)" "get_header_value t = Some v" "ahead t = header_lines ls @ crlf @ r"
    by blast
  have "headers_loop m s = headers_loop (m(?h \<mapsto> Some v)) t"
    using t(1,2) get_header_not_End by (subst headers_loop.simps) simp
  with Cons.IH [OF t(3)] Cons.prems(2) show ?case by (simp add: l)
qed

section \<open>A whole request\<close>

definition request_text :: "HttpMethod \<Rightarrow> ustring \<Rightarrow> ustring option \<Rightarrow> header_line list \<Rightarrow> ustring \<Rightarrow> ustring" where
  "request_text m p q ls body =
     method_name m @ [Space] @ target p q @ [Space] @ u ''HTTP/1.1'' @ crlf @ header_lines ls @ crlf @ body"

lemma request_parsed:
  assumes "m \<noteq> M_None" and "m \<noteq> Get" and "target_ok p q" and "list_all good_header ls" and "8 \<le> length behind"
    and "header_entries ls Map.empty H_ContentLength = Some (Some len)" and "atoll len = Inr (int (length body))"
    and "0 \<notin> set body" and "length body < 2 ^ 32"
  shows "\<exists>t. Parse (HttpParser_new (request_text m p q ls body @ behind) (length (request_text m p q ls body))) =
      Inr (\<lparr>rq_method = m, rq_path = Slash # p, rq_query = (case q of None \<Rightarrow> [] | Some x \<Rightarrow> Question # x),
            rq_headers = header_entries ls Map.empty, rq_body = Some body\<rparr>, t) \<and> ahead t = []"
proof -
  let ?n = "length (request_text m p q ls body)"
  let ?s = "HttpParser_new (request_text m p q ls body @ behind) ?n"
  have "ahead ?s = request_text m p q ls body"
    by (simp add: ahead_def HttpParser_new_def HttpScanner_new_def)
  then have a: "ahead ?s = method_name m @ [Space] @ target p q @ [Space] @ u ''HTTP/1.1'' @ [CarriageReturn, NewLine] @
      header_lines ls @ crlf @ body"
    by (simp only: request_text_def crlf_def append_assoc)
  have room: "room ?n 0 ?s"
    using assms(5) by (simp add: room_def HttpParser_new_def HttpScanner_new_def)
  obtain t where line: "ParseRequestLine ?s = Inr (\<lparr>rl_method = m, rl_path = Slash # p,
      rl_query = (case q of None \<Rightarrow> [] | Some x \<Rightarrow> Question # x)\<rparr>, t)" "ahead t = header_lines ls @ crlf @ body"
    using ParseRequestLine_ahead [OF a assms(1,3)] by blast
  have "room ?n 0 t" by (rule wp_InrD [OF guardedD [OF guarded_request_line room] line(1)])
  obtain t' where headers: "headers_loop Map.empty t = Inr (header_entries ls Map.empty, t')" "ahead t' = body"
    using headers_loop_lines [OF line(2) assms(4)] by blast
  have "room ?n 0 t'" by (rule wp_InrD [OF guardedD [OF guarded_headers_loop \<open>room ?n 0 t\<close>] headers(1)])
  then have inside: "hs_position t' \<le> hs_size t'" "hs_size t' < length (hs_text t')" by (simp_all add: room_def)
  have size: "length body = hs_size t' - hs_position t'"
    using headers(2) inside by (auto simp: ahead_def)
  have mod: "nat (int (length body) mod 2 ^ 32) = length body" using assms(9) by simp
  have body: "parse_body (int (length body)) t' =
      Inr (body, skip_bytes (length body) (http_set_token_start_position t'))"
    using headers(2) assms(8)
    by (simp only: parse_body_result [OF inside] mod Let_def size [symmetric]) simp
  have upd: "(header_entries ls Map.empty)(H_ContentLength \<mapsto> Some len) = header_entries ls Map.empty"
    using assms(6) by (simp add: fun_upd_idem)
  show ?thesis
    using line(1) headers(1) body assms(2,6,7) headers(2) upd
    by (simp add: Parse_def parse_headers_def bind_def exec_basic lift_result_def ahead_skip Let_def)
qed



section \<open>Sending a request\<close>

text \<open>A sequence of writes on an unencrypted connection adds a text to what is sent.\<close>

definition appends :: "(HttpWriter, unit) exec \<Rightarrow> ustring \<Rightarrow> bool" where
  "appends m x \<longleftrightarrow> (\<forall>w. plain_writer w \<longrightarrow>
     (\<exists>w'. m w = Inr ((), w') \<and> plain_writer w' \<and> contents w' = contents w @ x))"

named_theorems appends_intros \<open>what the writer's methods add\<close>

lemma appends_bind [appends_intros]:
  assumes "appends m x" and "appends k y"
  shows "appends (bind m (\<lambda>_. k)) (x @ y)"
  unfolding appends_def
proof (intro allI impI)
  fix w assume "plain_writer w"
  with assms(1) obtain v where v: "m w = Inr ((), v)" "plain_writer v" "contents v = contents w @ x"
    unfolding appends_def by blast
  with assms(2) obtain t where "k v = Inr ((), t)" "plain_writer t" "contents t = contents v @ y"
    unfolding appends_def by blast
  with v show "\<exists>t. bind m (\<lambda>_. k) w = Inr ((), t) \<and> plain_writer t \<and> contents t = contents w @ x @ y"
    by (simp add: exec_simps)
qed

lemma appends_Write [appends_intros]: "0 \<notin> set x \<Longrightarrow> appends (Write env x) x"
  using http_sink.put_contents [of _ env x] by (simp add: appends_def)

lemma appends_WriteLine [appends_intros]:
  assumes "list_all (\<lambda>x. 0 \<notin> set x) xs"
  shows "appends (WriteLine env xs) (concat xs @ crlf)"
proof -
  have "map cstr xs = xs" using assms by (simp add: map_idI list_all_iff)
  then have "appends (Write_all env xs) (concat xs)"
    using Write_all_plain [of _ env xs] by (simp add: appends_def)
  then show ?thesis unfolding WriteLine_def by (intro appends_bind appends_Write) (simp_all add: crlf_def)
qed

lemma appends_WriteRequest [appends_intros]:
  assumes "method_prefix m = Some x" and "0 \<notin> set path"
  shows "appends (WriteRequest env m path) (x @ path @ u '' HTTP/1.1'' @ crlf)"
  using WriteRequest_plain [OF _ assms(2), of _ env m] assms(1) by (simp add: appends_def)

text \<open>A sequence of writes up to the call of \<open>End\<close> sends a text.\<close>

definition sends :: "(HttpWriter, unit) exec \<Rightarrow> ustring \<Rightarrow> bool" where
  "sends m x \<longleftrightarrow> (\<forall>w. plain_writer w \<longrightarrow>
     (\<exists>w'. m w = Inr ((), w') \<and> concat (hw_sent w') = contents w @ x))"

lemma sends_End: "sends (modify (End env)) []"
  using FlushBuffer_plain [of _ env] by (simp add: sends_def exec_simps End_def contents_def)

lemma sends_bind:
  assumes "appends m x" and "sends k y"
  shows "sends (bind m (\<lambda>_. k)) (x @ y)"
  unfolding sends_def
proof (intro allI impI)
  fix w assume "plain_writer w"
  with assms(1) obtain v where v: "m w = Inr ((), v)" "plain_writer v" "contents v = contents w @ x"
    unfolding appends_def by blast
  with assms(2) obtain t where "k v = Inr ((), t)" "concat (hw_sent t) = contents v @ y"
    unfolding sends_def by blast
  with v show "\<exists>t. bind m (\<lambda>_. k) w = Inr ((), t) \<and> concat (hw_sent t) = contents w @ x @ y"
    by (simp add: exec_simps)
qed

lemma sends_new:
  assumes "sends m x" and "length garbage = buffer_size"
  shows "\<exists>w. m (HttpWriter_new garbage False) = Inr ((), w) \<and> concat (hw_sent w) = x"
proof -
  have "plain_writer (HttpWriter_new garbage False)"
    using assms(2) by (simp add: plain_writer_def HttpWriter_new_def)
  with assms(1) show ?thesis by (auto simp: sends_def contents_new)
qed

end
