(* ===== verification/HttpGateway.thy ===== *)
theory HttpGateway
  imports HttpServer HttpMessages GraphQlQueries
begin

text \<open>
  What holds of the gateway while libuv runs its callbacks.  \<open>serves\<close> are the runs of the server, counting the
  requests it has read; \<open>server_ok\<close> is the invariant of its states.
\<close>

section \<open>Runs\<close>

text \<open>Whether a callback reads a request: data of a connection whose handshake is over and that decrypts to some text.\<close>

definition reads_request :: "'ssl platform \<Rightarrow> uv_event \<Rightarrow> 'ssl HttpServer \<Rightarrow> bool" where
  "reads_request env ev s \<longleftrightarrow> (case ev of
     Read h len base \<Rightarrow> len \<noteq> 0 \<and> (case gc_ssl_handle (sv_client s) of
         None \<Rightarrow> False
       | Some i \<Rightarrow> SSL_is_init_finished env (sv_sessions s ! i) \<and>
           0 < fst (fst (SSL_read env 10240 (BIO_write env len base (sv_sessions s ! i)))))
   | _ \<Rightarrow> False)"

inductive serves :: "'ssl platform \<Rightarrow> 'ssl HttpServer \<Rightarrow> nat \<Rightarrow> 'ssl HttpServer \<Rightarrow> bool"
  for env :: "'ssl platform" and s :: "'ssl HttpServer" where
  start: "serves env s 0 s"
| callback: "serves env s n t \<Longrightarrow> may_occur ev t \<Longrightarrow> run_callback env ev t = Inr ((), t') \<Longrightarrow>
    serves env s (n + of_bool (reads_request env ev t)) t'"

section \<open>The calculus of the callbacks\<close>

named_theorems server_wp \<open>weakest preconditions of the operations of the server\<close>

lemma wp_emit [server_wp]: "wp (emit x) Q E s = Q () (s\<lparr>sv_effects := sv_effects s @ [x]\<rparr>)"
  by (simp add: emit_def wp_simps)

lemma wp_valid_pointer [server_wp]:
  "wp (valid_pointer x) Q E s =
     (case x of None \<Rightarrow> E (Undefined_behaviour ''invalid pointer'') | Some y \<Rightarrow> Q y s)"
  by (simp add: valid_pointer_def wp_simps split: option.split)

lemma wp_on_session [server_wp]:
  "wp (on_session f) Q E s = (case gc_ssl_handle (sv_client s) of
     None \<Rightarrow> E (Undefined_behaviour ''invalid pointer'')
   | Some i \<Rightarrow> if i < length (sv_sessions s)
       then Q (fst (f (sv_sessions s ! i))) (s\<lparr>sv_sessions := (sv_sessions s)[i := snd (f (sv_sessions s ! i))]\<rparr>)
       else E (Undefined_behaviour ''invalid pointer''))"
  by (simp add: on_session_def wp_simps server_wp Let_def split: option.split prod.split)

lemma wp_client_handle [server_wp]:
  "wp client_handle Q E s = (case gc_tcp_handle (sv_client s) of
     None \<Rightarrow> E (Undefined_behaviour ''invalid pointer'') | Some h \<Rightarrow> Q h s)"
  by (simp add: client_handle_def wp_simps server_wp)

lemma wp_client_request [server_wp]:
  "wp (client_request i) Q E s =
     (if i < length (sv_requests s) then Q (sv_requests s ! i) s else E (Undefined_behaviour ''invalid pointer''))"
  by (simp add: client_request_def wp_simps)

lemma wp_new_handle [server_wp]:
  "wp new_handle Q E s = Q (sv_handles s) (s\<lparr>sv_handles := sv_handles s + 1\<rparr>)"
  by (simp add: new_handle_def wp_simps)

lemma wp_result_of [server_wp]: "wp (result_of r) Q E s = (case r of Inl e \<Rightarrow> E e | Inr x \<Rightarrow> Q x s)"
  by (simp add: result_of_def wp_simps split: sum.split)

lemma wp_for_each:
  assumes "I s" and "\<And>x s. x \<in> set xs \<Longrightarrow> I s \<Longrightarrow> wp (f x) (\<lambda>_. I) E s"
  shows "wp (for_each f xs) (\<lambda>_. I) E s"
  using assms
proof (induction xs arbitrary: s)
  case (Cons x xs)
  then show ?case by (auto simp: wp_simps intro!: wp_mono [OF Cons.prems(2)])
qed (simp add: wp_simps)

text \<open>The pool is all that the parsing of a request changes, and its free blocks get fewer.\<close>

definition shrinks :: "nat \<Rightarrow> MemoryPool \<Rightarrow> MemoryPool \<Rightarrow> bool" where
  "shrinks k p p' \<longleftrightarrow> length (free_blocks p') + k \<le> length (free_blocks p) \<and>
     set (free_blocks p') \<subseteq> set (free_blocks p) \<and> block_size p' = block_size p"

lemma shrinks_refl [simp]: "shrinks 0 p p"
  by (simp add: shrinks_def)

lemma shrinks_trans: "shrinks k p q \<Longrightarrow> shrinks l q r \<Longrightarrow> shrinks (k + l) p r"
  by (auto simp: shrinks_def)

lemma allocate_nodes_shrinks: "allocate_nodes rs (p, t) = Inr (x, (p', t')) \<Longrightarrow> shrinks 0 p p'"
proof (induction rs arbitrary: p t rule: allocate_nodes.induct)
  case (2 sz al rs)
  then obtain a p1 t1 where a: "Allocate sz al (p, t) = Inr (a, (p1, t1))" "allocate_nodes rs (p1, t1) = Inr (x, (p', t'))"
    by (auto elim!: bind_InrE)
  from a(1) have "shrinks 0 p p1" by (rule Allocate_cases) (auto simp: shrinks_def)
  with "2.IH" [OF a(2)] show ?case using shrinks_trans by fastforce
qed (simp add: exec_simps)

definition pool_used :: "nat \<Rightarrow> 'ssl HttpServer \<Rightarrow> 'ssl HttpServer \<Rightarrow> bool" where
  "pool_used k s t \<longleftrightarrow> (\<exists>pool. t = s\<lparr>sv_memory_pool := pool\<rparr> \<and> shrinks k (sv_memory_pool s) pool)"

lemma pool_used_trans:
  assumes "pool_used k s t" and "pool_used l t r"
  shows "pool_used (k + l) s r"
proof -
  from assms obtain p q where "t = s\<lparr>sv_memory_pool := p\<rparr>" "shrinks k (sv_memory_pool s) p"
    "r = s\<lparr>sv_memory_pool := q\<rparr>" "shrinks l p q"
    by (auto simp: pool_used_def)
  then show ?thesis unfolding pool_used_def using shrinks_trans by (intro exI [of _ q]) blast
qed

lemma take_ticket_used: "wp take_ticket (\<lambda>_. pool_used 1 s) (\<lambda>_. True) s"
  by (auto simp: wp_def take_ticket_def TakeTicket_def AllocateBlock_def bind_def exec_simps pool_used_def shrinks_def
      split: sum.splits list.splits)

lemma allocate_from_pool_used: "wp (allocate_from_pool rs ticket) (\<lambda>_. pool_used 0 s) (\<lambda>_. True) s"
  by (auto simp: wp_def allocate_from_pool_def pool_used_def dest: allocate_nodes_shrinks split: sum.splits)

lemma ParseRequest_used: "wp (ParseRequest env buf n) (\<lambda>_. pool_used 1 s) (\<lambda>_. True) s"
proof -
  have alloc: "wp (allocate_from_pool rs ticket) (\<lambda>_. pool_used 1 s) (\<lambda>_. True) t" if "pool_used 1 s t" for rs ticket t
    by (rule wp_mono [OF allocate_from_pool_used]) (use pool_used_trans [OF that] in auto)
  show ?thesis
    unfolding ParseRequest_def Let_def
    by (auto simp: wp_simps server_wp split: sum.split prod.split option.split
        intro!: wp_mono [OF take_ticket_used] wp_mono [OF alloc])
qed

section \<open>The invariant\<close>

text \<open>
  There is one client, whose TLS session and TCP handle are those of the newest connection; a request to the backend is
  one for an entry of \<open>field_to_endpoint\<close>, and if there is one, a field has been recorded; what libuv was asked to do
  concerns objects that exist.
\<close>

definition client_ok :: "nat \<Rightarrow> nat \<Rightarrow> GatewayClient \<Rightarrow> bool" where
  "client_ok sessions handles c \<longleftrightarrow>
     gc_ssl_handle c = (if sessions = 0 then None else Some (sessions - 1)) \<and>
     (case gc_tcp_handle c of None \<Rightarrow> sessions = 0 | Some h \<Rightarrow> h < handles) \<and>
     (gc_fields c = [] \<or> map fst (gc_fields c) = [u ''field''])"

definition request_ok :: "nat \<Rightarrow> ClientRequest \<Rightarrow> bool" where
  "request_ok handles r \<longleftrightarrow>
     cr_hostname r = u ''localhost'' \<and> cr_port r = 4000 \<and> cr_host r = u ''localhost:4000'' \<and> cr_path r = u ''/graphql'' \<and>
     (case cr_tcp_handle r of None \<Rightarrow> True | Some h \<Rightarrow> h < handles)"

definition effect_ok :: "nat \<Rightarrow> nat \<Rightarrow> ClientRequest list \<Rightarrow> server_effect \<Rightarrow> bool" where
  "effect_ok sessions handles rs x \<longleftrightarrow> (case x of
     Read_start h \<Rightarrow> h < handles \<and> 0 < sessions
   | Lookup i \<Rightarrow> i < length rs
   | Tcp_connect h i a \<Rightarrow> i < length rs \<and> cr_tcp_handle (rs ! i) \<noteq> None
   | _ \<Rightarrow> True)"

definition server_ok :: "'ssl HttpServer \<Rightarrow> bool" where
  "server_ok s \<longleftrightarrow>
     client_ok (length (sv_sessions s)) (sv_handles s) (sv_client s) \<and>
     list_all (request_ok (sv_handles s)) (sv_requests s) \<and>
     list_all (effect_ok (length (sv_sessions s)) (sv_handles s) (sv_requests s)) (sv_effects s) \<and>
     (sv_requests s \<noteq> [] \<longrightarrow> gc_fields (sv_client s) \<noteq> [] \<and> sv_sessions s \<noteq> [])"

lemma request_ok_mono: "request_ok h r \<Longrightarrow> h \<le> h' \<Longrightarrow> request_ok h' r"
  by (auto simp: request_ok_def split: option.splits)

lemma requests_ok_mono: "list_all (request_ok h) rs \<Longrightarrow> h \<le> h' \<Longrightarrow> list_all (request_ok h') rs"
  using request_ok_mono by (auto simp: list_all_iff)

definition requests_grow :: "ClientRequest list \<Rightarrow> ClientRequest list \<Rightarrow> bool" where
  "requests_grow rs rs' \<longleftrightarrow> length rs \<le> length rs' \<and>
     (\<forall>i < length rs. cr_tcp_handle (rs ! i) \<noteq> None \<longrightarrow> cr_tcp_handle (rs' ! i) \<noteq> None)"

lemma requests_grow_simps [simp]:
  "requests_grow rs rs" "requests_grow [] rs" "requests_grow rs (rs @ rs')"
  by (auto simp: requests_grow_def nth_append)

lemma requests_grow_update [simp]: "cr_tcp_handle r \<noteq> None \<Longrightarrow> requests_grow rs (rs[i := r])"
  by (auto simp: requests_grow_def) (metis nth_list_update_eq nth_list_update_neq)

lemma effects_ok_mono:
  assumes "list_all (effect_ok m h rs) xs" and "m \<le> m'" and "h \<le> h'" and "requests_grow rs rs'"
  shows "list_all (effect_ok m' h' rs') xs"
  using assms unfolding list_all_iff requests_grow_def
  by (fastforce simp: effect_ok_def split: server_effect.splits)

lemma server_ok_emit [simp]:
  "server_ok (s\<lparr>sv_effects := sv_effects s @ xs\<rparr>) \<longleftrightarrow>
     server_ok s \<and> list_all (effect_ok (length (sv_sessions s)) (sv_handles s) (sv_requests s)) xs"
  by (auto simp: server_ok_def)

lemma server_ok_pool [simp]: "server_ok (s\<lparr>sv_memory_pool := pool\<rparr>) = server_ok s"
  by (simp add: server_ok_def)

lemma server_ok_session [simp]: "server_ok (s\<lparr>sv_sessions := (sv_sessions s)[i := x]\<rparr>) = server_ok s"
  by (simp add: server_ok_def)

lemma server_ok_new_handle: "server_ok s \<Longrightarrow> server_ok (s\<lparr>sv_handles := Suc (sv_handles s)\<rparr>)"
  by (auto simp: server_ok_def client_ok_def split: option.splits
      intro: requests_ok_mono [OF _ le_SucI] effects_ok_mono [OF _ le_refl le_SucI [OF le_refl]])

text \<open>What the dispatch of a request leaves alone: the pool, the sessions, and what is written to clients.\<close>

definition client_writes :: "server_effect list \<Rightarrow> server_effect list" where
  "client_writes xs = filter (\<lambda>x. case x of Client_write h b \<Rightarrow> True | _ \<Rightarrow> False) xs"

lemma client_writes_append [simp]: "client_writes (xs @ ys) = client_writes xs @ client_writes ys"
  by (simp add: client_writes_def)

definition same_tls :: "'ssl HttpServer \<Rightarrow> 'ssl HttpServer \<Rightarrow> bool" where
  "same_tls s t \<longleftrightarrow> sv_memory_pool t = sv_memory_pool s \<and> sv_sessions t = sv_sessions s \<and>
     client_writes (sv_effects t) = client_writes (sv_effects s)"

lemma same_tls_trans: "same_tls s t \<Longrightarrow> same_tls t r \<Longrightarrow> same_tls s r"
  by (simp add: same_tls_def)

lemma ForwardRequest_ok:
  assumes "server_ok s" and "i < length (sv_requests s)"
  shows "wp (ForwardRequest env i) (\<lambda>_ t. server_ok t \<and> same_tls s t) (\<lambda>_. True) s"
  using assms
  by (auto simp: ForwardRequest_def wp_simps server_wp Let_def effect_ok_def same_tls_def client_writes_def
      split: option.split)

lemma endpoint_cases:
  "map_of field_to_endpoint key = Some e \<longleftrightarrow> key = u ''field'' \<and> e = snd (hd field_to_endpoint)"
  by (auto simp: field_to_endpoint_def)

lemma server_ok_new_request:
  assumes "server_ok s" and "sv_sessions s \<noteq> []" and "request_ok (sv_handles s) r"
  shows "server_ok (s\<lparr>sv_client := (emplace_field (u ''field'') sel (sv_client s))\<lparr>gc_fragments := f\<rparr>,
    sv_requests := sv_requests s @ [r]\<rparr>)"
  using assms
  by (auto simp: server_ok_def client_ok_def emplace_field_def split: option.splits
      intro: effects_ok_mono [OF _ le_refl le_refl])

lemma forward_selections_ok:
  assumes "server_ok s" and "sv_sessions s \<noteq> []"
  shows "wp (forward_selections env frs sels) (\<lambda>_ t. server_ok t \<and> same_tls s t) (\<lambda>_. True) s"
  using assms
proof (induction sels arbitrary: s)
  case Nil
  then show ?case by (simp add: wp_simps same_tls_def)
next
  case (Cons sel sels)
  let ?r = "\<lparr>cr_hostname = u ''localhost'', cr_port = 4000, cr_host = u ''localhost:4000'', cr_path = u ''/graphql'',
    cr_tcp_handle = None\<rparr>"
  let ?s = "s\<lparr>sv_client := (emplace_field (u ''field'') sel (sv_client s))\<lparr>gc_fragments := Some frs\<rparr>,
    sv_requests := sv_requests s @ [?r]\<rparr>"
  have "server_ok ?s" by (rule server_ok_new_request) (use Cons.prems in \<open>simp_all add: request_ok_def\<close>)
  then have "wp (ForwardRequest env (length (sv_requests s)))
      (\<lambda>_ t. wp (forward_selections env frs sels) (\<lambda>_ t. server_ok t \<and> same_tls s t) (\<lambda>_. True) t) (\<lambda>_. True) ?s"
    using Cons.prems
    by (intro wp_mono [OF ForwardRequest_ok]) (auto intro!: wp_mono [OF Cons.IH] simp: same_tls_def)
  then show ?case
    using Cons.prems
    by (simp add: wp_simps server_wp Let_def same_tls_def endpoint_cases split: option.split)
       (simp add: field_to_endpoint_def)
qed

lemma dispatch_definition_ok:
  assumes "server_ok s" and "sv_sessions s \<noteq> []"
  shows "wp (dispatch_definition env d) (\<lambda>_ t. server_ok t \<and> same_tls s t) (\<lambda>_. True) s"
  unfolding dispatch_definition_def
  using assms forward_selections_ok [OF assms]
  by (auto simp: wp_simps server_wp same_tls_def split: sum.split option.split SelectionSet.split)

section \<open>Every callback keeps the invariant\<close>

text \<open>A change of the newest TLS session only.\<close>

definition newest_only :: "'ssl HttpServer \<Rightarrow> 'ssl HttpServer \<Rightarrow> bool" where
  "newest_only s t \<longleftrightarrow> length (sv_sessions t) = length (sv_sessions s) \<and> butlast (sv_sessions t) = butlast (sv_sessions s)"

lemma newest_session:
  assumes "server_ok s"
  shows "gc_ssl_handle (sv_client s) = Some i \<longleftrightarrow> sv_sessions s \<noteq> [] \<and> i = length (sv_sessions s) - 1"
  using assms by (auto simp: server_ok_def client_ok_def)

text \<open>What a call on the session gives in a state of the invariant.\<close>

lemma wp_newest:
  assumes "server_ok s"
    and "\<And>i t. sv_sessions s \<noteq> [] \<Longrightarrow> i = length (sv_sessions s) - 1 \<Longrightarrow>
      t = s\<lparr>sv_sessions := (sv_sessions s)[i := snd (f (sv_sessions s ! i))]\<rparr> \<Longrightarrow> server_ok t \<Longrightarrow> newest_only s t \<Longrightarrow>
      Q (fst (f (sv_sessions s ! i))) t"
  shows "wp (on_session f) Q (\<lambda>_. True) s"
  using assms
  by (auto simp: server_wp newest_session newest_only_def butlast_list_update split: option.split)

lemma newest_only_trans: "newest_only s t \<Longrightarrow> newest_only t r \<Longrightarrow> newest_only s r"
  by (simp add: newest_only_def)

lemma FlushWriteBio_ok:
  assumes "server_ok s"
  shows "wp (FlushWriteBio env) (\<lambda>_ t. server_ok t \<and> newest_only s t \<and> sv_memory_pool t = sv_memory_pool s)
      (\<lambda>_. True) s"
proof -
  let ?I = "\<lambda>t. server_ok t \<and> newest_only s t \<and> sv_memory_pool t = sv_memory_pool s"
  have socket: "wp (gateway_WriteToSocket env b) (\<lambda>_. ?I) (\<lambda>_. True) t" if "?I t" for b t
    using that
    by (auto simp: gateway_WriteToSocket_def wp_simps server_wp effect_ok_def newest_only_def split: option.split)
  show ?thesis
    unfolding FlushWriteBio_def wp_bind
    by (rule wp_newest [OF assms], rule wp_for_each) (simp_all add: socket)
qed

text \<open>The four things that hold of a callback, in a state of the invariant.\<close>

definition callback_ok :: "'ssl platform \<Rightarrow> uv_event \<Rightarrow> 'ssl HttpServer \<Rightarrow> 'ssl HttpServer \<Rightarrow> bool" where
  "callback_ok env ev s t \<longleftrightarrow> server_ok t \<and>
     shrinks (of_bool (reads_request env ev s)) (sv_memory_pool s) (sv_memory_pool t) \<and>
     (case ev of
        Read h len base \<Rightarrow> newest_only s t \<and>
          (SSL_is_init_finished env (last (sv_sessions s)) \<longrightarrow> client_writes (sv_effects t) = client_writes (sv_effects s))
      | New_connection a b c \<Rightarrow> sv_sessions t = sv_sessions s @ [SSL_new env] \<and> client_writes (sv_effects t) = client_writes (sv_effects s)
      | _ \<Rightarrow> same_tls s t)"

lemma request_ok_read:
  assumes "server_ok s" and "sv_sessions s \<noteq> []"
  shows "wp (bind (ParseRequest env buf n) (\<lambda>d. case d of None \<Rightarrow> ret False | Some d \<Rightarrow> dispatch_definition env d))
    (\<lambda>_ t. server_ok t \<and> sv_sessions t = sv_sessions s \<and> shrinks 1 (sv_memory_pool s) (sv_memory_pool t) \<and>
      client_writes (sv_effects t) = client_writes (sv_effects s)) (\<lambda>_. True) s"
proof -
  have "wp (case d of None \<Rightarrow> ret False | Some d \<Rightarrow> dispatch_definition env d)
    (\<lambda>_ r. server_ok r \<and> sv_sessions r = sv_sessions s \<and> shrinks 1 (sv_memory_pool s) (sv_memory_pool r) \<and>
      client_writes (sv_effects r) = client_writes (sv_effects s)) (\<lambda>_. True) t" if used: "pool_used 1 s t" for d t
  proof -
    from used assms have t: "server_ok t" "sv_sessions t = sv_sessions s" "shrinks 1 (sv_memory_pool s) (sv_memory_pool t)"
      "sv_effects t = sv_effects s" by (auto simp: pool_used_def)
    with assms(2) show ?thesis
      by (cases d) (auto simp: wp_simps same_tls_def intro!: wp_mono [OF dispatch_definition_ok])
  qed
  then show ?thesis unfolding wp_bind by (rule wp_mono [OF ParseRequest_used])
qed

lemma on_decrypted_ok:
  assumes "server_ok s" and "sv_sessions s \<noteq> []"
  shows "wp (on_decrypted env n buf)
    (\<lambda>_ t. server_ok t \<and> sv_sessions t = sv_sessions s \<and> shrinks (of_bool (n \<noteq> 0)) (sv_memory_pool s) (sv_memory_pool t) \<and>
      client_writes (sv_effects t) = client_writes (sv_effects s)) (\<lambda>_. True) s"
proof (cases "n = 0")
  case True
  with assms show ?thesis by (simp add: on_decrypted_def wp_simps server_wp effect_ok_def client_writes_def)
next
  case False
  have "wp (if b then emit Free_buffer else ret ())
    (\<lambda>_ t. server_ok t \<and> sv_sessions t = sv_sessions s \<and> shrinks 1 (sv_memory_pool s) (sv_memory_pool t) \<and>
      client_writes (sv_effects t) = client_writes (sv_effects s)) (\<lambda>_. True) t"
    if "server_ok t" "sv_sessions t = sv_sessions s" "shrinks 1 (sv_memory_pool s) (sv_memory_pool t)"
      "client_writes (sv_effects t) = client_writes (sv_effects s)" for b t
    using that by (simp add: wp_simps server_wp effect_ok_def client_writes_def)
  with False show ?thesis
    by (simp add: on_decrypted_def, subst wp_bind) (auto intro!: wp_mono [OF request_ok_read [OF assms]])
qed

lemma on_read_ok:
  assumes "server_ok s"
  shows "wp (on_read env h len base) (\<lambda>_. callback_ok env (Read h len base) s) (\<lambda>_. True) s"
proof (cases "len = 0 \<or> sv_sessions s = []")
  case True
  with assms show ?thesis
    by (auto simp: on_read_def wp_simps server_wp callback_ok_def effect_ok_def reads_request_def newest_only_def
        client_writes_def newest_session split: option.split)
next
  case False
  define k where "k = length (sv_sessions s) - 1"
  define ssl where "ssl = BIO_write env len base (sv_sessions s ! k)"
  from False have len: "len \<noteq> 0" and ne: "sv_sessions s \<noteq> []" by simp_all
  then have k: "gc_ssl_handle (sv_client s) = Some k" "k < length (sv_sessions s)" "sv_sessions s ! k = last (sv_sessions s)"
    using newest_session [OF assms] by (simp_all add: k_def last_conv_nth)
  have ok: "server_ok (s\<lparr>sv_sessions := (sv_sessions s)[k := x]\<rparr>)"
    "newest_only s (s\<lparr>sv_sessions := (sv_sessions s)[k := x]\<rparr>)" for x
    using assms by (simp_all add: newest_only_def k_def butlast_list_update)
  show ?thesis
  proof (cases "SSL_is_init_finished env (sv_sessions s ! k)")
    case False
    then have "callback_ok env (Read h len base) s t"
      if "server_ok t \<and> newest_only (s\<lparr>sv_sessions := (sv_sessions s)[k := x]\<rparr>) t \<and> sv_memory_pool t = sv_memory_pool s" for x t
      using that ok(2) [of x] k newest_only_trans by (auto simp: callback_ok_def reads_request_def)
    with False show ?thesis
      by (simp add: on_read_def wp_simps server_wp len k(1,2))
        (rule wp_mono [OF FlushWriteBio_ok [OF ok(1)]], simp_all)
  next
    case True
    obtain n buf ssl' where read: "SSL_read env 10240 ssl = ((n, buf), ssl')" by (metis surj_pair)
    let ?s = "s\<lparr>sv_sessions := (sv_sessions s)[k := ssl']\<rparr>"
    have "callback_ok env (Read h len base) s t"
      if "server_ok t \<and> sv_sessions t = sv_sessions ?s \<and> shrinks (of_bool (n \<noteq> 0)) (sv_memory_pool ?s) (sv_memory_pool t) \<and>
        client_writes (sv_effects t) = client_writes (sv_effects ?s)" "0 \<le> n" for t
      using that ok(2) [of ssl'] k read len True
      by (auto simp: callback_ok_def reads_request_def newest_only_def ssl_def of_bool_def)
    moreover have "callback_ok env (Read h len base) s (?s\<lparr>sv_effects := sv_effects s @ [Message m n]\<rparr>)" if "n < 0" for m
      using that ok [of ssl'] k read len server_ok_emit [of ?s "[Message m n]"]
      by (simp add: callback_ok_def reads_request_def newest_only_def ssl_def effect_ok_def client_writes_def)
    ultimately show ?thesis
      using True read ne ok(1) [of ssl']
      by (auto simp: on_read_def wp_simps server_wp len k(1,2) ssl_def [symmetric] handle_error_def
          intro!: wp_mono [OF on_decrypted_ok])
  qed
qed

lemma OnNewConnection_ok:
  assumes "server_ok s"
  shows "wp (OnNewConnection env a b c) (\<lambda>_. callback_ok env (New_connection a b c) s) (\<lambda>_. True) s"
proof -
  let ?s = "\<lambda>xs. s\<lparr>sv_sessions := sv_sessions s @ [SSL_new env], sv_handles := Suc (sv_handles s),
    sv_client := (sv_client s)\<lparr>gc_ssl_handle := Some (length (sv_sessions s)), gc_tcp_handle := Some (sv_handles s)\<rparr>,
    sv_effects := xs\<rparr>"
  have ok: "server_ok (?s (sv_effects s @ xs))"
    if "list_all (effect_ok (Suc (length (sv_sessions s))) (Suc (sv_handles s)) (sv_requests s)) xs" for xs
    using assms that
    by (auto simp: server_ok_def client_ok_def intro: requests_ok_mono [OF _ le_SucI] effects_ok_mono [OF _ le_SucI le_SucI])
  then have "callback_ok env (New_connection a b c) s (?s (sv_effects s @ xs))"
    if "list_all (effect_ok (Suc (length (sv_sessions s))) (Suc (sv_handles s)) (sv_requests s)) xs" "client_writes xs = []" for xs
    using that by (simp add: callback_ok_def reads_request_def)
  note this [of "_ # _"] this [of "[]"] this [of "[_]"]
  then show ?thesis
    by (auto simp: OnNewConnection_def wp_simps server_wp effect_ok_def client_writes_def)
qed

lemma OnResolvedIpv4_ok:
  assumes "server_ok s"
  shows "wp (OnResolvedIpv4 env i res) (\<lambda>_. callback_ok env (Resolved i res) s) (\<lambda>_. True) s"
proof -
  have "server_ok (s\<lparr>sv_handles := Suc (sv_handles s),
      sv_requests := (sv_requests s)[i := (sv_requests s ! i)\<lparr>cr_tcp_handle := Some (sv_handles s)\<rparr>],
      sv_effects := sv_effects s @ [Tcp_connect (sv_handles s) i a]\<rparr>)" if "i < length (sv_requests s)" for a
  proof -
    let ?r = "(sv_requests s ! i)\<lparr>cr_tcp_handle := Some (sv_handles s)\<rparr>"
    have "list_all (request_ok (Suc (sv_handles s))) (sv_requests s)"
      using assms by (auto simp: server_ok_def intro: requests_ok_mono)
    moreover from this that have "request_ok (Suc (sv_handles s)) ?r"
      by (simp add: list_all_length request_ok_def)
    ultimately have "list_all (request_ok (Suc (sv_handles s))) ((sv_requests s)[i := ?r])"
      by (auto simp: list_all_iff dest: subsetD [OF set_update_subset_insert])
    with assms that show ?thesis
      by (auto simp: server_ok_def client_ok_def effect_ok_def split: option.splits
          intro!: effects_ok_mono [OF _ le_refl le_SucI [OF le_refl]])
  qed
  with assms show ?thesis
    by (auto simp: OnResolvedIpv4_def wp_simps server_wp Let_def callback_ok_def reads_request_def same_tls_def effect_ok_def
        client_writes_def split: option.split prod.split)
qed

lemma OnClientConnect_ok:
  assumes "server_ok s"
  shows "wp (OnClientConnect env i status) (\<lambda>_. callback_ok env (Connected i status) s) (\<lambda>_. True) s"
proof -
  let ?I = "\<lambda>t. server_ok t \<and> same_tls s t"
  have query: "wp (send_query env h r) (\<lambda>_. ?I) (\<lambda>_. True) t" if "?I t" for h r t
    using that by (auto simp: send_query_def wp_simps server_wp effect_ok_def same_tls_def client_writes_def split: sum.split)
  have loop: "wp (for_each (\<lambda>f. send_query env h r) fs) (\<lambda>_. ?I) (\<lambda>_. True) t" if "?I t" for h r t fs
    by (rule wp_for_each) (use that query in auto)
  have "callback_ok env (Connected i st) s t" if "?I t" for t st
    using that by (simp add: callback_ok_def reads_request_def same_tls_def)
  then have sent: "wp (for_each (\<lambda>f. send_query env h r) fs) (\<lambda>_. callback_ok env (Connected i st) s) (\<lambda>_. True) t"
    if "?I t" for h r t fs st
    by (rule wp_mono [OF loop [OF that]])
  have "h < sv_handles s \<and> sv_sessions s \<noteq> []"
    if "i < length (sv_requests s)" "cr_tcp_handle (sv_requests s ! i) = Some h" for h
    using assms that by (fastforce simp: server_ok_def request_ok_def list_all_length)
  with assms show ?thesis
    by (auto simp: OnClientConnect_def wp_simps server_wp effect_ok_def same_tls_def client_writes_def split: option.split
        intro!: sent)
qed

lemma callback_ok_other:
  assumes "server_ok s" and "case ev of Read _ _ _ \<Rightarrow> False | New_connection _ _ _ \<Rightarrow> False | _ \<Rightarrow> True"
  shows "callback_ok env ev s s"
    and "list_all (effect_ok (length (sv_sessions s)) (sv_handles s) (sv_requests s)) xs \<Longrightarrow> client_writes xs = [] \<Longrightarrow>
      callback_ok env ev s (s\<lparr>sv_effects := sv_effects s @ xs\<rparr>)"
  using assms by (cases ev; simp add: callback_ok_def reads_request_def same_tls_def)+

lemma run_callback_ok:
  assumes "server_ok s" and "run_callback env ev s = Inr ((), t)"
  shows "callback_ok env ev s t"
proof -
  note other = callback_ok_other [OF assms(1)]
  have "wp (run_callback env ev) (\<lambda>_. callback_ok env ev s) (\<lambda>_. True) s"
  proof (cases ev)
    case (Write_ended status)
    then show ?thesis
      by (auto simp: run_callback_def OnWriteEnd_def wp_simps server_wp effect_ok_def client_writes_def intro!: other)
  next
    case (Backend_read h len)
    then show ?thesis
      by (auto simp: run_callback_def OnForwardRequestRead_def wp_simps server_wp effect_ok_def client_writes_def intro!: other)
  next
    case (Interval ppid)
    then show ?thesis
      by (auto simp: run_callback_def OnInterval_def HttpServer_Close_def wp_simps server_wp effect_ok_def client_writes_def
          intro!: other)
  next
    case Signal
    then show ?thesis
      by (auto simp: run_callback_def HandleSignal_def wp_simps server_wp effect_ok_def client_writes_def intro!: other)
  qed (use assms(1) in \<open>simp_all add: run_callback_def OnNewConnection_ok on_read_ok OnResolvedIpv4_ok OnClientConnect_ok\<close>)
  with assms(2) show ?thesis by (simp add: wp_def)
qed

definition pool_ok :: "MemoryPool \<Rightarrow> bool" where
  "pool_ok p \<longleftrightarrow> block_size p = 4096 \<and> (\<forall>b \<in> set (free_blocks p). b < 10000)"

lemma Listen_ok:
  assumes "Listen host port ppid resolve_path key_made key_set address r = Inr s"
  shows "server_ok s" and "length (free_blocks (sv_memory_pool s)) = 10000" and "pool_ok (sv_memory_pool s)"
  using assms
  by (auto simp: Listen_def MemoryPool_new_def Reset_def server_ok_def client_ok_def effect_ok_def pool_ok_def split: sum.splits)

lemma serves_ok:
  assumes "serves env s n t" and "server_ok s"
  shows "server_ok t \<and> shrinks n (sv_memory_pool s) (sv_memory_pool t)"
  using assms
proof induction
  case (callback n t ev t')
  then show ?case
    using run_callback_ok [of t env ev t'] shrinks_trans [of n "sv_memory_pool s" "sv_memory_pool t"]
    by (auto simp: callback_ok_def)
qed simp

end
