(* ===== verification/HttpForwarding.thy ===== *)
theory HttpForwarding
  imports HttpGateway
begin

text \<open>
  What the gateway does with the requests it reads: which of them it forwards, what it sends to the backend, and
  what goes wrong on the way.
\<close>

section \<open>The request to the backend\<close>

definition query_body :: ustring where
  "query_body = u ''{ \"query\": \"{ field }\" }''"

definition backend_headers :: "ClientRequest \<Rightarrow> header_line list" where
  "backend_headers r =
     [(u ''Host'', cr_host r), (u ''User-Agent'', u ''flash''), (u ''Accept'', u ''*/*''),
      (u ''Content-Type'', u ''application/json; charset=utf-8''), (u ''Content-Length'', u ''24'')]"

lemma backend_request_sends:
  assumes "cr_path r = Slash # p" and "0 \<notin> set (cr_path r)" and "0 \<notin> set (cr_host r)"
  shows "sends (backend_request env r) (request_text Post p None (backend_headers r) query_body)"
proof -
  let ?lines = "(u ''POST '' @ cr_path r @ u '' HTTP/1.1'' @ crlf) @ (concat [u ''Host: '', cr_host r] @ crlf) @
    (concat [u ''User-Agent: flash''] @ crlf) @ (concat [u ''Accept: */*''] @ crlf) @
    (concat [u ''Content-Type: application/json; charset=utf-8''] @ crlf) @ (concat [u ''Content-Length: 24''] @ crlf) @
    (concat [] @ crlf) @ u ''{ \"query\": \"{ field }\" }'' @ []"
  have "sends (backend_request env r) ?lines"
    unfolding backend_request_def Let_def
    by (intro sends_bind sends_End appends_WriteRequest appends_WriteLine appends_Write)
      (use assms in \<open>simp_all add: method_prefix_def\<close>)
  moreover have "?lines = request_text Post p None (backend_headers r) query_body"
    by (simp add: request_text_def assms(1) method_name_def target_def header_lines_def header_line_def backend_headers_def
        query_body_def crlf_def)
  ultimately show ?thesis by simp
qed

lemma localhost_parsed:
  assumes "cr_host r = u ''localhost:4000''" and "cr_path r = u ''/graphql''" and "8 \<le> length behind"
  shows "\<exists>request t. Parse (HttpParser_new (request_text Post (u ''graphql'') None (backend_headers r) query_body @ behind)
      (length (request_text Post (u ''graphql'') None (backend_headers r) query_body))) = Inr (request, t) \<and>
    ahead t = [] \<and> rq_method request = Post \<and> rq_path request = u ''/graphql'' \<and> rq_body request = Some query_body"
proof -
  let ?p = "u ''graphql''" and ?ls = "backend_headers r"
  have good: "list_all good_header ?ls"
    by (simp add: backend_headers_def assms(1) good_header_def is_header_field_start_def is_header_field_part_def is_vchar_def
        signed_char_def)
  have target: "target_ok ?p None"
    by (simp add: target_ok_def path_char_def is_unreserved_char_def isalnum_def)
  have len: "header_entries ?ls Map.empty H_ContentLength = Some (Some (u ''24''))"
    by (simp add: backend_headers_def get_header_def string_to_token_def tolower_def)
  have atoll: "atoll (u ''24'') = Inr (int (length query_body))"
    by (simp add: atoll_def isspace_def query_body_def)
  show ?thesis
    using request_parsed [OF _ _ target good assms(3) len atoll, of Post] by (auto simp: query_body_def)
qed

lemma backend_request_parsed:
  assumes "cr_host r = u ''localhost:4000''" and "cr_path r = u ''/graphql''"
    and "length (uninitialised env) = buffer_size" and "8 \<le> length behind"
  shows "\<exists>bs request t. send_query env h r s = Inr ((), s\<lparr>sv_effects := sv_effects s @ [Backend_write h bs]\<rparr>) \<and>
    Parse (HttpParser_new (concat bs @ behind) (length (concat bs))) = Inr (request, t) \<and> ahead t = [] \<and>
    rq_method request = Post \<and> rq_path request = u ''/graphql'' \<and> rq_body request = Some query_body"
proof -
  have "sends (backend_request env r) (request_text Post (u ''graphql'') None (backend_headers r) query_body)"
    by (rule backend_request_sends) (simp_all add: assms)
  from sends_new [OF this assms(3)] obtain w where
    w: "backend_request env r (HttpWriter_new (uninitialised env) False) = Inr ((), w)"
    "concat (hw_sent w) = request_text Post (u ''graphql'') None (backend_headers r) query_body" by blast
  from localhost_parsed [OF assms(1,2,4)] obtain request t where
    "Parse (HttpParser_new (concat (hw_sent w) @ behind) (length (concat (hw_sent w)))) = Inr (request, t)" "ahead t = []"
    "rq_method request = Post" "rq_path request = u ''/graphql''" "rq_body request = Some query_body"
    unfolding w(2) by blast
  moreover have "send_query env h r s = Inr ((), s\<lparr>sv_effects := sv_effects s @ [Backend_write h (hw_sent w)]\<rparr>)"
    by (simp add: send_query_def w(1) emit_def exec_simps)
  ultimately show ?thesis by blast
qed

text \<open>C8. Every connection to the backend gets one request, and a well-formed one.  In every run of the server,
  when libuv reports that a connection to the backend is there, \<open>OnClientConnect\<close> does not fail; it starts reading and
  writes one text, which \<open>HttpParser\<close> reads to its end as a \<open>POST\<close> request for \<open>/graphql\<close> with the whole query as its
  body: the \<open>Content-Length\<close> it writes, 24, is right.\<close>

theorem backend_gets_one_request:
  assumes "Listen host port ppid resolve_path key_made key_set address r = Inr s" and "serves env s n t"
    and "may_occur (Connected i status) t" and "length (uninitialised env) = 4096" and "8 \<le> length behind"
  shows "\<exists>h bs request sc. run_callback env (Connected i status) t = Inr ((), t\<lparr>sv_effects := sv_effects t @
        (if status = -1 then [Message ''error on write_end'' status] else []) @ [Read_start h, Backend_write h bs]\<rparr>) \<and>
    cr_tcp_handle (sv_requests t ! i) = Some h \<and>
    Parse (HttpParser_new (concat bs @ behind) (length (concat bs))) = Inr (request, sc) \<and> ahead sc = [] \<and>
    rq_method request = Post \<and> rq_path request = u ''/graphql'' \<and>
    rq_body request = Some (u ''{ \"query\": \"{ field }\" }'')"
proof -
  from serves_ok [OF assms(2)] Listen_ok [OF assms(1)] have ok: "server_ok t" by simp
  from assms(3) obtain x where x: "x \<in> set (sv_effects t)" "case x of Tcp_connect _ j _ \<Rightarrow> j = i | _ \<Rightarrow> False"
    by (auto simp: may_occur_def list_ex_iff)
  obtain h' a where "Tcp_connect h' i a \<in> set (sv_effects t)" by (cases x) (use x in auto)
  with ok have i: "i < length (sv_requests t)" "cr_tcp_handle (sv_requests t ! i) \<noteq> None"
    by (auto simp: server_ok_def list_all_iff effect_ok_def dest!: bspec)
  then obtain h where h: "cr_tcp_handle (sv_requests t ! i) = Some h" by blast
  have r: "cr_host (sv_requests t ! i) = u ''localhost:4000''" "cr_path (sv_requests t ! i) = u ''/graphql''"
    using ok i(1) by (auto simp: server_ok_def list_all_length request_ok_def)
  obtain sel where fields: "gc_fields (sv_client t) = [(u ''field'', sel)]"
    using ok i(1) by (auto simp: server_ok_def client_ok_def)
  let ?t = "t\<lparr>sv_effects := sv_effects t @ (if status = -1 then [Message ''error on write_end'' status] else []) @ [Read_start h]\<rparr>"
  have "length (uninitialised env) = buffer_size" using assms(4) by (simp add: buffer_size_def)
  from backend_request_parsed [OF r this assms(5), of h ?t] obtain bs request sc where
    sent: "send_query env h (sv_requests t ! i) ?t = Inr ((), ?t\<lparr>sv_effects := sv_effects ?t @ [Backend_write h bs]\<rparr>)"
    and parsed: "Parse (HttpParser_new (concat bs @ behind) (length (concat bs))) = Inr (request, sc)" "ahead sc = []"
      "rq_method request = Post" "rq_path request = u ''/graphql''" "rq_body request = Some query_body" by blast
  have "run_callback env (Connected i status) t = bind (send_query env h (sv_requests t ! i)) (\<lambda>_. ret ()) ?t"
    by (simp add: run_callback_def OnClientConnect_def bind_def emit_def exec_basic client_request_def i(1) h
        valid_pointer_def fields)
  then have "run_callback env (Connected i status) t = Inr ((), t\<lparr>sv_effects := sv_effects t @
      (if status = -1 then [Message ''error on write_end'' status] else []) @ [Read_start h, Backend_write h bs]\<rparr>)"
    using sent by (simp add: exec_simps)
  with parsed h show ?thesis
    unfolding query_body_def by (intro exI [of _ h] exI [of _ bs] exI [of _ request] exI [of _ sc] conjI)
qed

section \<open>Forwarding\<close>

definition localhost_request :: ClientRequest where
  "localhost_request = \<lparr>cr_hostname = u ''localhost'', cr_port = 4000, cr_host = u ''localhost:4000'',
     cr_path = u ''/graphql'', cr_tcp_handle = None\<rparr>"

lemma emplace_field_handles [simp]:
  "gc_tcp_handle (emplace_field key sel c) = gc_tcp_handle c" "gc_ssl_handle (emplace_field key sel c) = gc_ssl_handle c"
  by (simp_all add: emplace_field_def)

lemma forward_fields:
  assumes "mirrors (replicate k (Field_leaf (u ''field''))) vs" and "uv_getaddrinfo env (u ''localhost'') (u ''80'') = 0"
  shows "\<exists>c. forward_selections env frs vs s = Inr (True, s\<lparr>sv_client := c,
     sv_requests := sv_requests s @ replicate k localhost_request,
     sv_effects := sv_effects s @ map Lookup [length (sv_requests s)..<length (sv_requests s) + k]\<rparr>) \<and>
     gc_tcp_handle c = gc_tcp_handle (sv_client s) \<and> gc_ssl_handle c = gc_ssl_handle (sv_client s)"
  using assms(1)
proof (induction k arbitrary: vs s)
  case 0
  then have "vs = []" by (cases vs) simp_all
  then show ?case by (intro exI [of _ "sv_client s"]) (simp add: exec_simps)
next
  case (Suc k)
  then obtain sy nm ws where vs: "vs = Field_selection sy None (Some nm) None [] None # ws" "syntax_kind sy = S_Field"
    "nm_identifier nm = u ''field''" "mirrors (replicate k (Field_leaf (u ''field''))) ws"
    by (auto elim: mirrors.elims)
  let ?sel = "Field_selection sy None (Some nm) None [] None"
  let ?s = "s\<lparr>sv_client := (emplace_field (u ''field'') ?sel (sv_client s))\<lparr>gc_fragments := Some frs\<rparr>,
    sv_requests := sv_requests s @ [localhost_request], sv_effects := sv_effects s @ [Lookup (length (sv_requests s))]\<rparr>"
  have "forward_selections env frs vs s = forward_selections env frs ws ?s"
    using vs(2,3) assms(2)
    by (simp add: vs(1) selection_kind_def selection_name_def valid_pointer_def exec_simps field_to_endpoint_def
        ForwardRequest_def client_request_def emit_def localhost_request_def Let_def)
  moreover from Suc.IH [OF vs(4), of ?s] obtain c where
    "forward_selections env frs ws ?s = Inr (True, s\<lparr>sv_client := c,
       sv_requests := sv_requests s @ localhost_request # replicate k localhost_request,
       sv_effects := sv_effects s @ Lookup (length (sv_requests s)) #
         map Lookup [Suc (length (sv_requests s))..<Suc (length (sv_requests s) + k)]\<rparr>)"
    "gc_tcp_handle c = gc_tcp_handle (sv_client s)" "gc_ssl_handle c = gc_ssl_handle (sv_client s)"
    by (auto simp del: upt_Suc)
  ultimately show ?case by (intro exI [of _ c]) (simp add: upt_conv_Cons del: upt_Suc)
qed

text \<open>Allocations return as long as no node is larger than a block and a block is left for each.\<close>

lemma Allocate_returns:
  assumes "pool_ok p" and "sz \<le> 4096" and "free_blocks p \<noteq> []"
  shows "\<exists>a p' t'. Allocate sz al (p, t) = Inr (a, (p', t')) \<and> pool_ok p' \<and>
    length (free_blocks p) \<le> Suc (length (free_blocks p'))"
proof (cases "t_offset t + padding_of al p t + sz \<le> block_size p")
  case True
  with assms(1) show ?thesis by (simp add: Allocate_fits)
next
  case False
  obtain b bs where b: "free_blocks p = b # bs" using assms(3) by (cases "free_blocks p") auto
  with assms False have "Allocate sz al (p, t) = Inr (start_address_of_pool p + start_address_of_block p b,
      (p\<lparr>free_blocks := bs\<rparr>, t\<lparr>t_block := b, t_offset := sz\<rparr>))"
    by (intro Allocate_moves) (auto simp: pool_ok_def)
  with assms(1) b show ?thesis by (simp add: pool_ok_def)
qed

lemma allocate_nodes_returns:
  assumes "pool_ok p" and "list_all (\<lambda>(sz, _). sz \<le> 4096) rs" and "length rs \<le> length (free_blocks p)"
  shows "\<exists>p' t'. allocate_nodes rs (p, t) = Inr ((), (p', t')) \<and> pool_ok p' \<and>
    length (free_blocks p) \<le> length rs + length (free_blocks p')"
  using assms
proof (induction rs arbitrary: p t)
  case (Cons r rs)
  obtain sz al where r: "r = (sz, al)" by (cases r)
  have "free_blocks p \<noteq> []" using Cons.prems(3) by auto
  with Cons.prems Allocate_returns [of p sz al t] obtain a p1 t1 where
    a: "Allocate sz al (p, t) = Inr (a, (p1, t1))" "pool_ok p1" "length (free_blocks p) \<le> Suc (length (free_blocks p1))"
    by (auto simp: r)
  with Cons.IH [OF a(2), of t1] Cons.prems show ?case by (fastforce simp: r exec_simps)
qed (simp add: exec_simps)

lemma allocate_from_pool_returns:
  assumes "pool_ok (sv_memory_pool s)" and "list_all (\<lambda>(sz, _). sz \<le> 4096) rs"
    and "length rs \<le> length (free_blocks (sv_memory_pool s))"
  obtains ticket' p where "allocate_from_pool rs ticket s = Inr (ticket', s\<lparr>sv_memory_pool := p\<rparr>)" "pool_ok p"
    "length (free_blocks (sv_memory_pool s)) \<le> length rs + length (free_blocks p)"
  using allocate_nodes_returns [OF assms, of ticket] by (auto simp: allocate_from_pool_def)

lemma take_ticket_returns:
  assumes "pool_ok (sv_memory_pool s)" and "free_blocks (sv_memory_pool s) \<noteq> []"
  obtains ticket p where "take_ticket s = Inr (ticket, s\<lparr>sv_memory_pool := p\<rparr>)" "pool_ok p"
    "length (free_blocks (sv_memory_pool s)) = Suc (length (free_blocks p))"
proof -
  obtain b bs where "free_blocks (sv_memory_pool s) = b # bs"
    using assms(2) by (cases "free_blocks (sv_memory_pool s)") auto
  then show ?thesis
    using assms(1) that by (auto simp: take_ticket_def TakeTicket_def AllocateBlock_def bind_def exec_basic pool_ok_def)
qed

text \<open>The executor for the schema of the gateway.\<close>

definition gateway_executor :: GraphQlExecutor where
  "gateway_executor = (GraphQlExecutor_new True)
     \<lparr>ps_types :=
        [\<lparr>syntax_kind = S_Type, syntax_start = 20, syntax_end = 23, ty_type = T_Int, ty_is_non_null = False,
          ty_is_list_type = False, ty_is_non_null_list = False, ty_in_input_location = False, ty_name = None,
          ty_parent_directive_definition = None\<rparr>],
      ps_declarations :=
        [\<lparr>syntax_kind = S_Object, syntax_start = 0, syntax_end = 4,
          dc_name = Some \<lparr>syntax_kind = S_Name, syntax_start = 5, syntax_end = 10, nm_identifier = u ''Query''\<rparr>,
          dc_description = [], dc_directives = [],
          dc_body = Object_body (Some [(u ''field'',
            \<lparr>syntax_kind = S_FieldDefinition, syntax_start = 13, syntax_end = 18,
             fdf_name = \<lparr>syntax_kind = S_Name, syntax_start = 13, syntax_end = 18, nm_identifier = u ''field''\<rparr>,
             fdf_description = [], fdf_arguments = [], fdf_type = 0, fdf_directives = []\<rparr>)]) None\<rparr>],
      ex_query := Some (Some 0), ex_mutation := Some None, ex_subscription := Some None,
      ex_symbols := [(u ''Query'', \<lparr>sy_name = u ''Query'', sy_declaration = 0, sy_kind = SL_Object\<rparr>)]\<rparr>"

lemma gateway_executor_parsed:
  "\<exists>schema. GraphQlSchema_new depth True gateway_schema = Inr schema \<and>
     add_schema schema (GraphQlExecutor_new True) = gateway_executor"
  by (simp add: gateway_schema_def parse_eval schema_new_eval add_schema_def GraphQlExecutor_new_def gateway_executor_def
      cong: bind_cong_weak)

abbreviation field_query :: "nat \<Rightarrow> ustring" where
  "field_query k \<equiv> show_query (replicate k (Field_leaf (u ''field'')))"

lemma gateway_selects: "selects gateway_executor 0 (replicate k (Field_leaf (u ''field'')))"
  by (induction k) (simp_all add: gateway_executor_def field_of_def name_text_def is_name_start_def is_name_part_def)

lemma gateway_executes:
  "\<exists>d e op sy vs. Execute (field_query k) gateway_executor = Inr (d, e) \<and>
    xd_operation_definitions d = [op] \<and> op_selection_set op = Some (SelectionSet sy vs) \<and>
    mirrors (replicate k (Field_leaf (u ''field''))) vs"
proof -
  have "ex_query gateway_executor = Some (Some 0)" "ex_forward_fragment_references gateway_executor = []"
    by (simp_all add: gateway_executor_def GraphQlExecutor_new_def)
  from Execute_fields [OF this gateway_selects] show ?thesis by blast
qed

lemma ParseRequest_fields:
  assumes "pool_ok (sv_memory_pool s)" and "Parse (HttpParser_new buf m) = Inr (request, sc)" and "rq_body request = Some body"
    and "json_query env (cstr body) = Inr (field_query k)" and "pool_zeroed env"
    and "list_all (\<lambda>(sz, _). sz \<le> 4096) (node_requests env gateway_schema @ node_requests env (field_query k))"
    and "length (node_requests env gateway_schema @ node_requests env (field_query k)) < length (free_blocks (sv_memory_pool s))"
  obtains p d op sy vs where "ParseRequest env buf m s = Inr (Some d, s\<lparr>sv_memory_pool := p\<rparr>)"
    "xd_operation_definitions d = [op]" "op_selection_set op = Some (SelectionSet sy vs)"
    "mirrors (replicate k (Field_leaf (u ''field''))) vs"
proof -
  obtain ticket p1 where t1: "take_ticket s = Inr (ticket, s\<lparr>sv_memory_pool := p1\<rparr>)" "pool_ok p1"
    "length (free_blocks (sv_memory_pool s)) = Suc (length (free_blocks p1))"
    by (rule take_ticket_returns [OF assms(1)]) (use assms(7) in auto)
  obtain ticket2 p2 where t2: "allocate_from_pool (node_requests env gateway_schema) ticket (s\<lparr>sv_memory_pool := p1\<rparr>) =
      Inr (ticket2, s\<lparr>sv_memory_pool := p2\<rparr>)" "pool_ok p2"
    "length (free_blocks p1) \<le> length (node_requests env gateway_schema) + length (free_blocks p2)"
    by (rule allocate_from_pool_returns [of "s\<lparr>sv_memory_pool := p1\<rparr>" "node_requests env gateway_schema" ticket]) (use t1 assms(6,7) in auto)
  obtain ticket3 p3 where t3: "allocate_from_pool (node_requests env (field_query k)) ticket2 (s\<lparr>sv_memory_pool := p2\<rparr>) =
      Inr (ticket3, s\<lparr>sv_memory_pool := p3\<rparr>)"
    by (rule allocate_from_pool_returns [of "s\<lparr>sv_memory_pool := p2\<rparr>" "node_requests env (field_query k)" ticket2]) (use t1 t2 assms(6,7) in auto)
  obtain schema where schema: "GraphQlSchema_new (stack_depth env) True gateway_schema = Inr schema"
    "add_schema schema (GraphQlExecutor_new True) = gateway_executor" using gateway_executor_parsed by blast
  from gateway_executes obtain d e op sy vs where d: "Execute (field_query k) gateway_executor = Inr (d, e)"
    "xd_operation_definitions d = [op]" "op_selection_set op = Some (SelectionSet sy vs)"
    "mirrors (replicate k (Field_leaf (u ''field''))) vs" by blast
  have "ParseRequest env buf m s = Inr (Some d, s\<lparr>sv_memory_pool := p3\<rparr>)"
    using assms(2-5) schema t3 d(1)
    by (simp add: ParseRequest_def result_of_def exec_simps t1(1) t2(1) Let_def)
  with d that show ?thesis by blast
qed

lemma on_read_forwards:
  assumes "Listen host port ppid resolve_path key_made key_set address r = Inr s" and "serves env s n t"
    and "sv_sessions t \<noteq> []" and "SSL_is_init_finished env (last (sv_sessions t))" and "len \<noteq> 0" and "0 < m"
    and "SSL_read env 10240 (BIO_write env len base (last (sv_sessions t))) = ((int m, buf), ssl)"
    and "Parse (HttpParser_new buf m) = Inr (request, sc)" and "rq_body request = Some body"
    and "json_query env (cstr body) = Inr (field_query k)" and "pool_zeroed env"
    and "list_all (\<lambda>(sz, _). sz \<le> 4096) (node_requests env gateway_schema @ node_requests env (field_query k))"
    and "length (node_requests env gateway_schema @ node_requests env (field_query k)) < length (free_blocks (sv_memory_pool t))"
    and "uv_getaddrinfo env (u ''localhost'') (u ''80'') = 0"
  shows "\<exists>t'. run_callback env (Read h len base) t = Inr ((), t') \<and>
    sv_requests t' = sv_requests t @ replicate k localhost_request \<and>
    sv_effects t' = sv_effects t @ map Lookup [length (sv_requests t)..<length (sv_requests t) + k] @ [Free_buffer]"
proof -
  note ok = Listen_ok [OF assms(1)]
  from serves_ok [OF assms(2) ok(1)] ok(3) have t: "server_ok t" "pool_ok (sv_memory_pool t)"
    by (auto simp: shrinks_def pool_ok_def)
  define j where "j = length (sv_sessions t) - 1"
  have j: "gc_ssl_handle (sv_client t) = Some j" "j < length (sv_sessions t)" "sv_sessions t ! j = last (sv_sessions t)"
    using newest_session [OF t(1)] assms(3) by (simp_all add: j_def last_conv_nth)
  let ?t = "t\<lparr>sv_sessions := (sv_sessions t)[j := ssl]\<rparr>"
  obtain p d op sy vs where parse: "ParseRequest env buf m ?t = Inr (Some d, ?t\<lparr>sv_memory_pool := p\<rparr>)"
    "xd_operation_definitions d = [op]" "op_selection_set op = Some (SelectionSet sy vs)"
    "mirrors (replicate k (Field_leaf (u ''field''))) vs"
    by (rule ParseRequest_fields [of ?t buf m request sc body env k]) (use t(2) assms in simp_all)
  from forward_fields [OF parse(4) assms(14), of "xd_fragment_definitions d" "?t\<lparr>sv_memory_pool := p\<rparr>"] obtain c where
    fwd: "forward_selections env (xd_fragment_definitions d) vs (?t\<lparr>sv_memory_pool := p\<rparr>) =
      Inr (True, ?t\<lparr>sv_memory_pool := p, sv_client := c, sv_requests := sv_requests t @ replicate k localhost_request,
        sv_effects := sv_effects t @ map Lookup [length (sv_requests t)..<length (sv_requests t) + k]\<rparr>)" by auto
  have "run_callback env (Read h len base) t = on_decrypted env (int m) buf ?t"
    using assms(4-7) j by (simp add: run_callback_def on_read_def on_session_def valid_pointer_def exec_simps)
  moreover have "on_decrypted env (int m) buf ?t =
      Inr ((), ?t\<lparr>sv_memory_pool := p, sv_client := c, sv_requests := sv_requests t @ replicate k localhost_request,
        sv_effects := sv_effects t @ map Lookup [length (sv_requests t)..<length (sv_requests t) + k] @ [Free_buffer]\<rparr>)"
    using assms(6) parse fwd
    by (simp add: on_decrypted_def dispatch_definition_def choose_operation_def result_of_def valid_pointer_def exec_simps
        emit_def)
  ultimately show ?thesis by simp
qed


end
