(* ===== verification/HttpServerRuns.thy ===== *)
theory HttpServerRuns
  imports HttpForwarding
begin

text \<open>
  Where the gateway does not do what a server should, and a run of it from the first connection to the request at the
  backend, on a concrete platform.
\<close>

section \<open>What goes wrong\<close>

text \<open>C9. The server reads at most 10000 requests.  Each request takes a ticket of the memory pool that is never given
  back.  In every run the number of requests is at most the number of blocks that \<open>Listen\<close> makes, and when it is
  reached, the callback that reads the next one does not return: it ends in the undefined \<open>top()\<close> of the empty stack of
  free blocks, or before.\<close>

theorem requests_exhaust_pool:
  assumes "Listen host port ppid resolve_path key_made key_set address r = Inr s" and "serves env s n t"
  shows "n \<le> 10000 \<and> (n = 10000 \<and> reads_request env ev t \<longrightarrow> (\<exists>e. run_callback env ev t = Inl e))"
proof -
  note ok = Listen_ok [OF assms(1)]
  from serves_ok [OF assms(2) ok(1)] ok(2) have t: "server_ok t" "length (free_blocks (sv_memory_pool t)) + n \<le> 10000"
    by (simp_all add: shrinks_def)
  have "False" if "n = 10000" "reads_request env ev t" "run_callback env ev t = Inr ((), t')" for t'
    using run_callback_ok [OF t(1) that(3)] t(2) that(1,2) by (simp add: callback_ok_def shrinks_def)
  with t(2) show ?thesis by (metis add_leD2 old.unit.exhaust sum.exhaust surj_pair)
qed

lemma FlushWriteBio_sessions:
  assumes "gc_ssl_handle (sv_client s) = Some k" and "k < length (sv_sessions s)"
  shows "wp (FlushWriteBio env) (\<lambda>_ t. sv_sessions t = (sv_sessions s)[k := snd (BIO_read env (sv_sessions s ! k))])
    (\<lambda>_. True) s"
proof -
  let ?I = "\<lambda>t. sv_sessions t = (sv_sessions s)[k := snd (BIO_read env (sv_sessions s ! k))]"
  have "wp (gateway_WriteToSocket env b) (\<lambda>_. ?I) (\<lambda>_. True) t" if "?I t" for b t
    using that by (auto simp: gateway_WriteToSocket_def wp_simps server_wp split: option.split)
  then show ?thesis
    using assms by (simp add: FlushWriteBio_def wp_simps server_wp wp_for_each)
qed

lemma handshake_sessions:
  assumes "server_ok s" and "len \<noteq> 0" and "\<not> SSL_is_init_finished env (last (sv_sessions s))"
    and "on_read env h len base s = Inr ((), t)"
  shows "last (sv_sessions t) = snd (BIO_read env (SSL_accept env (BIO_write env len base (last (sv_sessions s)))))"
proof (cases "sv_sessions s = []")
  case True
  with assms(1) have "gc_ssl_handle (sv_client s) = None" by (simp add: server_ok_def client_ok_def)
  with assms(2,4) show ?thesis by (simp add: on_read_def on_session_def valid_pointer_def exec_simps)
next
  case False
  define k where "k = length (sv_sessions s) - 1"
  from False have k: "gc_ssl_handle (sv_client s) = Some k" "k < length (sv_sessions s)"
    "sv_sessions s ! k = last (sv_sessions s)"
    using newest_session [OF assms(1)] by (simp_all add: k_def last_conv_nth)
  let ?ssl = "SSL_accept env (BIO_write env len base (last (sv_sessions s)))"
  let ?s = "s\<lparr>sv_sessions := (sv_sessions s)[k := ?ssl]\<rparr>"
  have "wp (on_read env h len base) (\<lambda>_ t. sv_sessions t = (sv_sessions s)[k := snd (BIO_read env ?ssl)]) (\<lambda>_. True) s"
    using assms(2,3) k FlushWriteBio_sessions [of ?s k env]
    by (simp add: on_read_def wp_simps server_wp)
  with assms(4) have "sv_sessions t = (sv_sessions s)[k := snd (BIO_read env ?ssl)]" by (simp add: wp_def)
  with False show ?thesis by (simp add: k_def last_list_update)
qed

text \<open>C10. All connections share one TLS session.  In every run, data that arrives on any connection changes no session but
  that of the connection accepted last, and the callback does the same whichever connection the data came from: after a
  second client has connected, what the first one sends is decrypted with the session of the second.\<close>

theorem connections_share_session:
  assumes "Listen host port ppid resolve_path key_made key_set address r = Inr s" and "serves env s n t"
    and "run_callback env (Read h len base) t = Inr ((), t')" and "len \<noteq> 0"
  shows "length (sv_sessions t') = length (sv_sessions t) \<and> butlast (sv_sessions t') = butlast (sv_sessions t) \<and>
    (\<not> SSL_is_init_finished env (last (sv_sessions t)) \<longrightarrow> last (sv_sessions t') =
       snd (BIO_read env (SSL_accept env (BIO_write env len base (last (sv_sessions t)))))) \<and>
    run_callback env (Read h' len base) t = Inr ((), t')"
proof -
  have ok: "server_ok t" using serves_ok [OF assms(2)] Listen_ok [OF assms(1)] by simp
  from run_callback_ok [OF ok assms(3)] have "newest_only t t'" by (simp add: callback_ok_def)
  moreover have "on_read env h len base t = Inr ((), t')" using assms(3) by (simp add: run_callback_def)
  moreover from this assms(4) have "on_read env h' len base t = Inr ((), t')" by (simp add: on_read_def)
  ultimately show ?thesis
    using handshake_sessions [OF ok assms(4)] by (simp add: newest_only_def run_callback_def)
qed

text \<open>C11. No request is answered.  In every run, the only callbacks that write anything to a client are those that read
  data while a handshake is going on: neither the request nor the answer of the backend leads to a response.\<close>

theorem requests_are_not_answered:
  assumes "Listen host port ppid resolve_path key_made key_set address r = Inr s" and "serves env s n t"
    and "run_callback env ev t = Inr ((), t')" and "client_writes (sv_effects t') \<noteq> client_writes (sv_effects t)"
  shows "\<exists>h len base. ev = Read h len base \<and> \<not> SSL_is_init_finished env (last (sv_sessions t))"
proof -
  have "server_ok t" using serves_ok [OF assms(2)] Listen_ok [OF assms(1)] by simp
  from run_callback_ok [OF this assms(3)] assms(4) show ?thesis
    by (cases ev) (auto simp: callback_ok_def same_tls_def)
qed

section \<open>An example\<close>

text \<open>
  A platform on which a TLS session is a flag (the handshake is over) with the data that has arrived; the first data ends the
  handshake and is answered with one record.
\<close>

definition example_platform :: "(bool \<times> ustring) platform" where
  "example_platform =
     \<lparr>SSL_new = (False, []), SSL_is_init_finished = fst,
      BIO_write = (\<lambda>len base (finished, x). (finished, x @ base)), SSL_accept = (\<lambda>_. (True, [])),
      SSL_read = (\<lambda>n (finished, x). ((int (length x), x @ replicate 8 0), (finished, []))),
      BIO_read = (\<lambda>ssl. ([u ''hello''], ssl)),
      json_query = (\<lambda>body. if body = query_body then Inr (field_query 1) else Inr []),
      socket_write = (\<lambda>_ _. 0), uv_getaddrinfo = (\<lambda>_ _. 0), uv_ip4_name = (\<lambda>(ip, port). (0, ip)),
      uv_ip4_addr = (\<lambda>ip port. (0, (ip, port))),
      backend_transport = \<lparr>uv_write = \<lambda>_ _. 0, records = \<lambda>b. [b]\<rparr>, uninitialised = replicate 4096 0,
      node_requests = (\<lambda>_. [(64, 8)]), pool_zeroed = True, stack_depth = 100\<rparr>"

definition example_request :: ustring where
  "example_request = request_text Post (u ''graphql'') None (backend_headers localhost_request) query_body"

lemma example_request_parsed:
  "\<exists>request sc. Parse (HttpParser_new (example_request @ replicate 8 0) (length example_request)) = Inr (request, sc) \<and>
     rq_body request = Some query_body"
proof -
  have r: "cr_host localhost_request = u ''localhost:4000''" "cr_path localhost_request = u ''/graphql''"
    by (simp_all add: localhost_request_def)
  show ?thesis
    using localhost_parsed [OF r, of "replicate 8 0"] by (auto simp: example_request_def)
qed

abbreviation example_start :: "(bool \<times> ustring) HttpServer" where
  "example_start \<equiv> \<lparr>sv_parent_pid = 1, sv_ssl_ctx = projr (SetSecurityContext (\<lambda>x. x) True 1),
     sv_memory_pool = projr (MemoryPool_new (1024 * 4 * 10000) (1024 * 4) 4096),
     sv_client = \<lparr>gc_tcp_handle = None, gc_ssl_handle = None, gc_fields = [], gc_fragments = None\<rparr>,
     sv_sessions = [], sv_handles = 0, sv_requests = [], sv_effects = [],
     sv_startup = [Signal_start ''SIGTERM'', Signal_start ''SIGINT'', Signal_start ''SIGHUP'', Timer_start 0 0,
       Tcp_bind (u ''0.0.0.0'') 8000, Tcp_listen 128]\<rparr>"

lemma example_listen: "Listen (u ''0.0.0.0'') 8000 1 (\<lambda>x. x) True 1 4096 0 = Inr example_start"
  by (simp add: Listen_def SetSecurityContext_def MemoryPool_new_def Reset_def)

lemmas callback_eval = run_callback_def OnNewConnection_def on_read_def on_session_def valid_pointer_def client_handle_def
  new_handle_def FlushWriteBio_def gateway_WriteToSocket_def emit_def OnResolvedIpv4_def client_request_def
  bind_def ret_def throw_def gets_def modify_def

text \<open>A connection, and its handshake.\<close>

lemma example_connected:
  "\<exists>t. serves example_platform example_start 0 t \<and> sv_sessions t = [(False, [])] \<and> sv_requests t = [] \<and>
     sv_effects t = [Read_start 0] \<and> sv_memory_pool t = sv_memory_pool example_start \<and>
     gc_tcp_handle (sv_client t) = Some 0 \<and> gc_ssl_handle (sv_client t) = Some 0 \<and> sv_handles t = 1"
proof -
  obtain t where t: "run_callback example_platform (New_connection 0 0 0) example_start = Inr ((), t)"
    "sv_sessions t = [(False, [])]" "sv_requests t = []" "sv_effects t = [Read_start 0]"
    "sv_memory_pool t = sv_memory_pool example_start"
    "gc_tcp_handle (sv_client t) = Some 0" "gc_ssl_handle (sv_client t) = Some 0" "sv_handles t = 1"
    by (simp add: callback_eval example_platform_def)
  have "serves example_platform example_start (0 + of_bool (reads_request example_platform (New_connection 0 0 0) example_start)) t"
    by (rule serves.callback [OF serves.start _ t(1)]) (simp add: may_occur_def)
  with t(2-) show ?thesis by (auto simp: reads_request_def)
qed

lemma example_handshake:
  "\<exists>t. serves example_platform example_start 0 t \<and> sv_sessions t = [(True, [])] \<and> sv_requests t = [] \<and>
     sv_effects t = [Read_start 0, Client_write 0 (u ''hello'')] \<and> sv_memory_pool t = sv_memory_pool example_start \<and>
     sv_handles t = 1"
proof -
  from example_connected obtain s where s: "serves example_platform example_start 0 s" "sv_sessions s = [(False, [])]"
    "sv_requests s = []" "sv_effects s = [Read_start 0]" "sv_memory_pool s = sv_memory_pool example_start"
    "gc_tcp_handle (sv_client s) = Some 0" "gc_ssl_handle (sv_client s) = Some 0" "sv_handles s = 1" by blast
  obtain t where t: "run_callback example_platform (Read 0 5 (u ''hello'')) s = Inr ((), t)"
    "sv_sessions t = [(True, [])]" "sv_requests t = []" "sv_effects t = [Read_start 0, Client_write 0 (u ''hello'')]"
    "sv_memory_pool t = sv_memory_pool example_start" "sv_handles t = 1"
    using s(2-) by (simp add: callback_eval example_platform_def)
  have "serves example_platform example_start (0 + of_bool (reads_request example_platform (Read 0 5 (u ''hello'')) s)) t"
    by (rule serves.callback [OF s(1) _ t(1)]) (simp add: may_occur_def s(4))
  moreover have "\<not> reads_request example_platform (Read 0 5 (u ''hello'')) s"
    using s(2,7) by (simp add: reads_request_def example_platform_def)
  ultimately show ?thesis using t(2-) by auto
qed

text \<open>A request, up to the connection to the backend.\<close>

abbreviation example_read :: uv_event where
  "example_read \<equiv> Read 0 (int (length example_request)) example_request"

lemma example_request_nonempty: "example_request \<noteq> []"
  by (simp add: example_request_def request_text_def)

lemma example_env:
  "SSL_is_init_finished example_platform (True, x)"
  "SSL_read example_platform 10240 (BIO_write example_platform (int (length example_request)) example_request (True, [])) =
     ((int (length example_request), example_request @ replicate 8 0), (True, []))"
  "json_query example_platform (cstr query_body) = Inr (field_query 1)" "pool_zeroed example_platform"
  "list_all (\<lambda>(sz, _). sz \<le> 4096) (node_requests example_platform gateway_schema @ node_requests example_platform (field_query 1))"
  "length (node_requests example_platform gateway_schema @ node_requests example_platform (field_query 1)) <
     length (free_blocks (sv_memory_pool example_start))"
  "uv_getaddrinfo example_platform (u ''localhost'') (u ''80'') = 0"
  using Listen_ok(2) [OF example_listen] by (simp_all add: example_platform_def query_body_def cstr_def)

lemma example_forwarding:
  assumes "serves example_platform example_start n t" and "sv_sessions t = [(True, [])]"
    and "sv_memory_pool t = sv_memory_pool example_start"
  shows "\<exists>t'. run_callback example_platform example_read t = Inr ((), t') \<and>
    sv_requests t' = sv_requests t @ [localhost_request] \<and>
    sv_effects t' = sv_effects t @ [Lookup (length (sv_requests t)), Free_buffer]"
proof -
  from example_request_parsed obtain request sc where
    parsed: "Parse (HttpParser_new (example_request @ replicate 8 0) (length example_request)) = Inr (request, sc)"
    "rq_body request = Some query_body" by blast
  show ?thesis
    using on_read_forwards [OF example_listen assms(1) _ _ _ _ _ parsed example_env(3-5) _ example_env(7),
        of "int (length example_request)" example_request "(True, [])" 0]
      example_env(1,2,6) example_request_nonempty
    by (simp add: assms(2,3))
qed

lemma example_request_read:
  "\<exists>t. serves example_platform example_start 1 t \<and> sv_requests t = [localhost_request] \<and>
     sv_effects t = [Read_start 0, Client_write 0 (u ''hello''), Lookup 0, Free_buffer]"
proof -
  from example_handshake obtain s where s: "serves example_platform example_start 0 s" "sv_sessions s = [(True, [])]"
    "sv_requests s = []" "sv_effects s = [Read_start 0, Client_write 0 (u ''hello'')]"
    "sv_memory_pool s = sv_memory_pool example_start" by blast
  from example_forwarding [OF s(1,2,5)] obtain t where
    t: "run_callback example_platform example_read s = Inr ((), t)" "sv_requests t = [localhost_request]"
    "sv_effects t = [Read_start 0, Client_write 0 (u ''hello''), Lookup 0, Free_buffer]"
    using s(3,4) by auto
  have "server_ok s" using serves_ok [OF s(1)] Listen_ok(1) [OF example_listen] by simp
  then have "gc_ssl_handle (sv_client s) = Some 0" using newest_session [of s 0] s(2) by simp
  then have "reads_request example_platform example_read s"
    using s(2) example_request_nonempty by (simp add: reads_request_def example_platform_def)
  moreover have "serves example_platform example_start (0 + of_bool (reads_request example_platform example_read s)) t"
    by (rule serves.callback [OF s(1) _ t(1)]) (simp add: may_occur_def s(4))
  ultimately show ?thesis using t(2,3) by auto
qed

lemma example_backend_connected:
  "\<exists>t. serves example_platform example_start 1 t \<and> may_occur (Connected 0 0) t"
proof -
  from example_request_read obtain s where s: "serves example_platform example_start 1 s"
    "sv_requests s = [localhost_request]"
    "sv_effects s = [Read_start 0, Client_write 0 (u ''hello''), Lookup 0, Free_buffer]" by blast
  let ?ev = "Resolved 0 (Some (u ''127.0.0.1'', 80))"
  obtain t where t: "run_callback example_platform ?ev s = Inr ((), t)"
    "sv_effects t = sv_effects s @ [Tcp_connect (sv_handles s) 0 (u ''127.0.0.1'', 4000)]"
    by (simp add: callback_eval example_platform_def s(2) localhost_request_def)
  have "serves example_platform example_start (1 + of_bool (reads_request example_platform ?ev s)) t"
    by (rule serves.callback [OF s(1) _ t(1)]) (simp add: may_occur_def s(3))
  with t(2) s(3) show ?thesis by (intro exI [of _ t]) (simp add: reads_request_def may_occur_def)
qed

section \<open>Instances of the properties\<close>

theorem backend_gets_one_request_witness:
  "\<exists>t h bs request sc. serves example_platform example_start 1 t \<and>
    run_callback example_platform (Connected 0 0) t =
      Inr ((), t\<lparr>sv_effects := sv_effects t @ [Read_start h, Backend_write h bs]\<rparr>) \<and>
    Parse (HttpParser_new (concat bs @ replicate 8 0) (length (concat bs))) = Inr (request, sc) \<and>
    rq_method request = Post \<and> rq_path request = u ''/graphql'' \<and>
    rq_body request = Some (u ''{ \"query\": \"{ field }\" }'')"
proof -
  from example_backend_connected obtain t where t: "serves example_platform example_start 1 t" "may_occur (Connected 0 0) t"
    by blast
  have "length (uninitialised example_platform) = 4096" "8 \<le> length (replicate 8 (0::nat))"
    by (simp_all add: example_platform_def)
  from backend_gets_one_request [OF example_listen t this] t(1) show ?thesis by fastforce
qed

theorem requests_exhaust_pool_witness:
  "\<exists>t. serves example_platform example_start 1 t \<and> (1::nat) \<le> 10000 \<and>
     (1 = (10000::nat) \<and> reads_request example_platform example_read t \<longrightarrow>
       (\<exists>e. run_callback example_platform example_read t = Inl e))"
proof -
  from example_request_read obtain t where t: "serves example_platform example_start 1 t" by blast
  from requests_exhaust_pool [OF example_listen t, of example_read] t show ?thesis by blast
qed

theorem requests_are_not_answered_witness:
  "\<exists>t t'. serves example_platform example_start 0 t \<and>
     run_callback example_platform (Read 0 5 (u ''hello'')) t = Inr ((), t') \<and>
     client_writes (sv_effects t') \<noteq> client_writes (sv_effects t) \<and>
     \<not> SSL_is_init_finished example_platform (last (sv_sessions t))"
proof -
  from example_connected obtain t where t: "serves example_platform example_start 0 t" "sv_sessions t = [(False, [])]"
    "sv_effects t = [Read_start 0]" "gc_tcp_handle (sv_client t) = Some 0" "gc_ssl_handle (sv_client t) = Some 0" by blast
  obtain t' where t': "run_callback example_platform (Read 0 5 (u ''hello'')) t = Inr ((), t')"
    "client_writes (sv_effects t') \<noteq> client_writes (sv_effects t)"
    using t(2-) by (simp add: callback_eval example_platform_def client_writes_def)
  from requests_are_not_answered [OF example_listen t(1) t'] t(1) t' show ?thesis by blast
qed

text \<open>Two connections: what the first one sends goes to the session of the second.\<close>

theorem connections_share_session_witness:
  "\<exists>t t'. serves example_platform example_start 0 t \<and> sv_sessions t = [(False, []), (False, [])] \<and>
     run_callback example_platform (Read 0 5 (u ''hello'')) t = Inr ((), t') \<and>
     sv_sessions t' = [(False, []), (True, [])] \<and>
     run_callback example_platform (Read 1 5 (u ''hello'')) t = Inr ((), t')"
proof -
  let ?ev = "New_connection 0 0 0"
  from example_connected obtain s where s: "serves example_platform example_start 0 s" "sv_sessions s = [(False, [])]"
    "sv_effects s = [Read_start 0]" "sv_handles s = 1" by blast
  obtain t where t: "run_callback example_platform ?ev s = Inr ((), t)" "sv_sessions t = [(False, []), (False, [])]"
    "gc_tcp_handle (sv_client t) = Some 1" "gc_ssl_handle (sv_client t) = Some 1"
    using s(2-) by (simp add: callback_eval example_platform_def)
  have "serves example_platform example_start (0 + of_bool (reads_request example_platform ?ev s)) t"
    by (rule serves.callback [OF s(1) _ t(1)]) (simp add: may_occur_def s(3))
  then have run: "serves example_platform example_start 0 t" by (simp add: reads_request_def)
  obtain t' where t': "run_callback example_platform (Read 0 5 (u ''hello'')) t = Inr ((), t')"
    using t(2-) by (simp add: callback_eval example_platform_def)
  have five: "(5::int) \<noteq> 0" by simp
  note shared = connections_share_session [OF example_listen run t' five, of 1]
  have "sv_sessions t' = butlast (sv_sessions t') @ [last (sv_sessions t')]"
    using shared t(2) by (metis append_butlast_last_id length_0_conv list.distinct(1))
  also have "\<dots> = [(False, []), (True, [])]"
    using shared t(2) by (simp add: example_platform_def)
  finally show ?thesis using run t(2) t' shared by blast
qed


end
