(* ===== verification/TcpClients.thy ===== *)
theory TcpClients
  imports Prelude
begin

text \<open>
  The two TCP clients: \<open>TcpClientRaw\<close> over the socket calls of the system (\<open>src/lib/tcp_client_raw.h\<close> and \<open>.cpp\<close>) and
  \<open>TcpClient\<close> over libuv (\<open>src/program/tcp_client.h\<close> and \<open>.cpp\<close>).  The results of the calls to the system and to libuv are
  parameters; what the clients ask of them is kept in order.
\<close>

section \<open>The client over sockets\<close>

record sockaddr_in =
  sin_family :: string
  sin_port :: "16 word"
  sin_addr :: ustring
  sin_zero :: ustring

datatype socket_call =
    Connect_socket int sockaddr_in
  | Send_socket int ustring
  | Printed_error string

record TcpClientRaw =
  cl_socketfd :: int
  cl_server_address :: "sockaddr_in option"
  cl_calls :: "socket_call list"

definition TcpClientRaw_new :: TcpClientRaw where
  "TcpClientRaw_new = \<lparr>cl_socketfd = -1, cl_server_address = None, cl_calls = []\<rparr>"

text \<open>
  \<open>memset\<close> fills the address with the character \<open>'0'\<close>, of which the padding \<open>sin_zero\<close> remains.  The port is an
  \<open>unsigned int\<close> that \<open>htons\<close> cuts to 16 bits; \<open>sin_port\<close> is the number the network sees.
\<close>

definition TcpClientRaw_bind ::
  "int \<Rightarrow> (ustring \<Rightarrow> int \<times> ustring) \<Rightarrow> (sockaddr_in \<Rightarrow> int) \<Rightarrow> ustring \<Rightarrow> 32 word \<Rightarrow> (TcpClientRaw, bool) exec" where
  "TcpClientRaw_bind socket_result inet_pton connect_result host port =
     bind (modify (\<lambda>c. c\<lparr>cl_socketfd := socket_result\<rparr>)) (\<lambda>_.
     if socket_result < 0 then throw (Domain_error ''Could not open socket.'')
     else
       (let (r, binary) = inet_pton host;
            address = \<lparr>sin_family = ''AF_INET'', sin_port = ucast port, sin_addr = binary, sin_zero = replicate 8 Digit_0\<rparr> in
        if r \<le> 0 then throw (Domain_error ''Invalid address.'')
        else
          bind (modify (\<lambda>c. c\<lparr>cl_server_address := Some address,
            cl_calls := cl_calls c @ [Connect_socket socket_result address]\<rparr>)) (\<lambda>_.
          if connect_result address < 0 then throw (Domain_error ''Connection to socket failed.'')
          else ret True)))"

definition send_message :: "(int \<Rightarrow> ustring \<Rightarrow> int) \<Rightarrow> ustring \<Rightarrow> (TcpClientRaw, unit) exec" where
  "send_message send_result message =
     bind (gets cl_socketfd) (\<lambda>fd.
     bind (modify (\<lambda>c. c\<lparr>cl_calls := cl_calls c @ [Send_socket fd (cstr message)]\<rparr>)) (\<lambda>_.
     if send_result fd (cstr message) < 0
     then modify (\<lambda>c. c\<lparr>cl_calls := cl_calls c @ [Printed_error ''Send failed : '']\<rparr>)
     else ret ()))"

definition CHUNK_SIZE :: nat where
  "CHUNK_SIZE = 1024"

text \<open>
  \<open>garbage\<close> is the contents of the fresh chunk, \<open>recv\<close> the result of the call for at most so many bytes with the bytes it
  stored.  The result is the text up to the first null character.
\<close>

definition recieve_message :: "ustring \<Rightarrow> (int \<Rightarrow> nat \<Rightarrow> int \<times> ustring) \<Rightarrow> (TcpClientRaw, ustring) exec" where
  "recieve_message garbage recv =
     bind (gets cl_socketfd) (\<lambda>fd.
     let (size_received, bytes) = recv fd CHUNK_SIZE;
         chunk = bytes @ drop (length bytes) garbage in
     bind (if size_received < 0 then modify (\<lambda>c. c\<lparr>cl_calls := cl_calls c @ [Printed_error ''Receive failed'']\<rparr>)
           else ret ()) (\<lambda>_.
     if 0 \<le> size_received \<and> nat size_received < length chunk
     then ret (cstr (chunk[nat size_received := 0]))
     else throw (Undefined_behaviour ''write outside the chunk'')))"

text \<open>What the system documents of \<open>recv\<close>: a negative number, or how many bytes it stored, at most as many as asked for.\<close>

definition recv_result :: "nat \<Rightarrow> int \<times> ustring \<Rightarrow> bool" where
  "recv_result n r \<longleftrightarrow> (if fst r < 0 then snd r = [] else fst r = int (length (snd r)) \<and> length (snd r) \<le> n)"

lemma cstr_cut: "cstr (xs @ 0 # ys) = cstr xs"
  by (induction xs) (simp_all add: cstr_def)

text \<open>C39. Bounds of a received message.  Whatever \<open>recv\<close> returns within its contract, \<open>recieve_message\<close> is defined exactly
  if fewer bytes arrived than the chunk holds, and then gives these bytes up to the first null byte.  Where
  \<open>recv\<close> fails, the client prints a message and then writes before the chunk; where the chunk is filled, it writes
  behind it.\<close>

theorem recieve_message_bounds:
  assumes "length garbage = CHUNK_SIZE" and "recv_result CHUNK_SIZE (recv (cl_socketfd c) CHUNK_SIZE)"
  shows "recieve_message garbage recv c =
    (let (n, bytes) = recv (cl_socketfd c) CHUNK_SIZE in
     if 0 \<le> n \<and> length bytes < CHUNK_SIZE then Inr (cstr bytes, c)
     else Inl (Undefined_behaviour ''write outside the chunk''))"
proof -
  obtain n bytes where r: "recv (cl_socketfd c) CHUNK_SIZE = (n, bytes)" by (cases "recv (cl_socketfd c) CHUNK_SIZE")
  let ?rest = "drop (length bytes) garbage"
  have cut: "cstr ((bytes @ ?rest)[length bytes := 0]) = cstr bytes" if "length bytes < CHUNK_SIZE"
  proof -
    from that assms(1) obtain x xs where "?rest = x # xs" by (cases ?rest) auto
    then show ?thesis by (simp add: list_update_append cstr_cut)
  qed
  have "n = int (length bytes) \<and> length bytes \<le> CHUNK_SIZE" if "0 \<le> n"
    using assms(2) r that by (simp add: recv_result_def)
  with assms(1) cut show ?thesis
    by (auto simp: recieve_message_def r exec_simps Let_def)
qed

theorem recieve_message_bounds_witness:
  "recieve_message (replicate 1024 7) (\<lambda>_ _. (2, u ''ok'')) TcpClientRaw_new = Inr (u ''ok'', TcpClientRaw_new) \<and>
   recieve_message (replicate 1024 7) (\<lambda>_ n. (int n, replicate n 1)) TcpClientRaw_new =
     Inl (Undefined_behaviour ''write outside the chunk'')"
proof
  have len: "length (replicate 1024 (7::nat)) = CHUNK_SIZE" by (simp add: CHUNK_SIZE_def)
  have "recv_result CHUNK_SIZE ((\<lambda>_ _. (2, u ''ok'')) (cl_socketfd TcpClientRaw_new) CHUNK_SIZE)"
    by (simp add: recv_result_def CHUNK_SIZE_def)
  from recieve_message_bounds [OF len this]
  show "recieve_message (replicate 1024 7) (\<lambda>_ _. (2, u ''ok'')) TcpClientRaw_new = Inr (u ''ok'', TcpClientRaw_new)"
    by (simp add: CHUNK_SIZE_def)
  have "recv_result CHUNK_SIZE ((\<lambda>_ n. (int n, replicate n 1)) (cl_socketfd TcpClientRaw_new) CHUNK_SIZE)"
    by (simp add: recv_result_def)
  from recieve_message_bounds [of "replicate 1024 7" "\<lambda>_ n. (int n, replicate n 1)", OF len this]
  show "recieve_message (replicate 1024 7) (\<lambda>_ n. (int n, replicate n 1)) TcpClientRaw_new =
     Inl (Undefined_behaviour ''write outside the chunk'')"
    by simp
qed

section \<open>The client over libuv\<close>

datatype uv_call =
    Uv_keepalive nat nat
  | Uv_connect ustring "32 word"
  | Uv_run
  | Uv_read_start
  | Uv_buffers "ustring list"
  | Uv_closed

text \<open>
  Of the members \<open>connection\<close> and \<open>on_data_cb\<close> the state says whether they were set.  The socket of the
  connection is never given the pointer to the client that the callbacks read from it (\<open>tcp->data\<close>).
\<close>

record TcpClient =
  tc_connection :: bool
  tc_on_data_set :: bool
  tc_calls :: "uv_call list"

definition TcpClient_new :: TcpClient where
  "TcpClient_new = \<lparr>tc_connection = False, tc_on_data_set = False, tc_calls = []\<rparr>"

definition MIN_PORT :: "32 word" where
  "MIN_PORT = 1"

definition MAX_PORT :: "32 word" where
  "MAX_PORT = 65535"

text \<open>\<open>called_back\<close>: whether libuv calls back before \<open>uv_run\<close> returns; the status it passes is not looked at.\<close>

definition TcpClient_connect :: "bool \<Rightarrow> ustring \<Rightarrow> 32 word \<Rightarrow> (TcpClient, unit) exec" where
  "TcpClient_connect called_back host port =
     (if port < MIN_PORT \<or> port > MAX_PORT then throw (Domain_error ''Port must be between 1 and 65535.'')
      else modify (\<lambda>c. c\<lparr>tc_connection := tc_connection c \<or> called_back,
        tc_calls := tc_calls c @ [Uv_keepalive 1 60, Uv_connect host port, Uv_run]\<rparr>))"

definition connection_handle :: "(TcpClient, unit) exec" where
  "connection_handle =
     bind (gets tc_connection) (\<lambda>b. if b then ret () else throw (Undefined_behaviour ''uninitialised member''))"

text \<open>The array of buffers that \<open>uv_write\<close> is passed, with the number of its elements.\<close>

definition uv_buffers :: "ustring list \<Rightarrow> nat \<Rightarrow> (TcpClient, unit) exec" where
  "uv_buffers bufs n =
     (if n \<le> length bufs then modify (\<lambda>c. c\<lparr>tc_calls := tc_calls c @ [Uv_buffers (take n bufs)]\<rparr>)
      else throw (Undefined_behaviour ''read outside the array''))"

definition TcpClient_send :: "ustring \<Rightarrow> (TcpClient, unit) exec" where
  "TcpClient_send message = bind connection_handle (\<lambda>_. uv_buffers [cstr message] 2)"

definition start_reading :: "(TcpClient, unit) exec" where
  "start_reading = bind connection_handle (\<lambda>_. modify (\<lambda>c. c\<lparr>tc_calls := tc_calls c @ [Uv_read_start]\<rparr>))"

definition TcpClient_on_data :: "(TcpClient, unit) exec" where
  "TcpClient_on_data = bind start_reading (\<lambda>_. modify (\<lambda>c. c\<lparr>tc_on_data_set := True\<rparr>))"

definition TcpClient_read :: "(TcpClient, unit) exec" where
  "TcpClient_read = start_reading"

text \<open>The callbacks of \<open>on_data\<close> and \<open>read\<close>, which take the client from \<open>tcp->data\<close>.\<close>

definition on_data_callback :: "int \<Rightarrow> (TcpClient, unit) exec" where
  "on_data_callback nread =
     (if 0 \<le> nread then throw (Undefined_behaviour ''uninitialised member'') else ret ())"

definition read_callback :: "int \<Rightarrow> (TcpClient, unit) exec" where
  "read_callback nread =
     bind (if 0 \<le> nread then throw (Undefined_behaviour ''uninitialised member'') else ret ()) (\<lambda>_.
     modify (\<lambda>c. c\<lparr>tc_calls := tc_calls c @ [Uv_closed]\<rparr>))"

text \<open>
  The two clients treat ports differently: \<open>TcpClient\<close> rejects a port outside of 1 to 65535, \<open>TcpClientRaw\<close> connects to
  the port modulo \<open>2 ^ 16\<close>.
\<close>

lemma connect_checks_port:
  "(\<exists>c'. TcpClient_connect called_back host port c = Inr ((), c')) \<longleftrightarrow> 1 \<le> unat port \<and> unat port \<le> 65535"
proof -
  have "port < MIN_PORT \<longleftrightarrow> unat port < 1" "port > MAX_PORT \<longleftrightarrow> unat port > 65535"
    by (simp_all add: MIN_PORT_def MAX_PORT_def word_less_nat_alt)
  then show ?thesis by (auto simp: TcpClient_connect_def exec_simps)
qed

lemma bind_wraps_port:
  assumes "TcpClientRaw_bind fd inet_pton connect_result host port c = Inr (b, c')"
  shows "\<exists>a. cl_server_address c' = Some a \<and> unat (sin_port a) = unat port mod 2 ^ 16"
  using assms
  by (auto simp: TcpClientRaw_bind_def exec_simps Let_def unsigned_ucast_eq take_bit_eq_mod elim!: bind_InrE
      split: if_splits prod.splits)

end
