(* ===== verification/GenerateDiagnostics.thy ===== *)
theory GenerateDiagnostics
  imports Prelude
begin

text \<open>
  The generator of the tables of diagnostic messages, \<open>tasks/generate_diagnostics.cpp\<close>.  Parameters are
  \<open>boost::regex_replace\<close> (text, expression, replacement), the keys of an object in the order in which JsonCpp iterates over
  them, and the contents of the files that are read.  The state is the global \<open>keys\<close> and the files that were written.
\<close>

section \<open>Model\<close>

record generator =
  gd_keys :: "string list"
  gd_written :: "(string \<times> string) list"

type_synonym regex_replace = "string \<Rightarrow> string \<Rightarrow> string \<Rightarrow> string"

definition newline :: string where
  "newline = [char_of (10 :: nat)]"

definition quote :: string where
  "quote = [char_of (34 :: nat)]"

definition backslash :: string where
  "backslash = [char_of (92 :: nat)]"

text \<open>The lines of a template, each with its line break.\<close>

definition template_lines :: "string list \<Rightarrow> string" where
  "template_lines ls = concat (map (\<lambda>l. l @ newline) ls)"

definition start_wrap_header_template :: string where
  "start_wrap_header_template = template_lines
     [''// This code is auto generate. Don'' @ [char_of (39 :: nat)] @ ''t edit it!'',
      ''#ifndef {{header_guard}}'', ''#define {{header_guard}}'', [],
      ''#include <program/diagnostic.h>'', [], ''using namespace flashpoint::program;'', [],
      ''namespace {{namespace}} {'', [], ''class D {'', ''public:'']"

definition start_wrap_source_template :: string where
  "start_wrap_source_template = template_lines
     [''// This code is auto generate. Don'' @ [char_of (39 :: nat)] @ ''t edit it!'',
      ''#include '' @ quote @ ''{{header_file}}'' @ quote, [], ''namespace {{namespace}} {'', []]"

definition end_wrap_header_template :: string where
  "end_wrap_header_template = template_lines [''};'', [], ''}'', []] @ ''#endif // {{header_guard}}''"

definition end_wrap_source_template :: string where
  "end_wrap_source_template = newline @ ''} // {{namespace}}'' @ newline"

definition is_unique :: "string list \<Rightarrow> string \<Rightarrow> bool" where
  "is_unique keys key = list_all (\<lambda>k. k \<noteq> key) keys"

definition format_diagnostic_key :: "regex_replace \<Rightarrow> string \<Rightarrow> string" where
  "format_diagnostic_key regex key =
     (let k = regex key (backslash @ ''s+'') ''_'';
          k = regex k (''['' @ [char_of (39 :: nat)] @ ''|'' @ quote @ ''|?|:|,|.|(|)]'') [];
          k = regex k (''{('' @ backslash @ ''d+)}'') ''$1'';
          k = regex k ''_+'' ''_''
      in regex k ''^_+|_+$'' [])"

definition remove_comments :: "regex_replace \<Rightarrow> string \<Rightarrow> string" where
  "remove_comments regex json = regex json (''//.*?'' @ newline) newline"

definition unformatted_key :: "regex_replace \<Rightarrow> string \<Rightarrow> string" where
  "unformatted_key regex key = regex key (backslash @ quote) (backslash @ backslash @ backslash @ quote)"

definition header_entry :: "string \<Rightarrow> string" where
  "header_entry formatted_key = ''    static DiagnosticMessageTemplate '' @ formatted_key @ '';'' @ newline"

definition source_entry :: "string \<Rightarrow> string \<Rightarrow> string" where
  "source_entry formatted_key unformatted =
     ''    DiagnosticMessageTemplate D::'' @ formatted_key @ '' = '' @ ''DiagnosticMessageTemplate { '' @ quote @ unformatted @
     quote @ '' };'' @ newline"

text \<open>The loop over the keys; it carries the header and the source written so far.\<close>

fun diagnostics_loop :: "regex_replace \<Rightarrow> string list \<Rightarrow> string \<Rightarrow> string \<Rightarrow> (generator, string \<times> string) exec" where
  "diagnostics_loop regex [] header source = ret (header, source)"
| "diagnostics_loop regex (key # ks) header source =
     (let formatted_key = format_diagnostic_key regex key in
      bind (gets gd_keys) (\<lambda>keys.
      if \<not> is_unique keys formatted_key
      then throw (Invalid_argument (''Duplicate formatted key: '' @ formatted_key @ ''.''))
      else
        bind (modify (\<lambda>g. g\<lparr>gd_keys := gd_keys g @ [formatted_key]\<rparr>)) (\<lambda>_.
        diagnostics_loop regex ks (header @ header_entry formatted_key)
          (source @ source_entry formatted_key (unformatted_key regex key)))))"

definition write_generated :: "string \<Rightarrow> string \<Rightarrow> (generator, unit) exec" where
  "write_generated name text = modify (\<lambda>g. g\<lparr>gd_written := gd_written g @ [(name, text)]\<rparr>)"

definition wrap_header :: "regex_replace \<Rightarrow> string \<Rightarrow> string \<Rightarrow> string" where
  "wrap_header regex file ns =
     regex (regex start_wrap_header_template ''{{header_guard}}'' (file @ ''_H'')) ''{{namespace}}'' ns"

definition wrap_source :: "regex_replace \<Rightarrow> string \<Rightarrow> string \<Rightarrow> string" where
  "wrap_source regex file ns =
     regex (regex start_wrap_source_template ''{{header_file}}'' (file @ ''.h'')) ''{{namespace}}'' ns"

definition generate_diagnostic ::
  "regex_replace \<Rightarrow> (string \<Rightarrow> string list) \<Rightarrow> (string \<Rightarrow> string) \<Rightarrow> string \<Rightarrow> string \<Rightarrow> string \<Rightarrow> (generator, unit) exec" where
  "generate_diagnostic regex json_keys read_file folder file ns =
     (let base = folder @ ''/'' @ file;
          json = read_file (base @ ''.json'');
          end_wrap_header = regex end_wrap_header_template ''{{header_guard}}'' (file @ ''_H'');
          end_wrap_source = regex end_wrap_source_template ''{{namespace}}'' ns in
      bind (diagnostics_loop regex (json_keys (remove_comments regex json)) (wrap_header regex file ns)
        (wrap_source regex file ns)) (\<lambda>(header, source).
      bind (write_generated (base @ ''.h'') (header @ end_wrap_header)) (\<lambda>_.
      bind (write_generated (base @ ''.cpp'') (source @ end_wrap_source)) (\<lambda>_.
      modify (\<lambda>g. g\<lparr>gd_keys := []\<rparr>)))))"

text \<open>The exit code of the program, and the state it ends in where nothing was thrown.\<close>

definition generate_main :: "regex_replace \<Rightarrow> (string \<Rightarrow> string list) \<Rightarrow> (string \<Rightarrow> string) \<Rightarrow> int \<times> generator option" where
  "generate_main regex json_keys read_file =
     (case bind (generate_diagnostic regex json_keys read_file ''src/program/graphql'' ''graphql_diagnostics'' ''flashpoint::program'')
             (\<lambda>_. generate_diagnostic regex json_keys read_file ''src/test'' ''test_case_diagnostics'' ''flashpoint::test'')
             \<lparr>gd_keys = [], gd_written = []\<rparr> of
        Inl e \<Rightarrow> (1, None)
      | Inr (_, g) \<Rightarrow> (0, Some g))"

section \<open>What is generated\<close>

lemma is_unique_iff: "is_unique keys key \<longleftrightarrow> key \<notin> set keys"
  by (auto simp: is_unique_def list_all_iff)

lemma diagnostics_loop_result:
  assumes "distinct (map (format_diagnostic_key regex) ks)" and "format_diagnostic_key regex ` set ks \<inter> set (gd_keys g) = {}"
  shows "diagnostics_loop regex ks header source g =
    Inr ((header @ concat (map header_entry (map (format_diagnostic_key regex) ks)),
          source @ concat (map (\<lambda>k. source_entry (format_diagnostic_key regex k) (unformatted_key regex k)) ks)),
         g\<lparr>gd_keys := gd_keys g @ map (format_diagnostic_key regex) ks\<rparr>)"
  using assms
proof (induction ks arbitrary: header source g)
  case (Cons key ks)
  let ?f = "format_diagnostic_key regex" and ?g = "g\<lparr>gd_keys := gd_keys g @ [format_diagnostic_key regex key]\<rparr>"
  have "?f ` set ks \<inter> set (gd_keys ?g) = {}" using Cons.prems by auto
  from Cons.IH [OF _ this] Cons.prems show ?case by (simp add: Let_def exec_simps is_unique_iff)
qed (simp add: exec_simps)

lemma diagnostics_loop_duplicate:
  assumes "\<not> (distinct (map (format_diagnostic_key regex) ks) \<and>
      format_diagnostic_key regex ` set ks \<inter> set (gd_keys g) = {})"
  shows "\<exists>k \<in> set ks. diagnostics_loop regex ks header source g =
    Inl (Invalid_argument (''Duplicate formatted key: '' @ format_diagnostic_key regex k @ ''.''))"
  using assms
proof (induction ks arbitrary: header source g)
  case (Cons key ks)
  let ?f = "format_diagnostic_key regex" and ?g = "g\<lparr>gd_keys := gd_keys g @ [format_diagnostic_key regex key]\<rparr>"
  show ?case
  proof (cases "?f key \<in> set (gd_keys g)")
    case True
    then show ?thesis by (simp add: exec_simps Let_def is_unique_iff)
  next
    case False
    with Cons.prems have "\<not> (distinct (map ?f ks) \<and> ?f ` set ks \<inter> set (gd_keys ?g) = {})" by auto
    from Cons.IH [OF this] False show ?thesis by (auto simp: exec_simps Let_def is_unique_iff)
  qed
qed simp


end
