(* ===== verification/Files.thy ===== *)
theory Files
  imports Utils
begin

text \<open>
  The helpers of \<open>src/lib/utils.cpp\<close> that run commands and read, write, find and copy files.  The files are a map from paths
  to contents.  What the shell prints, Boost's operations on paths and folders, the glob package and the location
  of the program are parameters.
\<close>

section \<open>Running a command\<close>

text \<open>\<open>fgets\<close> with a buffer of \<open>n\<close> bytes: up to \<open>n - 1\<close> bytes, at most up to the end of the line.\<close>

fun fgets :: "nat \<Rightarrow> ustring \<Rightarrow> ustring \<times> ustring" where
  "fgets (Suc (Suc n)) (c # cs) =
     (if c = NewLine then ([c], cs) else (let (line, rest) = fgets (Suc n) cs in (c # line, rest)))"
| "fgets n out = ([], out)"

lemma fgets_split: "fst (fgets n out) @ snd (fgets n out) = out"
  by (induction n out rule: fgets.induct) (auto split: prod.splits)

lemma fgets_shorter:
  assumes "fgets (Suc (Suc n)) (c # cs) = (line, rest)"
  shows "length rest < Suc (length cs)"
proof -
  from assms have "line \<noteq> []" by (auto split: if_splits prod.splits)
  moreover have "line @ rest = c # cs" using fgets_split [of "Suc (Suc n)" "c # cs"] assms by simp
  then have "length line + length rest = Suc (length cs)" by (metis length_Cons length_append)
  ultimately show ?thesis by (cases line) auto
qed

lemmas fgets_128 = fgets_shorter [of 126, simplified]

text \<open>Each chunk is appended as a C string.\<close>

function command_output :: "ustring \<Rightarrow> ustring \<Rightarrow> ustring" where
  "command_output result [] = result"
| "command_output result (c # cs) =
     (case fgets 128 (c # cs) of (line, rest) \<Rightarrow> command_output (result @ cstr line) rest)"
  by pat_completeness auto
termination
  by (relation "measure (\<lambda>(result, out). length out)") (auto dest: fgets_128 [OF sym])

text \<open>\<open>popen\<close> gives the output of the command, or fails.\<close>

definition execute_command :: "(ustring \<Rightarrow> ustring option) \<Rightarrow> ustring \<Rightarrow> flash_error + ustring" where
  "execute_command popen command = (case popen command of
     None \<Rightarrow> Inl (Runtime_error ''popen() failed!'')
   | Some out \<Rightarrow> Inr (command_output [] out))"

definition execute_command_in :: "(ustring \<Rightarrow> ustring option) \<Rightarrow> ustring \<Rightarrow> ustring \<Rightarrow> flash_error + ustring" where
  "execute_command_in popen command cwd = execute_command popen (u ''cd '' @ cwd @ u '' && '' @ command)"

text \<open>The output is complete as long as it has no null bytes; the size of the buffer does not matter.\<close>

lemma command_output_complete: "0 \<notin> set out \<Longrightarrow> command_output result out = result @ out"
proof (induction result out rule: command_output.induct)
  case (2 result c cs)
  obtain line rest where f: "fgets 128 (c # cs) = (line, rest)" by (cases "fgets 128 (c # cs)")
  have split: "line @ rest = c # cs" using fgets_split [of 128 "c # cs"] f by simp
  then have "0 \<notin> set line" "0 \<notin> set rest" using "2.prems" by (metis Un_iff set_append)+
  with "2.IH" [OF f [symmetric]] f have "command_output result (c # cs) = result @ line @ rest" by simp
  then show ?case by (simp only: split)
qed simp

lemma execute_command_complete:
  "popen command = Some out \<Longrightarrow> 0 \<notin> set out \<Longrightarrow> execute_command popen command = Inr out"
  by (simp add: execute_command_def command_output_complete)

section \<open>Reading and writing files\<close>

type_synonym files = "ustring \<rightharpoonup> ustring"

text \<open>
  The position at the end of the file is cut to an \<open>int\<close>.  The result is the buffer, with the null byte behind the contents.
\<close>

definition read_file :: "files \<Rightarrow> ustring \<Rightarrow> flash_error + ustring" where
  "read_file fs filename = (case fs filename of
     None \<Rightarrow> Inl (Logic_error (''Unable to open file'' @ map char_of filename))
   | Some file \<Rightarrow>
       (let size = sint (word_of_nat (length file) :: 32 word) in
        if 0 \<le> size \<and> size < 2 ^ 31 - 1 then Inr (take (nat size) file @ [0])
        else Inl (Undefined_behaviour ''size of the file'')))"

text \<open>\<open>can_open\<close>: whether the file can be opened for writing; where it cannot, nothing is reported.\<close>

definition write_file :: "(ustring \<Rightarrow> bool) \<Rightarrow> ustring \<Rightarrow> ustring \<Rightarrow> files \<Rightarrow> files" where
  "write_file can_open filename content fs =
     (if can_open filename then fs(filename \<mapsto> cstr content) else fs)"

lemma read_small_file:
  assumes "fs filename = Some file" and "length file < 2 ^ 31 - 1"
  shows "read_file fs filename = Inr (file @ [0])"
proof -
  have "sint (word_of_nat (length file) :: 32 word) = int (length file)"
    using assms(2) by (subst sint_small) (simp_all add: unat_of_nat)
  with assms show ?thesis by (simp add: read_file_def Let_def)
qed

lemma write_then_read:
  assumes "can_open filename" and "length content < 2 ^ 31 - 1"
  shows "read_file (write_file can_open filename content fs) filename = Inr (cstr content @ [0])"
proof -
  have "length (cstr content) \<le> length content" by (simp add: cstr_def length_takeWhile_le)
  with assms show ?thesis by (intro read_small_file) (simp_all add: write_file_def)
qed

section \<open>Folders\<close>

text \<open>
  The operations of Boost on the state \<open>'fs\<close> of the file system.  An operation that throws a \<open>filesystem_error\<close> gives its
  text.  \<open>fo_entries\<close> are the paths that \<open>directory_iterator\<close> visits.
\<close>

record 'fs folders =
  fo_exists :: "ustring \<Rightarrow> 'fs \<Rightarrow> string + bool"
  fo_is_directory :: "ustring \<Rightarrow> 'fs \<Rightarrow> string + bool"
  fo_create_directory :: "ustring \<Rightarrow> 'fs \<Rightarrow> string + (bool \<times> 'fs)"
  fo_entries :: "ustring \<Rightarrow> 'fs \<Rightarrow> string + ustring list"
  fo_copy_file :: "ustring \<Rightarrow> ustring \<Rightarrow> 'fs \<Rightarrow> string + 'fs"
  fo_filename :: "ustring \<Rightarrow> ustring"
  fo_join :: "ustring \<Rightarrow> ustring \<Rightarrow> ustring"
  fo_weakly_canonical :: "ustring \<Rightarrow> ustring"
  fo_program_location :: ustring

definition quoted :: "ustring \<Rightarrow> string" where
  "quoted path = [char_of (39 :: nat)] @ map char_of path @ [char_of (39 :: nat)]"

text \<open>The state with the messages printed so far.\<close>

record 'fs console =
  co_fs :: 'fs
  co_errors :: "string list"

definition complain :: "string \<Rightarrow> 'fs console \<Rightarrow> 'fs console" where
  "complain msg c = c\<lparr>co_errors := co_errors c @ [msg]\<rparr>"

text \<open>The first \<open>try\<close> block: the destination is created.  \<open>False\<close> where \<open>copy_folder\<close> returns false.\<close>

definition prepare_copy :: "'fs folders \<Rightarrow> ustring \<Rightarrow> ustring \<Rightarrow> 'fs console \<Rightarrow> bool \<times> 'fs console" where
  "prepare_copy fo source destination c =
     (let missing = complain (''Source directory '' @ quoted source @ '' does not exist or is not a directory.'') c;
          there = complain (''Destination directory '' @ quoted destination @ '' already exists.'') c;
          unable = (\<lambda>fs. complain (''Unable to create destination directory '' @ quoted destination @ ''.'') (c\<lparr>co_fs := fs\<rparr>)) in
      case fo_exists fo source (co_fs c) of Inl e \<Rightarrow> (False, complain e c) | Inr False \<Rightarrow> (False, missing) | Inr True \<Rightarrow>
      (case fo_is_directory fo source (co_fs c) of Inl e \<Rightarrow> (False, complain e c) | Inr False \<Rightarrow> (False, missing) | Inr True \<Rightarrow>
      (case fo_exists fo destination (co_fs c) of Inl e \<Rightarrow> (False, complain e c) | Inr True \<Rightarrow> (False, there) | Inr False \<Rightarrow>
      (case fo_create_directory fo destination (co_fs c) of
         Inl e \<Rightarrow> (False, complain e c)
       | Inr (made, fs) \<Rightarrow> if made then (True, c\<lparr>co_fs := fs\<rparr>) else (False, unable fs)))))"

text \<open>
  \<open>copy_folder\<close> with the depth of its calls; \<open>None\<close> where that does not suffice.  \<open>Inl\<close> is the exception of the
  \<open>directory_iterator\<close>, which the caller's \<open>try\<close> block catches.
\<close>

fun copy_folder :: "nat \<Rightarrow> 'fs folders \<Rightarrow> ustring \<Rightarrow> ustring \<Rightarrow> 'fs console \<Rightarrow> ((string + bool) \<times> 'fs console) option"
  and copy_entries :: "nat \<Rightarrow> 'fs folders \<Rightarrow> ustring \<Rightarrow> ustring list \<Rightarrow> 'fs console \<Rightarrow> ((string + bool) \<times> 'fs console) option" where
  "copy_folder 0 fo source destination c = None"
| "copy_folder (Suc n) fo source destination c =
     (case prepare_copy fo source destination c of
        (False, c) \<Rightarrow> Some (Inr False, c)
      | (True, c) \<Rightarrow>
          (case fo_entries fo source (co_fs c) of
             Inl e \<Rightarrow> Some (Inl e, c)
           | Inr entries \<Rightarrow> copy_entries n fo destination entries c))"
| "copy_entries n fo destination [] c = Some (Inr True, c)"
| "copy_entries n fo destination (current # entries) c =
     (let target = fo_join fo destination (fo_filename fo current) in
      case fo_is_directory fo current (co_fs c) of
        Inl e \<Rightarrow> copy_entries n fo destination entries (complain e c)
      | Inr True \<Rightarrow>
          (case copy_folder n fo current target c of
             None \<Rightarrow> None
           | Some (Inl e, c) \<Rightarrow> copy_entries n fo destination entries (complain e c)
           | Some (Inr False, c) \<Rightarrow> Some (Inr False, c)
           | Some (Inr True, c) \<Rightarrow> copy_entries n fo destination entries c)
      | Inr False \<Rightarrow>
          (case fo_copy_file fo current target (co_fs c) of
             Inl e \<Rightarrow> copy_entries n fo destination entries (complain e c)
           | Inr fs \<Rightarrow> copy_entries n fo destination entries (c\<lparr>co_fs := fs\<rparr>)))"

text \<open>A destination that exists is never touched, and a failed copy of a file is only printed.\<close>

lemma copy_folder_refuses:
  assumes "fo_exists fo destination (co_fs c) = Inr True"
  shows "\<exists>c'. copy_folder (Suc n) fo source destination c = Some (Inr False, c') \<and> co_fs c' = co_fs c"
  using assms by (auto simp: prepare_copy_def complain_def Let_def split: sum.split bool.split)

definition resolve_paths :: "'fs folders \<Rightarrow> ustring \<Rightarrow> ustring \<Rightarrow> ustring" where
  "resolve_paths fo path1 path2 = fo_weakly_canonical fo (fo_join fo path1 path2)"

definition resolve_paths3 :: "'fs folders \<Rightarrow> ustring \<Rightarrow> ustring \<Rightarrow> ustring \<Rightarrow> ustring" where
  "resolve_paths3 fo path1 path2 path3 = fo_weakly_canonical fo (fo_join fo (fo_join fo path1 path2) path3)"

definition root_dir :: "'fs folders \<Rightarrow> ustring" where
  "root_dir fo = fo_weakly_canonical fo (resolve_paths fo (fo_program_location fo) (u ''../../''))"

definition root_path :: "'fs folders \<Rightarrow> ustring \<Rightarrow> ustring" where
  "root_path fo path = fo_weakly_canonical fo (fo_join fo (root_dir fo) path)"

section \<open>Finding files\<close>

text \<open>\<open>glob\<close>: the names that match a pattern, in the order of the glob package.\<close>

definition find_files :: "(ustring \<Rightarrow> ustring list) \<Rightarrow> ustring \<Rightarrow> ustring list" where
  "find_files glob pattern = map (\<lambda>name. folder_path pattern @ [Slash] @ name) (glob pattern)"

definition find_files_in :: "'fs folders \<Rightarrow> (ustring \<Rightarrow> ustring list) \<Rightarrow> ustring \<Rightarrow> ustring \<Rightarrow> flash_error + ustring list" where
  "find_files_in fo glob pattern cwd =
     (if cwd = [] then Inl (Undefined_behaviour ''front of an empty string'')
      else if hd cwd \<noteq> Slash then
        Inl (Invalid_argument (''Utils::find_files: Current working directory '' @ quoted (u ''p_cwd'') @
          '', must be an absolute path. Got '' @ quoted cwd @ ''.''))
      else
        (let cwd = (if last cwd \<noteq> Slash then cwd @ [Slash] else cwd)
         in Inr (find_files glob (fo_join fo cwd pattern))))"

text \<open>\<open>as_string\<close> is \<open>Json::Value::asString\<close>, which throws for some types of values.\<close>

fun to_vector_of_strings :: "('json \<Rightarrow> flash_error + ustring) \<Rightarrow> 'json list \<Rightarrow> flash_error + ustring list" where
  "to_vector_of_strings as_string [] = Inr []"
| "to_vector_of_strings as_string (item # items) = (case as_string item of
     Inl e \<Rightarrow> Inl e
   | Inr s \<Rightarrow> (case to_vector_of_strings as_string items of Inl e \<Rightarrow> Inl e | Inr res \<Rightarrow> Inr (s # res)))"

end
