(* ===== verification/Command.thy ===== *)
theory Command
  imports Prelude
begin

text \<open>
  The command line (\<open>src/lib/command.h\<close>, \<open>command.cpp\<close>): choosing the command and reading its flags.
  A C string is the list of its bytes before the terminator; a null pointer is \<open>None\<close>.  \<open>argv\<close> is the list of
  the argument strings, the program's name included.  The texts of the warnings are pointers into strings
  that are destroyed in the same statement, so only their number is kept.
\<close>

section \<open>Data\<close>

record FlagDefinition =
  fd_name :: ustring
  fd_description :: ustring
  fd_alias :: ustring
  fd_has_value :: bool
  fd_has_default_value :: bool
  fd_default_value :: ustring

record Flag =
  fl_name :: ustring
  fl_description :: ustring
  fl_alias :: ustring
  fl_has_value :: bool
  fl_value :: "ustring option"

record CommandDefinition =
  cd_namespace :: ustring
  cd_name :: ustring
  cd_description :: ustring
  cd_flags :: "FlagDefinition list"

record Command =
  cm_command :: CommandDefinition
  cm_flags :: "Flag list"
  cm_warnings :: nat
  cm_flag_awaiting_value :: "Flag option"

section \<open>Operations\<close>

text \<open>The command of \<open>argv[1]\<close>: the last definition of that name, or the first definition.\<close>

definition select_command :: "ustring list \<Rightarrow> CommandDefinition list \<Rightarrow> flash_error + CommandDefinition" where
  "select_command argv commands =
     (let found = foldl (\<lambda>found c.
        if length argv > 1 \<and> (argv ! 1 = [] \<or> hd (argv ! 1) \<noteq> Minus) \<and> argv ! 1 = cd_name c
        then Some c else found) None commands in
      case found of
        Some c \<Rightarrow> Inr c
      | None \<Rightarrow> (case commands of [] \<Rightarrow> Inl (Out_of_range ''vector::at'') | c # cs \<Rightarrow> Inr c))"

definition flag_of :: "FlagDefinition \<Rightarrow> Flag" where
  "flag_of d = \<lparr>fl_name = fd_name d, fl_description = fd_description d, fl_alias = fd_alias d,
     fl_has_value = fd_has_value d, fl_value = None\<rparr>"

text \<open>
  The part of an argument behind the two dashes, cut at the first equal sign, and what stands behind
  the sign.  An equal sign right behind the first dash makes the length that is passed to
  \<open>strncpy\<close> wrap around.
\<close>

definition split_flag :: "ustring \<Rightarrow> flash_error + (ustring \<times> ustring option)" where
  "split_flag arg =
     (let i = length (takeWhile (\<lambda>c. c \<noteq> Equal_char) arg) in
      if i < length arg then
        (if i < 2 then Inl (Undefined_behaviour ''strncpy'')
         else Inr (take (i - 2) (drop 2 arg), Some (drop (i + 1) arg)))
      else Inr (drop 2 arg, None))"

text \<open>The callback on an argument.\<close>

definition parse_arg :: "ustring \<Rightarrow> (Command, unit) exec" where
  "parse_arg arg c =
     (if arg \<noteq> [] \<and> hd arg = Minus then
        case split_flag arg of
          Inl e \<Rightarrow> Inl e
        | Inr (flag, value) \<Rightarrow>
            if length arg < 2 \<and> cd_flags (cm_command c) \<noteq> [] then Inl (Undefined_behaviour ''strcmp'')
            else
              (case List.find (\<lambda>d. fd_name d = flag) (cd_flags (cm_command c)) of
                 None \<Rightarrow> Inr ((), c\<lparr>cm_warnings := cm_warnings c + 1\<rparr>)
               | Some d \<Rightarrow>
                   if fd_has_value d then
                     (case value of
                        Some v \<Rightarrow> Inr ((), c\<lparr>cm_flags := cm_flags c @ [(flag_of d)\<lparr>fl_value := Some v\<rparr>]\<rparr>)
                      | None \<Rightarrow> Inr ((), c\<lparr>cm_flag_awaiting_value := Some (flag_of d)\<rparr>))
                   else Inr ((), c\<lparr>cm_flags := cm_flags c @ [flag_of d]\<rparr>))
      else
        (case cm_flag_awaiting_value c of
           None \<Rightarrow> Inr ((), c)
         | Some f \<Rightarrow>
             Inr ((), c\<lparr>cm_flag_awaiting_value := Some (f\<lparr>fl_value := Some arg\<rparr>),
               cm_flags := cm_flags c @ [f\<lparr>fl_value := Some arg\<rparr>]\<rparr>)))"

primrec for_each_arg :: "ustring list \<Rightarrow> (Command, unit) exec" where
  "for_each_arg [] = ret ()"
| "for_each_arg (a # as) = bind (parse_arg a) (\<lambda>_. for_each_arg as)"

definition Command_new :: "ustring list \<Rightarrow> CommandDefinition list \<Rightarrow> flash_error + Command" where
  "Command_new argv commands =
     (case select_command argv commands of
        Inl e \<Rightarrow> Inl e
      | Inr d \<Rightarrow>
          (case for_each_arg (drop 1 argv)
                  \<lparr>cm_command = d, cm_flags = [], cm_warnings = 0, cm_flag_awaiting_value = None\<rparr> of
             Inl e \<Rightarrow> Inl e
           | Inr (x, c) \<Rightarrow> Inr c))"

definition get_flag_value :: "ustring \<Rightarrow> Command \<Rightarrow> ustring option" where
  "get_flag_value flag c =
     (case List.find (\<lambda>f. fl_name f = flag) (cm_flags c) of Some f \<Rightarrow> fl_value f | None \<Rightarrow> Some [])"

definition is_command :: "ustring \<Rightarrow> Command \<Rightarrow> bool" where
  "is_command name c \<longleftrightarrow> cd_name (cm_command c) = name"

definition has_flag :: "ustring \<Rightarrow> Command \<Rightarrow> bool" where
  "has_flag flag c \<longleftrightarrow> list_ex (\<lambda>f. fl_name f = flag) (cm_flags c)"

section \<open>Properties\<close>

definition defined_flag :: "CommandDefinition \<Rightarrow> Flag \<Rightarrow> bool" where
  "defined_flag d f \<longleftrightarrow> list_ex (\<lambda>e. f\<lparr>fl_value := None\<rparr> = flag_of e) (cd_flags d)"

definition command_ok :: "CommandDefinition \<Rightarrow> Command \<Rightarrow> bool" where
  "command_ok d c \<longleftrightarrow> cm_command c = d \<and>
     list_all (\<lambda>f. defined_flag d f \<and> (fl_value f \<noteq> None \<longleftrightarrow> fl_has_value f)) (cm_flags c) \<and>
     (case cm_flag_awaiting_value c of None \<Rightarrow> True | Some f \<Rightarrow> defined_flag d f \<and> fl_has_value f)"

lemma defined_flag_of:
  "List.find P (cd_flags d) = Some e \<Longrightarrow> defined_flag d (flag_of e)"
  by (auto simp: defined_flag_def list_ex_iff flag_of_def dest!: find_Some_iff [THEN iffD1])

lemma defined_flag_value [simp]: "defined_flag d (f\<lparr>fl_value := v\<rparr>) = defined_flag d f"
  by (simp add: defined_flag_def)

lemma flag_of_simps [simp]:
  "fl_name (flag_of d) = fd_name d" "fl_has_value (flag_of d) = fd_has_value d" "fl_value (flag_of d) = None"
  by (simp_all add: flag_of_def)

lemma parse_arg_ok: "parse_arg arg c = Inr (x, c') \<Longrightarrow> command_ok d c \<Longrightarrow> command_ok d c'"
  by (auto simp: parse_arg_def command_ok_def defined_flag_of split: if_splits sum.splits option.splits prod.splits)

lemma for_each_arg_ok: "for_each_arg as c = Inr (x, c') \<Longrightarrow> command_ok d c \<Longrightarrow> command_ok d c'"
proof (induction as arbitrary: c)
  case (Cons a as)
  then show ?case by (auto elim!: bind_InrE dest: parse_arg_ok)
qed (simp add: exec_simps)

text \<open>C36. Every flag a command line gives is one the chosen command defines, with the definition's name,
  description and alias, and it has a value exactly when its definition asks for one; the chosen
  command is one of the program's.\<close>

theorem parsed_flags_defined:
  assumes "Command_new argv commands = Inr c"
  shows "cm_command c \<in> set commands \<and>
    list_all (\<lambda>f. defined_flag (cm_command c) f \<and> (fl_value f \<noteq> None \<longleftrightarrow> fl_has_value f)) (cm_flags c)"
proof -
  from assms obtain d where d: "select_command argv commands = Inr d"
    and run: "for_each_arg (drop 1 argv)
      \<lparr>cm_command = d, cm_flags = [], cm_warnings = 0, cm_flag_awaiting_value = None\<rparr> = Inr ((), c)"
    by (auto simp: Command_new_def split: sum.splits)
  have "foldl (\<lambda>found c. if P c then Some c else found) z cs = Some y \<Longrightarrow> y \<in> set cs \<or> z = Some y"
    for P :: "CommandDefinition \<Rightarrow> bool" and cs y z
    by (induction cs arbitrary: z) (auto split: if_splits)
  with d have "d \<in> set commands"
    by (fastforce simp: select_command_def Let_def split: option.splits list.splits)
  moreover have "command_ok d \<lparr>cm_command = d, cm_flags = [], cm_warnings = 0, cm_flag_awaiting_value = None\<rparr>"
    by (simp add: command_ok_def)
  with for_each_arg_ok [OF run] have "command_ok d c" by blast
  ultimately show ?thesis by (auto simp: command_ok_def)
qed

lemma takeWhile_no_equal:
  "Equal_char \<notin> set xs \<Longrightarrow> takeWhile (\<lambda>c. c \<noteq> Equal_char) (xs @ Equal_char # ys) = xs"
  "Equal_char \<notin> set xs \<Longrightarrow> takeWhile (\<lambda>c. c \<noteq> Equal_char) xs = xs"
  by (auto simp: takeWhile_append takeWhile_eq_all_conv)

lemma split_flag_simps:
  assumes "Equal_char \<notin> set n"
  shows "split_flag (Minus # Minus # n @ Equal_char # v) = Inr (n, Some v)"
    and "split_flag (Minus # Minus # n) = Inr (n, None)"
  by (simp_all add: split_flag_def Let_def takeWhile_no_equal [OF assms])

definition positional :: "ustring \<Rightarrow> bool" where
  "positional a \<longleftrightarrow> a = [] \<or> hd a \<noteq> Minus"

lemma positional_values:
  "\<lbrakk>list_all positional ps; cm_flag_awaiting_value c = Some f\<rbrakk> \<Longrightarrow>
   \<exists>c'. for_each_arg ps c = Inr ((), c') \<and> cm_flags c' = cm_flags c @ map (\<lambda>p. f\<lparr>fl_value := Some p\<rparr>) ps"
proof (induction ps arbitrary: c f)
  case Nil
  then show ?case by (simp add: exec_simps)
next
  case (Cons p ps)
  let ?f = "f\<lparr>fl_value := Some p\<rparr>"
  let ?c = "c\<lparr>cm_flag_awaiting_value := Some ?f, cm_flags := cm_flags c @ [?f]\<rparr>"
  have "parse_arg p c = Inr ((), ?c)" using Cons.prems by (auto simp: parse_arg_def positional_def)
  with Cons.IH [of ?c ?f] Cons.prems show ?case by (auto simp: bind_Inr)
qed

text \<open>A flag with a value takes it from behind its equal sign, or else from the next argument that is not
  a flag.  In the second form the flag never stops waiting: every further argument that is not a flag
  is taken as another value of it.\<close>

theorem flag_values:
  assumes "List.find (\<lambda>d. fd_name d = n) (cd_flags (cm_command c)) = Some d" and "fd_has_value d"
    and "Equal_char \<notin> set n" and "list_all positional ps"
  shows "parse_arg (Minus # Minus # n @ Equal_char # v) c =
      Inr ((), c\<lparr>cm_flags := cm_flags c @ [(flag_of d)\<lparr>fl_value := Some v\<rparr>]\<rparr>) \<and>
    (\<exists>c'. for_each_arg ((Minus # Minus # n) # ps) c = Inr ((), c') \<and>
      cm_flags c' = cm_flags c @ map (\<lambda>p. (flag_of d)\<lparr>fl_value := Some p\<rparr>) ps)"
proof -
  have "parse_arg (Minus # Minus # n) c = Inr ((), c\<lparr>cm_flag_awaiting_value := Some (flag_of d)\<rparr>)"
    using assms(1-3) by (simp add: parse_arg_def split_flag_simps)
  with positional_values [OF assms(4), of "c\<lparr>cm_flag_awaiting_value := Some (flag_of d)\<rparr>" "flag_of d"]
  show ?thesis using assms(1-3) by (auto simp: parse_arg_def split_flag_simps bind_Inr)
qed

definition example_command :: CommandDefinition where
  "example_command = \<lparr>cd_namespace = [], cd_name = u ''run'', cd_description = [],
     cd_flags = [\<lparr>fd_name = u ''port'', fd_description = [], fd_alias = u ''p'', fd_has_value = True,
       fd_has_default_value = False, fd_default_value = []\<rparr>]\<rparr>"

theorem parsed_flags_defined_witness:
  "list_all (\<lambda>f. defined_flag example_command f \<and> (fl_value f \<noteq> None \<longleftrightarrow> fl_has_value f))
     [\<lparr>fl_name = u ''port'', fl_description = [], fl_alias = u ''p'', fl_has_value = True, fl_value = Some (u ''80'')\<rparr>]"
proof -
  have "Command_new [u ''x'', u ''run'', u ''--port=80''] [example_command] =
    Inr \<lparr>cm_command = example_command, cm_flags = [\<lparr>fl_name = u ''port'', fl_description = [],
      fl_alias = u ''p'', fl_has_value = True, fl_value = Some (u ''80'')\<rparr>], cm_warnings = 0,
      cm_flag_awaiting_value = None\<rparr>"
    by (simp add: Command_new_def select_command_def example_command_def parse_arg_def split_flag_def
        flag_of_def exec_simps bind_def)
  from parsed_flags_defined [OF this] show ?thesis by simp
qed

theorem flag_values_witness:
  "\<exists>c'. for_each_arg [u ''--port'', u ''80'', u ''81'']
     \<lparr>cm_command = example_command, cm_flags = [], cm_warnings = 0, cm_flag_awaiting_value = None\<rparr> = Inr ((), c') \<and>
   map fl_value (cm_flags c') = [Some (u ''80''), Some (u ''81'')]"
  using flag_values [of "u ''port''"
      "\<lparr>cm_command = example_command, cm_flags = [], cm_warnings = 0, cm_flag_awaiting_value = None\<rparr>"
      "hd (cd_flags example_command)" "[u ''80'', u ''81'']" "[]"]
  by (auto simp: example_command_def positional_def simp del: for_each_arg.simps)

end
