(* ===== verification/Spec2Isabelle.thy ===== *)
theory Spec2Isabelle
  imports MemoryPool Diagnostics GraphQlSchemaChecking GraphQlExecutorFaults HttpServerRuns TcpClients GenerateDiagnostics
    Files TextAnnotater Command
begin

text \<open>
  A verification of the core of flashpoint, a GraphQL server in C++ (\<open>src/\<close> below is the repository's
  \<open>src/src\<close> directory).

  \<^bold>\<open>The program.\<close>  An HTTP server, a gateway, reads requests from encrypted connections into buffers; \<open>HttpParser\<close> over
  \<open>HttpScanner\<close> takes a request apart, and \<open>HttpWriter\<close> buffers what is sent to the backend the fields of a query are
  forwarded to.  The body of a request is a
  GraphQL document: \<open>GraphQlScanner\<close> cuts it into tokens for the parsers of schemas and queries, which report
  problems as diagnostics and allocate their syntax nodes from a \<open>MemoryPool\<close>.  A small library of string
  helpers, a \<open>TextWriter\<close>, a \<open>TextAnnotater\<close> that prints diagnostics below the source, and the command line
  stand beside them.

  \<^bold>\<open>Theories.\<close>
  \<^item> \<open>Prelude\<close>: errors, the state-and-error monad \<open>exec\<close> with its weakest preconditions, strings, unsigned
    subtraction, \<open>Location\<close> (\<open>lib/types.h\<close>), and the locale \<open>saved_cursor\<close>, the contract of save and revert
    that both scanners and the text writer are interpreted in (\<open>gs_cursor\<close>, \<open>hs_cursor\<close>, \<open>tw_cursor\<close>).
  \<^item> \<open>MemoryPool\<close>: \<open>lib/memory_pool.*\<close>.  The pool and its tickets are records; the clients' live regions
    are ghost state of the step relation \<open>pool_step\<close>.
  \<^item> \<open>Diagnostics\<close>: \<open>program/diagnostic.*\<close> and the message tables.
  \<^item> \<open>GraphQlToken\<close>, \<open>GraphQlSyntaxes\<close>, \<open>GraphQlScanner\<close>, \<open>GraphQlLexing\<close>: \<open>program/graphql/graphql_scanner.*\<close>
    and the enumerations of \<open>graphql_syntaxes.h\<close>.  \<open>GraphQlScanner\<close> holds one definition per method of the
    class and that every token is scanned safely; \<open>GraphQlLexing\<close> the behaviour of look-ahead, locations,
    names, strings and block skipping, and where the code deviates from what it means to do.
  \<^item> \<open>GraphQlNodes\<close>, \<open>GraphQlParser\<close>, \<open>GraphQlSchema\<close>, \<open>GraphQlSchemaChecks\<close>: the nodes of
    \<open>program/graphql/graphql_syntaxes.h\<close>, the base class of \<open>graphql_parser.h\<close> and \<open>graphql_parser_impl.h\<close>, and
    \<open>graphql_schema.*\<close> in two halves, the parse methods and the checks of the finished schema.
  \<^item> \<open>GraphQlExecutor\<close>: the nodes of queries and \<open>graphql_executor.*\<close>, which reads a query and checks it against a
    schema on the way.  Its stores are those of the schema it was given.
  \<^item> \<open>GraphQlParserSteps\<close>: the locale \<open>parser_steps\<close>, the contract of a parser over the scanner: a relation that
    says how its methods may change the state and contains the changes of the base class.  In it the judgement
    \<open>good\<close> (a method ends within its fuel, moves the scanner forward only and changes the state by the relation) is
    shown to be closed under the constructs of the monad and to hold of the base class (\<open>good_intros\<close>).  Both parsers
    interpret it (\<open>sp\<close>, \<open>ep\<close>).
  \<^item> \<open>GraphQlSchemaParsing\<close>, \<open>GraphQlSchemaChecking\<close>: what holds of schemas.  Parsing ends and leaves consistent
    tables.  The checks only add diagnostics (\<open>only_reports\<close>), and the check of values is the
    specification \<open>assignable\<close>.
  \<^item> \<open>GraphQlExecutorParsing\<close>, \<open>GraphQlQueries\<close>, \<open>GraphQlExecutorFaults\<close>: what holds of queries.  Reading one ends and
    keeps the schema but for the marks of list types; a tree of fields that is printed as a query is read back;
    and where the executor fails: variables, list literals, names for scalars.
  \<^item> \<open>HttpHeaders\<close>, \<open>HttpScanner\<close>, \<open>HttpParser\<close>, \<open>HttpParsing\<close>, \<open>HttpHeaderLines\<close>: \<open>program/http_scanner.*\<close> and
    \<open>program/http_parser.*\<close>, with every read of the request buffer checked; memory safety, request lines,
    header lines and bodies.
  \<^item> \<open>HttpWriter\<close>: \<open>program/http_response.*\<close>.  The locale \<open>byte_sink\<close> is the contract of a stream of bytes,
    interpreted on the writer (\<open>http_sink\<close>); \<open>uv_write\<close> and the TLS records are parameters.
  \<^item> \<open>HttpMessages\<close>: whole requests, parsed by \<open>HttpParser\<close> and sent line by line with \<open>HttpWriter\<close> (the judgements
    \<open>appends\<close> and \<open>sends\<close>).
  \<^item> \<open>HttpServer\<close>: \<open>program/http_server.*\<close>.  The state is that of the \<open>HttpServer\<close>, its one \<open>GatewayClient\<close>, the TLS sessions, the
    requests to the backend and the effects asked of libuv; there is one definition per callback, and \<open>run_callback\<close> runs the
    callback of an event.  \<open>HttpGateway\<close>: the runs \<open>serves\<close>, the weakest preconditions of the server's operations
    (\<open>server_wp\<close>), the invariant \<open>server_ok\<close>, and that every callback keeps it.  \<open>HttpForwarding\<close>: which requests are forwarded
    and what the backend gets.  \<open>HttpServerRuns\<close>: where the gateway fails, and a concrete run.
  \<^item> \<open>TcpClients\<close>: \<open>lib/tcp_client_raw.*\<close> and \<open>program/tcp_client.*\<close>.  \<open>GenerateDiagnostics\<close>:
    \<open>tasks/generate_diagnostics.cpp\<close>, which writes the tables of messages.
  \<^item> \<open>Utils\<close>, \<open>TextWriter\<close>, \<open>TextAnnotater\<close>, \<open>Command\<close>: the same-named files of \<open>lib/\<close>.  \<open>Files\<close>: the half of
    \<open>lib/utils.cpp\<close> that runs commands and handles files; Boost's operations on folders are a record of parameters.
  \<^item> This theory: the properties that span components.

  \<^bold>\<open>How code is modelled.\<close>  A class is a record, a method a function on it in the monad \<open>exec\<close> (or a plain
  function where it cannot fail); exceptions and undefined behaviour are values of \<open>flash_error\<close>.  Indices and
  sizes are natural numbers where no subtraction can wrap and \<open>sub64\<close> or words where it can.  Loops are
  structural recursion or \<open>function\<close>s with a measure on the remaining input; a loop that need not end is a
  \<open>partial_function (option)\<close>, and whether it returns is stated (\<open>replace_all\<close>, \<open>split_string\<close>).  Only the
  two GraphQL parsers, whose methods call one another, carry fuel.  Functions of Boost, libuv and OpenSSL are parameters of the definitions that call them.

  \<^bold>\<open>What is shown.\<close>  The scanner never reads outside its source except after a final carriage return, makes
  progress with every token, and its look-ahead is free of effects; names, numbers, strings and blocks
  are recognised as specified.  A schema is parsed in linear fuel to consistent tables, and the values of
  directive arguments are accepted exactly if they are assignable.  A query is read in linear fuel, keeps the
  schema, and a query of existing fields is read without a report to the tree it was printed from.  The parser of requests reads inside its buffer and reads well-formed
  requests completely, and what the writer sends it reads back.  In every run of the server a query of known fields leads to
  one well-formed request to the backend for each; but connections share one TLS session, no request is answered, and the
  server stops after as many requests as the pool has blocks.  Regions handed out by the pool are disjoint.  The text writer's
  position is the length of its text, placeholders insert, and an annotated text has its declared layout.
  Where the code does something else than it means to, that is proved too, and listed as a finding.

  \<^bold>\<open>The schema.\<close>  A node that is changed behind pointers (a type, a declaration) lives in a store of the
  parser, any other node is a value.  The parse methods carry fuel, every loop and call taking one unit; the
  constructor \<open>GraphQlSchema_new\<close> gives them twice the length of the source plus two, which is shown to be enough
  (\<open>parse_document_ends\<close>).  The check of recursive
  directives carries the depth of its calls.  The memory of the pool is not initialised; \<open>ps_zeroed\<close> says
  whether it holds zeros, and a read of a member that was never written is undefined otherwise.  Allocation
  never fails, \<open>std::map\<close> orders its keys by code points (which is what \<open>Glib::ustring\<close> does for the ASCII names
  in the C locale the program runs in), and the \<open>double\<close> of a float literal, never read, is left out.

  \<^bold>\<open>The executor.\<close>  \<open>add_schema\<close> makes the stores of the schema those of the executor, so that a change of a type
  while a query is read is one of the schema; an executor has one schema.  The pointers to the root types are
  \<open>None\<close> until written.  \<open>Execute\<close> gives its loops twice the length of the query plus two units of fuel, which is
  shown to be enough (\<open>Execute_ends\<close>).  Casts of a declaration to a class it does not have, reads of the top of
  an empty stack and of the end of a map are undefined behaviour.

  \<^bold>\<open>The server.\<close>  What libuv, OpenSSL, JsonCpp and the compiler decide is the record \<open>platform\<close>, over an arbitrary type
  of TLS sessions; \<open>may_occur\<close> says when libuv makes a call.  The parsers' allocations are replayed on the pool from the list
  \<open>node_requests\<close> of sizes, which are the compiler's.  Time, the life of the buffers that are handed to libuv, and
  memory that is never freed are not part of the state.

  \<^bold>\<open>Not modelled.\<close>  The test runner and its scanner of test files (test code), the visitors of \<open>graphql_syntaxes.cpp\<close> (one forwarding call each, and no visitor exists), and the functions of
  \<open>lib/utils.cpp\<close> that are one call of Boost or the system.
\<close>

section \<open>What the client writes is what the server reads\<close>

lemma method_prefix_name:
  "m \<in> {Get, Post, Patch, Head} \<Longrightarrow> method_prefix m = Some (method_name m @ [Space])"
  by (auto simp: method_prefix_def method_name_def)

lemma path_char_not_null: "\<not> path_char 0"
  by (simp add: path_char_def is_unreserved_char_def is_sub_delimiter_def isalnum_def)

lemma target_no_null: "target_ok p q \<Longrightarrow> 0 \<notin> set (target p q)"
  using path_char_not_null
  by (fastforce simp: target_ok_def target_def list_all_iff split: option.splits)

lemma request_line_sent:
  assumes "length garbage = buffer_size" and "m \<in> {Get, Post, Patch, Head}" and "target_ok p q"
  shows "\<exists>w. WriteRequest env m (target p q) (HttpWriter_new garbage False) = Inr ((), w) \<and>
    concat (hw_sent (End env w)) =
      method_name m @ [Space] @ target p q @ [Space] @ u ''HTTP/1.1'' @ [CarriageReturn, NewLine]"
proof -
  have "plain_writer (HttpWriter_new garbage False)"
    using assms(1) by (simp add: plain_writer_def HttpWriter_new_def)
  from WriteRequest_plain [OF this target_no_null [OF assms(3)], of env m] assms(2)
  obtain w where w: "WriteRequest env m (target p q) (HttpWriter_new garbage False) = Inr ((), w)"
    "plain_writer w"
    "contents w = method_name m @ [Space] @ target p q @ [Space] @ u ''HTTP/1.1'' @ [CarriageReturn, NewLine]"
    by (auto simp: contents_new method_prefix_name crlf_def)
  moreover have "concat (hw_sent (End env w)) = contents w"
    using FlushBuffer_plain [OF w(2), of env] by (simp add: End_def contents_def)
  ultimately show ?thesis by auto
qed



end
